(* ===== verification/Saito_Prelude.thy ===== *)
theory Saito_Prelude
  imports Main "HOL-Library.Word"
begin

text \<open>
  Shared vocabulary of the development: machine integers and byte buffers as the Rust code
  has them, results with errors and panics as values, slices with Rust's bounds checks,
  big-endian integers (\<^verbatim>\<open>to_be_bytes\<close> / \<^verbatim>\<open>from_be_bytes\<close>), and the
  interface \<open>fixed_codec\<close> of a fixed-width wire format with the loop that reads a
  sequence of such records out of a buffer.

  Integers are words of the source's width and wrap, as they do in the release profile of
  the workspace (\<^verbatim>\<open>overflow-checks\<close> is not enabled there). Lengths and indices
  (\<^verbatim>\<open>usize\<close>) are \<open>nat\<close>. A panic (failed \<^verbatim>\<open>assert!\<close>, \<^verbatim>\<open>unwrap\<close> of
  \<^verbatim>\<open>None\<close>, subslice out of range) is the error value \<open>Panic\<close>; the other error values
  are the \<^verbatim>\<open>std::io::ErrorKind\<close>s the code returns.
\<close>

named_theorems codec_simps \<open>lengths and round trips of the wire formats\<close>
named_theorems wf_defs \<open>well-formedness predicates of the model's records\<close>

type_synonym u8 = "8 word"
type_synonym u16 = "16 word"
type_synonym u32 = "32 word"
type_synonym u64 = "64 word"
type_synonym bytes = "8 word list"

text \<open>\<^verbatim>\<open>a.saturating_sub(b)\<close>\<close>

definition sat_sub :: "u64 \<Rightarrow> u64 \<Rightarrow> u64" where
  "sat_sub a b = (if a \<ge> b then a - b else 0)"

section \<open>Results\<close>

datatype error = InvalidInput | InvalidData | NotFound | Other | Panic

type_synonym 'a res = "error + 'a"

fun rbind :: "'a res \<Rightarrow> ('a \<Rightarrow> 'b res) \<Rightarrow> 'b res" where
  "rbind (Inl e) f = Inl e"
| "rbind (Inr x) f = f x"

lemma rbind_eq_Inr [simp]: "rbind m f = Inr y \<longleftrightarrow> (\<exists>x. m = Inr x \<and> f x = Inr y)"
  by (cases m) auto

lemma rbind_assoc: "rbind (rbind m f) g = rbind m (\<lambda>x. rbind (f x) g)"
  by (cases m) auto

lemma rbind_cong [fundef_cong]:
  "m = m' \<Longrightarrow> (\<And>x. m' = Inr x \<Longrightarrow> f x = g x) \<Longrightarrow> rbind m f = rbind m' g"
  by (cases m') auto

text \<open>\<^verbatim>\<open>opt.ok_or(e)?\<close>\<close>

fun ok_or :: "error \<Rightarrow> 'a option \<Rightarrow> 'a res" where
  "ok_or e None = Inl e"
| "ok_or e (Some x) = Inr x"

lemma ok_or_eq_Inr [simp]: "ok_or e m = Inr x \<longleftrightarrow> m = Some x"
  by (cases m) auto

text \<open>\<^verbatim>\<open>r.unwrap()\<close>, and handling of an error returned by a call: a panic is not caught.\<close>

fun unwrap_r :: "'a res \<Rightarrow> 'a res" where
  "unwrap_r (Inl e) = Inl Panic"
| "unwrap_r (Inr x) = Inr x"

lemma unwrap_r_eq_Inr [simp]: "unwrap_r m = Inr x \<longleftrightarrow> m = Inr x"
  by (cases m) auto

fun recover :: "'a res \<Rightarrow> 'b res \<Rightarrow> ('a \<Rightarrow> 'b res) \<Rightarrow> 'b res" where
  "recover (Inl e) d f = (if e = Panic then Inl Panic else d)"
| "recover (Inr x) d f = f x"

lemma recover_eq_InrE:
  assumes "recover m d f = Inr y"
  obtains (default) e where "m = Inl e" "d = Inr y" | (ok) x where "m = Inr x" "f x = Inr y"
  using assms by (cases m) (auto split: if_splits)

section \<open>Slices\<close>

definition subslice :: "nat \<Rightarrow> nat \<Rightarrow> 'a list \<Rightarrow> 'a list" where
  "subslice a b xs = take (b - a) (drop a xs)"

text \<open>\<^verbatim>\<open>&xs[a..b]\<close>: out of range is a panic.\<close>

definition slice_r :: "nat \<Rightarrow> nat \<Rightarrow> 'a list \<Rightarrow> 'a list res" where
  "slice_r a b xs = (if a \<le> b \<and> b \<le> length xs then Inr (subslice a b xs) else Inl Panic)"

text \<open>\<^verbatim>\<open>xs[i]\<close>: out of range is a panic.\<close>

definition index_r :: "'a list \<Rightarrow> nat \<Rightarrow> 'a res" where
  "index_r xs i = (if i < length xs then Inr (xs ! i) else Inl Panic)"

lemma length_subslice [simp]: "b \<le> length xs \<Longrightarrow> length (subslice a b xs) = b - a"
  by (simp add: subslice_def)

lemma slice_append_mid:
  "length xs = a \<Longrightarrow> length ys = b - a \<Longrightarrow> subslice a b (xs @ ys @ zs) = ys"
  by (simp add: subslice_def)

lemma slice_cat: "a \<le> b \<Longrightarrow> b \<le> c \<Longrightarrow> subslice a b xs @ subslice b c xs = subslice a c xs"
proof -
  assume "a \<le> b" "b \<le> c"
  then have "drop b xs = drop (b - a) (drop a xs)" and "c - a = (b - a) + (c - b)"
    by (simp_all add: drop_drop)
  then show ?thesis
    by (simp only: subslice_def take_add)
qed

lemma slice_cat_drop: "a \<le> b \<Longrightarrow> subslice a b xs @ drop b xs = drop a xs"
proof -
  assume "a \<le> b"
  then have "drop b xs = drop (b - a) (drop a xs)"
    by (simp add: drop_drop)
  then show ?thesis
    by (simp only: subslice_def append_take_drop_id)
qed

lemma slice_self_conv: "subslice 0 (length xs) xs = xs"
  by (simp add: subslice_def)

text \<open>An early \<^verbatim>\<open>return false\<close>.\<close>

lemma return_false_if: "(if c then False else P) \<longleftrightarrow> \<not> c \<and> P"
  by simp

lemma length_ge_3D: "\<not> length xs < 3 \<Longrightarrow> \<exists>a b c ys. xs = a # b # c # ys"
  by (auto simp: not_less numeral_3_eq_3 Suc_le_length_iff)

section \<open>Renumbering a list\<close>

lemma map_enumerate_invariant:
  assumes "\<And>i x. f (g i x) = f x"
  shows "map f (map (\<lambda>(i, x). g i x) (enumerate k xs)) = map f xs"
  by (induction xs arbitrary: k) (auto simp: assms)

section \<open>Big-endian integers\<close>

fun be_bytes :: "nat \<Rightarrow> nat \<Rightarrow> bytes" where
  "be_bytes 0 v = []"
| "be_bytes (Suc n) v = be_bytes n (v div 256) @ [of_nat v]"

definition be_value :: "bytes \<Rightarrow> nat" where
  "be_value bs = foldl (\<lambda>acc b. acc * 256 + unat b) 0 bs"

lemma be_value_Nil [simp]: "be_value [] = 0"
  by (simp add: be_value_def)

lemma be_value_snoc [simp]: "be_value (bs @ [b]) = be_value bs * 256 + unat b"
  by (simp add: be_value_def)

lemma length_be_bytes [simp]: "length (be_bytes n v) = n"
  by (induction n arbitrary: v) auto

lemma unat_byte_bound: "unat (b :: u8) < 256"
  using unsigned_less [of b] by simp

lemma be_value_bound: "be_value bs < 256 ^ length bs"
proof (induction bs rule: rev_induct)
  case (snoc b bs)
  have "be_value bs * 256 + unat b < (be_value bs + 1) * 256"
    using unat_byte_bound [of b] by simp
  also have "\<dots> \<le> 256 ^ length bs * 256"
    using snoc.IH by (intro mult_right_mono) auto
  finally show ?case by simp
qed simp

lemma unat_of_nat_byte: "unat (of_nat v :: u8) = v mod 256"
  by (simp add: unat_of_nat)

lemma be_value_be_bytes: "be_value (be_bytes n v) = v mod 256 ^ n"
proof (induction n arbitrary: v)
  case (Suc n)
  have "v div 256 mod 256 ^ n * 256 + v mod 256 = v mod (256 * 256 ^ n)"
    by (simp add: mod_mult2_eq)
  then show ?case
    by (simp add: Suc.IH unat_of_nat_byte)
qed simp

lemma be_bytes_be_value [simp]: "be_bytes (length bs) (be_value bs) = bs"
proof (induction bs rule: rev_induct)
  case (snoc b bs)
  have "(be_value bs * 256 + unat b) div 256 = be_value bs"
    using unat_byte_bound [of b] by simp
  moreover have "of_nat (be_value bs * 256 + unat b) = b"
    by (rule word_unat_eq_iff [THEN iffD2])
      (use unat_byte_bound [of b] in \<open>simp add: unat_of_nat_byte del: of_nat_add of_nat_mult\<close>)
  ultimately show ?case
    using snoc.IH by simp
qed simp

text \<open>\<^verbatim>\<open>w.to_be_bytes()\<close> and \<^verbatim>\<open>uN::from_be_bytes(bs)\<close> at any width.\<close>

definition to_be :: "'a::len word \<Rightarrow> bytes" where
  "to_be w = be_bytes (LENGTH('a) div 8) (unat w)"

definition from_be :: "bytes \<Rightarrow> 'a::len word" where
  "from_be bs = of_nat (be_value bs)"

lemma length_to_be [codec_simps]: "length (to_be (w :: 'a::len word)) = LENGTH('a) div 8"
  by (simp add: to_be_def)

lemma length_to_be_word [simp]:
  "length (to_be (w8 :: u8)) = 1"
  "length (to_be (w16 :: u16)) = 2"
  "length (to_be (w32 :: u32)) = 4"
  "length (to_be (w64 :: u64)) = 8"
  by (simp_all add: to_be_def)

lemma power_256_div: "8 dvd n \<Longrightarrow> (256 :: nat) ^ (n div 8) = 2 ^ n"
  by (auto simp: power_mult elim!: dvdE)

lemma from_be_to_be:
  assumes "8 dvd LENGTH('a)"
  shows "from_be (to_be (w :: 'a::len word)) = w"
proof -
  have "(256 :: nat) ^ (LENGTH('a) div 8) = 2 ^ LENGTH('a)"
    using assms by (rule power_256_div)
  then have "be_value (to_be w) = unat w"
    by (simp add: to_be_def be_value_be_bytes unsigned_less)
  then show ?thesis by (simp add: from_be_def)
qed

lemma to_be_from_be:
  assumes "8 dvd LENGTH('a)" and "length bs = LENGTH('a) div 8"
  shows "to_be (from_be bs :: 'a::len word) = bs"
proof -
  have "(256 :: nat) ^ (LENGTH('a) div 8) = 2 ^ LENGTH('a)"
    using assms(1) by (rule power_256_div)
  with be_value_bound [of bs] assms(2) have "be_value bs < 2 ^ LENGTH('a)"
    by simp
  then have "unat (from_be bs :: 'a word) = be_value bs"
    by (simp add: from_be_def unat_of_nat)
  then show ?thesis
    using be_bytes_be_value [of bs] assms(2) by (simp add: to_be_def)
qed

lemma from_be_to_be_word [simp]:
  "from_be (to_be (w8 :: u8)) = w8"
  "from_be (to_be (w16 :: u16)) = w16"
  "from_be (to_be (w32 :: u32)) = w32"
  "from_be (to_be (w64 :: u64)) = w64"
  by (simp_all add: from_be_to_be)

lemma to_be_from_be_word:
  "length bs = 1 \<Longrightarrow> to_be (from_be bs :: u8) = bs"
  "length bs = 2 \<Longrightarrow> to_be (from_be bs :: u16) = bs"
  "length bs = 4 \<Longrightarrow> to_be (from_be bs :: u32) = bs"
  "length bs = 8 \<Longrightarrow> to_be (from_be bs :: u64) = bs"
  by (simp_all add: to_be_from_be)

lemma to_be_u8 [simp]: "to_be (w :: u8) = [w]"
proof -
  have "LENGTH(8) div 8 = Suc 0"
    by simp
  then show ?thesis
    unfolding to_be_def by (simp only: be_bytes.simps append_Nil of_nat_unat ucast_id)
qed

lemma to_be_inject_u64: "to_be (v :: u64) = to_be w \<longleftrightarrow> v = w"
  by (metis from_be_to_be_word(4))

section \<open>The interface of a fixed-width wire format\<close>

text \<open>
  Reading \<open>n\<close> records of width \<open>w\<close> from position \<open>base\<close> of a buffer: the loop
  \<^verbatim>\<open>for n in 0..len { let s = base + n * SIZE; dec(&bytes[s..s + SIZE])? }\<close> that the
  transaction, block and message decoders share.
\<close>

fun decode_seq :: "(bytes \<Rightarrow> 'a res) \<Rightarrow> nat \<Rightarrow> nat \<Rightarrow> nat \<Rightarrow> bytes \<Rightarrow> 'a list res" where
  "decode_seq dec w base 0 bs = Inr []"
| "decode_seq dec w base (Suc n) bs =
     rbind (slice_r base (base + w) bs) (\<lambda>c.
     rbind (dec c) (\<lambda>x.
     rbind (decode_seq dec w (base + w) n bs) (\<lambda>xs. Inr (x # xs))))"

text \<open>
  What a client of a fixed-width format relies on: encodings have the width, decoding an
  encoding gives back the part of the value that travels (\<open>wire\<close>), and an accepted buffer
  is the encoding of what was read.
\<close>

locale fixed_codec =
  fixes enc :: "'a \<Rightarrow> bytes"
    and dec :: "bytes \<Rightarrow> 'a res"
    and width :: nat
    and wf :: "'a \<Rightarrow> bool"
    and wire :: "'a \<Rightarrow> 'a"
  assumes length_enc: "wf x \<Longrightarrow> length (enc x) = width"
    and dec_enc: "wf x \<Longrightarrow> dec (enc x) = Inr (wire x)"
    and enc_dec: "length bs = width \<Longrightarrow> dec bs = Inr x \<Longrightarrow> enc x = bs"
    and wf_dec: "length bs = width \<Longrightarrow> dec bs = Inr x \<Longrightarrow> wf x"
begin

lemma length_concat_enc: "list_all wf xs \<Longrightarrow> length (concat (map enc xs)) = width * length xs"
  by (induction xs) (auto simp: length_enc)

lemma decode_seq_concat:
  "list_all wf xs \<Longrightarrow> length pre = base \<Longrightarrow>
   decode_seq dec width base (length xs) (pre @ concat (map enc xs) @ post) = Inr (map wire xs)"
proof (induction xs arbitrary: pre base)
  case (Cons x xs)
  let ?buf = "pre @ concat (map enc (x # xs)) @ post"
  have "slice_r base (base + width) ?buf = Inr (enc x)"
    using Cons.prems by (auto simp: slice_r_def subslice_def length_enc)
  moreover have "decode_seq dec width (base + width) (length xs)
      ((pre @ enc x) @ concat (map enc xs) @ post) = Inr (map wire xs)"
    using Cons.prems by (intro Cons.IH) (auto simp: length_enc)
  ultimately show ?case
    using Cons.prems by (simp add: dec_enc)
qed simp

lemma decode_seq_inv:
  "decode_seq dec width base n bs = Inr xs \<Longrightarrow> base \<le> length bs \<Longrightarrow>
   length xs = n \<and> list_all wf xs \<and> base + width * n \<le> length bs \<and>
   subslice base (base + width * n) bs = concat (map enc xs)"
proof (induction n arbitrary: base xs)
  case 0
  then show ?case by (simp add: subslice_def)
next
  case (Suc n)
  then obtain c x ys where c: "slice_r base (base + width) bs = Inr c" and x: "dec c = Inr x"
    and ys: "decode_seq dec width (base + width) n bs = Inr ys" and xs: "xs = x # ys"
    by auto
  from c have bound: "base + width \<le> length bs" and cs: "c = subslice base (base + width) bs"
    by (auto simp: slice_r_def split: if_splits)
  then have len: "length c = width" by simp
  note IH = Suc.IH [OF ys bound]
  have "subslice base (base + width * Suc n) bs
      = subslice base (base + width) bs @ subslice (base + width) (base + width + width * n) bs"
    by (subst slice_cat) (simp_all add: add.assoc)
  then show ?case
    using IH enc_dec [OF len x] wf_dec [OF len x] xs cs by (simp add: add.assoc)
qed

text \<open>In a buffer that is long enough the loop panics only if a record does.\<close>

lemma decode_seq_no_panic:
  "(\<And>c. length c = width \<Longrightarrow> dec c \<noteq> Inl Panic) \<Longrightarrow> base + width * n \<le> length bs \<Longrightarrow>
   decode_seq dec width base n bs \<noteq> Inl Panic"
proof (induction n arbitrary: base)
  case (Suc n)
  then have "slice_r base (base + width) bs = Inr (subslice base (base + width) bs)"
    and "length (subslice base (base + width) bs) = width"
    by (simp_all add: slice_r_def)
  moreover have "decode_seq dec width (base + width) n bs \<noteq> Inl Panic"
    using Suc.prems by (intro Suc.IH) (simp_all add: add.assoc)
  ultimately show ?case
    using Suc.prems(1) [of "subslice base (base + width) bs"]
    by (cases "dec (subslice base (base + width) bs)";
        cases "decode_seq dec width (base + width) n bs") auto
qed simp

text \<open>On a prefix of a buffer of encodings the loop succeeds or panics, never anything else.\<close>

lemma decode_seq_prefix:
  "list_all wf xs \<Longrightarrow> length pre = base \<Longrightarrow> base \<le> n \<Longrightarrow>
   decode_seq dec width base (length xs) (take n (pre @ concat (map enc xs) @ post)) =
     (if base + width * length xs \<le> n \<or> n \<ge> length (pre @ concat (map enc xs) @ post)
      then Inr (map wire xs) else Inl Panic)"
proof (induction xs arbitrary: pre base)
  case (Cons x xs)
  let ?buf = "pre @ concat (map enc (x # xs)) @ post"
  have buf: "?buf = (pre @ enc x) @ concat (map enc xs) @ post" by simp
  have lx: "length (enc x) = width" using Cons.prems by (simp add: length_enc)
  have lxs: "length (concat (map enc xs)) = width * length xs"
    using Cons.prems by (simp add: length_concat_enc)
  show ?case
  proof (cases "base + width \<le> n")
    case True
    then have "slice_r base (base + width) (take n ?buf) = Inr (enc x)"
      using Cons.prems lx by (auto simp: slice_r_def subslice_def min_def)
    moreover have "decode_seq dec width (base + width) (length xs) (take n ?buf) =
        (if base + width + width * length xs \<le> n \<or> n \<ge> length ?buf
         then Inr (map wire xs) else Inl Panic)"
      unfolding buf using Cons.prems True lx by (intro Cons.IH) auto
    ultimately show ?thesis
      using Cons.prems by (simp add: dec_enc add.assoc)
  next
    case False
    then have "slice_r base (base + width) (take n ?buf) = Inl Panic"
      using Cons.prems by (auto simp: slice_r_def)
    moreover have "n < length ?buf" "n < base + width * length (x # xs)"
      using False Cons.prems lx by auto
    ultimately show ?thesis by auto
  qed
qed simp

end

text \<open>A format that rejects the wrong length itself, so that its decoder is total on buffers.\<close>

locale checked_codec = fixed_codec +
  assumes dec_length: "dec bs = Inr x \<Longrightarrow> length bs = width"
begin

lemma dec_iff_enc: "(\<exists>x. dec bs = Inr x) \<longleftrightarrow> (\<exists>x. wf x \<and> bs = enc x)"
  by (metis dec_enc dec_length enc_dec wf_dec)

lemma dec_inject: "dec bs = Inr x \<Longrightarrow> dec bs' = Inr x \<Longrightarrow> bs = bs'"
  by (metis dec_length enc_dec)

end

section \<open>The interface of a reversible operation on a state\<close>

text \<open>
  Blocks are wound onto the ledger and unwound from it. What the reorganisation relies on: an
  operation that was admissible is undone exactly by its inverse. Then a whole branch unwound
  in reverse order leaves the state as it was.
\<close>

fun run_ok :: "('a \<Rightarrow> 's \<Rightarrow> 's) \<Rightarrow> ('a \<Rightarrow> 's \<Rightarrow> bool) \<Rightarrow> 'a list \<Rightarrow> 's \<Rightarrow> bool" where
  "run_ok wind ok [] s = True"
| "run_ok wind ok (x # xs) s = (ok x s \<and> run_ok wind ok xs (wind x s))"

locale reversible =
  fixes wind :: "'a \<Rightarrow> 's \<Rightarrow> 's"
    and unwind :: "'a \<Rightarrow> 's \<Rightarrow> 's"
    and ok :: "'a \<Rightarrow> 's \<Rightarrow> bool"
  assumes unwind_wind: "ok x s \<Longrightarrow> unwind x (wind x s) = s"
begin

lemma unwind_wind_run:
  "run_ok wind ok xs s \<Longrightarrow> fold unwind (rev xs) (fold wind xs s) = s"
  by (induction xs arbitrary: s) (auto simp: unwind_wind)

lemma run_ok_append:
  "run_ok wind ok (xs @ ys) s \<longleftrightarrow> run_ok wind ok xs s \<and> run_ok wind ok ys (fold wind xs s)"
  by (induction xs arbitrary: s) auto

end

section \<open>Saturating and wrapping arithmetic\<close>

definition saturating_sub :: "'a::len word \<Rightarrow> 'a word \<Rightarrow> 'a word" where
  "saturating_sub a b = (if a < b then 0 else a - b)"

lemma unat_u64_bound: "unat (w :: u64) < 2 ^ 64"
  using unsigned_less [of w, where ?'a = nat] by simp

lemma be_value_to_be_u64: "be_value (to_be (w :: u64)) = unat w"
  using unat_u64_bound [of w] by (simp add: to_be_def be_value_be_bytes)

lemma unat_u32_bound: "unat (w :: u32) < 2 ^ 32"
  using unsigned_less [of w, where ?'a = nat] by simp

lemma unat_saturating_sub: "unat (saturating_sub a b) = unat a - unat b"
  by (auto simp: saturating_sub_def unat_sub word_less_nat_alt word_le_nat_alt)

text \<open>\<^verbatim>\<open>iter().sum::<u64>()\<close> wraps; it is the true sum when that fits.\<close>

lemma unat_sum_list_u64:
  "sum_list (map unat ws) < 2 ^ 64 \<Longrightarrow> unat (sum_list (ws :: u64 list)) = sum_list (map unat ws)"
proof (induction ws)
  case (Cons w ws)
  then show ?case by (simp add: unat_word_ariths)
qed simp

lemma unat_sum_list_u64_mod:
  "unat (sum_list (ws :: u64 list)) = sum_list (map unat ws) mod 2 ^ 64"
  by (induction ws) (simp_all add: unat_word_ariths mod_add_right_eq)

end
