(* ===== verification/Block_Ring.thy ===== *)
theory Block_Ring
  imports Saito_Prelude
begin

text \<open>
  The index of block ids and hashes (\<^verbatim>\<open>consensus/ringitem.rs\<close>, \<^verbatim>\<open>consensus/blockring.rs\<close>):
  a vector of \<open>2 * genesis_period\<close> slots, slot \<open>id mod size\<close> holding every known block with
  that id and the position of the one on the longest chain. The interface \<open>chain_index\<close>
  states what the reorganisation code relies on; the ring is shown to provide it.
\<close>

section \<open>One slot\<close>

record RingItem =
  ri_lc_pos :: "nat option"
  ri_block_hashes :: "bytes list"
  ri_block_ids :: "u64 list"

definition ri_default :: RingItem where
  "ri_default = \<lparr>ri_lc_pos = None, ri_block_hashes = [], ri_block_ids = []\<rparr>"

definition ri_add_block :: "u64 \<Rightarrow> bytes \<Rightarrow> RingItem \<Rightarrow> RingItem" where
  "ri_add_block block_id h it =
     it\<lparr>ri_block_hashes := ri_block_hashes it @ [h], ri_block_ids := ri_block_ids it @ [block_id]\<rparr>"

definition ri_contains_block_hash :: "bytes \<Rightarrow> RingItem \<Rightarrow> bool" where
  "ri_contains_block_hash h it = list_ex (\<lambda>i. i = h) (ri_block_hashes it)"

text \<open>The loop of \<^verbatim>\<open>delete_block\<close> over the remaining indices.\<close>

fun ri_delete_loop :: "u64 \<Rightarrow> bytes \<Rightarrow> RingItem \<Rightarrow> nat list \<Rightarrow> bytes list \<Rightarrow> u64 list \<Rightarrow> nat \<Rightarrow>
  nat option \<Rightarrow> RingItem res" where
  "ri_delete_loop block_id h it [] new_hashes new_ids index_loop new_lc_pos =
     Inr \<lparr>ri_lc_pos = new_lc_pos, ri_block_hashes = new_hashes, ri_block_ids = new_ids\<rparr>"
| "ri_delete_loop block_id h it (i # is) new_hashes new_ids index_loop new_lc_pos =
     rbind (index_r (ri_block_ids it) i) (\<lambda>bid.
     rbind (index_r (ri_block_hashes it) i) (\<lambda>bh.
       if bid = block_id \<and> bh = h
       then ri_delete_loop block_id h it is new_hashes new_ids index_loop new_lc_pos
       else ri_delete_loop block_id h it is (new_hashes @ [bh]) (new_ids @ [bid]) (index_loop + 1)
         (if ri_lc_pos it = Some i then Some index_loop else new_lc_pos)))"

definition ri_delete_block :: "u64 \<Rightarrow> bytes \<Rightarrow> RingItem \<Rightarrow> RingItem res" where
  "ri_delete_block block_id h it =
     ri_delete_loop block_id h it [0..<length (ri_block_ids it)] [] [] 0 (Some 0)"

text \<open>\<^verbatim>\<open>iter().position(...)\<close>\<close>

fun position :: "('a \<Rightarrow> bool) \<Rightarrow> 'a list \<Rightarrow> nat option" where
  "position P [] = None"
| "position P (x # xs) = (if P x then Some 0 else map_option Suc (position P xs))"

definition ri_on_chain_reorganization :: "bytes \<Rightarrow> bool \<Rightarrow> RingItem \<Rightarrow> RingItem" where
  "ri_on_chain_reorganization h lc it =
     (if \<not> lc then it\<lparr>ri_lc_pos := None\<rparr>
      else it\<lparr>ri_lc_pos := position (\<lambda>b. b = h) (ri_block_hashes it)\<rparr>)"

section \<open>The ring\<close>

record BlockRing =
  br_ring :: "RingItem list"
  br_lc_pos :: "nat option"
  br_empty :: bool
  br_genesis_period :: u64

definition br_new :: "u64 \<Rightarrow> BlockRing" where
  "br_new genesis_period =
     \<lparr>br_ring = replicate (unat (genesis_period * 2)) ri_default, br_lc_pos = None,
      br_empty = True, br_genesis_period = genesis_period\<rparr>"

definition br_get_ring_buffer_size :: "BlockRing \<Rightarrow> u64" where
  "br_get_ring_buffer_size br = br_genesis_period br * 2"

text \<open>\<^verbatim>\<open>block_id % self.get_ring_buffer_size()\<close>: a zero size is a panic.\<close>

definition br_insert_pos :: "BlockRing \<Rightarrow> u64 \<Rightarrow> nat res" where
  "br_insert_pos br block_id =
     (if br_get_ring_buffer_size br = 0 then Inl Panic
      else Inr (unat (block_id mod br_get_ring_buffer_size br)))"

definition br_item :: "BlockRing \<Rightarrow> u64 \<Rightarrow> (nat \<times> RingItem) res" where
  "br_item br block_id =
     rbind (br_insert_pos br block_id) (\<lambda>pos.
     rbind (index_r (br_ring br) pos) (\<lambda>it. Inr (pos, it)))"

definition br_add_block :: "u64 \<Rightarrow> bytes \<Rightarrow> BlockRing \<Rightarrow> BlockRing res" where
  "br_add_block block_id h br =
     rbind (br_item br block_id) (\<lambda>(pos, it).
       Inr (br\<lparr>br_ring := (br_ring br)[pos := ri_add_block block_id h it]\<rparr>))"

definition br_contains_block_hash_at_block_id :: "u64 \<Rightarrow> bytes \<Rightarrow> BlockRing \<Rightarrow> bool res" where
  "br_contains_block_hash_at_block_id block_id h br =
     rbind (br_item br block_id) (\<lambda>(pos, it). Inr (ri_contains_block_hash h it))"

definition br_get_latest_block_hash :: "BlockRing \<Rightarrow> bytes res" where
  "br_get_latest_block_hash br =
     (case br_lc_pos br of
        Some lc_pos_block_ring \<Rightarrow>
          rbind (index_r (br_ring br) lc_pos_block_ring) (\<lambda>it.
            case ri_lc_pos it of
              Some lc_pos_block_item \<Rightarrow> index_r (ri_block_hashes it) lc_pos_block_item
            | None \<Rightarrow> Inr (replicate 32 0))
      | None \<Rightarrow> Inr (replicate 32 0))"

definition br_get_latest_block_id :: "BlockRing \<Rightarrow> u64 res" where
  "br_get_latest_block_id br =
     (case br_lc_pos br of
        Some lc_pos_block_ring \<Rightarrow>
          rbind (index_r (br_ring br) lc_pos_block_ring) (\<lambda>it.
            case ri_lc_pos it of
              Some lc_pos_block_item \<Rightarrow> index_r (ri_block_ids it) lc_pos_block_item
            | None \<Rightarrow> Inr 0)
      | None \<Rightarrow> Inr 0)"

text \<open>\<^verbatim>\<open>v.get(i)\<close>\<close>

definition get_opt :: "'a list \<Rightarrow> nat \<Rightarrow> 'a option" where
  "get_opt xs i = (if i < length xs then Some (xs ! i) else None)"

definition br_get_longest_chain_block_hash_at_block_id ::
  "u64 \<Rightarrow> BlockRing \<Rightarrow> bytes option res" where
  "br_get_longest_chain_block_hash_at_block_id block_id br =
     rbind (br_item br block_id) (\<lambda>(pos, it).
       Inr (case ri_lc_pos it of
         Some lc_pos \<Rightarrow>
           (case get_opt (ri_block_ids it) lc_pos of
              None \<Rightarrow> None
            | Some item_id \<Rightarrow>
                if item_id \<noteq> block_id then None else get_opt (ri_block_hashes it) lc_pos)
       | None \<Rightarrow> None))"

definition br_is_block_hash_at_block_id :: "u64 \<Rightarrow> bytes \<Rightarrow> BlockRing \<Rightarrow> bool res" where
  "br_is_block_hash_at_block_id block_id h br =
     rbind (br_item br block_id) (\<lambda>(pos, it). Inr (list_ex (\<lambda>b. b = h) (ri_block_hashes it)))"

definition br_is_empty :: "BlockRing \<Rightarrow> bool" where
  "br_is_empty br = br_empty br"

definition br_delete_block :: "u64 \<Rightarrow> bytes \<Rightarrow> BlockRing \<Rightarrow> BlockRing res" where
  "br_delete_block block_id h br =
     rbind (br_item br block_id) (\<lambda>(pos, it).
     rbind (ri_delete_block block_id h it) (\<lambda>it'.
       Inr (br\<lparr>br_ring := (br_ring br)[pos := it']\<rparr>)))"

fun hashes_at_loop :: "RingItem \<Rightarrow> u64 \<Rightarrow> nat list \<Rightarrow> bytes list res" where
  "hashes_at_loop it block_id [] = Inr []"
| "hashes_at_loop it block_id (i # is) =
     rbind (index_r (ri_block_ids it) i) (\<lambda>bid.
       if bid = block_id
       then rbind (index_r (ri_block_hashes it) i) (\<lambda>h.
            rbind (hashes_at_loop it block_id is) (\<lambda>v. Inr (h # v)))
       else hashes_at_loop it block_id is)"

definition br_get_block_hashes_at_block_id :: "u64 \<Rightarrow> BlockRing \<Rightarrow> bytes list res" where
  "br_get_block_hashes_at_block_id block_id br =
     rbind (br_item br block_id) (\<lambda>(pos, it).
       hashes_at_loop it block_id [0..<length (ri_block_hashes it)])"

definition br_get_block_hash_by_block_id :: "u64 \<Rightarrow> BlockRing \<Rightarrow> bytes option res" where
  "br_get_block_hash_by_block_id block_id br =
     rbind (br_item br block_id) (\<lambda>(pos, it).
       case position (\<lambda>i. i = block_id) (ri_block_ids it) of
         None \<Rightarrow> Inr None
       | Some p \<Rightarrow> rbind (index_r (ri_block_hashes it) p) (\<lambda>h. Inr (Some h)))"

text \<open>
  When the tip is unset the ring falls back to the previous slot, if the longest-chain block
  recorded there has the preceding id.
\<close>

definition br_previous_tip :: "BlockRing \<Rightarrow> u64 \<Rightarrow> nat \<Rightarrow> nat option res" where
  "br_previous_tip br block_id lc_pos =
     (let previous_block_index =
        (if lc_pos > 0 then lc_pos - 1 else unat (br_get_ring_buffer_size br) - 1) in
      rbind (index_r (br_ring br) previous_block_index) (\<lambda>it.
        Inr (case ri_lc_pos it of
          Some p \<Rightarrow>
            if length (ri_block_ids it) > p \<and> ri_block_ids it ! p = block_id - 1
            then Some previous_block_index else None
        | None \<Rightarrow> None)))"

definition br_on_chain_reorganization ::
  "u64 \<Rightarrow> bytes \<Rightarrow> bool \<Rightarrow> BlockRing \<Rightarrow> BlockRing res" where
  "br_on_chain_reorganization block_id h lc br =
     rbind (br_item br block_id) (\<lambda>(pos, it).
       let br1 = br\<lparr>br_ring := (br_ring br)[pos := ri_on_chain_reorganization h lc it]\<rparr> in
       if lc then Inr (br1\<lparr>br_lc_pos := Some pos\<rparr>)
       else case br_lc_pos br1 of
         Some lc_pos \<Rightarrow>
           if lc_pos = pos
           then rbind (br_previous_tip br1 block_id lc_pos) (\<lambda>lc'. Inr (br1\<lparr>br_lc_pos := lc'\<rparr>))
           else Inr br1
       | None \<Rightarrow> Inr br1)"

section \<open>Invariant\<close>

definition ri_wf :: "RingItem \<Rightarrow> bool" where
  "ri_wf it \<longleftrightarrow> length (ri_block_hashes it) = length (ri_block_ids it)"

definition slot_of :: "BlockRing \<Rightarrow> u64 \<Rightarrow> nat" where
  "slot_of br block_id = unat (block_id mod br_get_ring_buffer_size br)"

definition br_wf :: "BlockRing \<Rightarrow> bool" where
  "br_wf br \<longleftrightarrow> br_get_ring_buffer_size br \<noteq> 0 \<and>
     length (br_ring br) = unat (br_get_ring_buffer_size br) \<and>
     (\<forall>pos < length (br_ring br). ri_wf (br_ring br ! pos) \<and>
        (\<forall>bid \<in> set (ri_block_ids (br_ring br ! pos)). slot_of br bid = pos))"

definition item_at :: "BlockRing \<Rightarrow> u64 \<Rightarrow> RingItem" where
  "item_at br block_id = br_ring br ! slot_of br block_id"

lemma slot_of_bound: "br_wf br \<Longrightarrow> slot_of br block_id < length (br_ring br)"
  by (simp add: br_wf_def slot_of_def unat_mod) (metis mod_less_divisor unat_gt_0)

lemma br_item_Inr: "br_wf br \<Longrightarrow> br_item br block_id = Inr (slot_of br block_id, item_at br block_id)"
  using slot_of_bound [of br block_id]
  by (simp add: br_item_def br_insert_pos_def index_r_def br_wf_def slot_of_def item_at_def)

lemma ring_size_update [simp]:
  "br_get_ring_buffer_size (br\<lparr>br_ring := r\<rparr>) = br_get_ring_buffer_size br"
  "br_get_ring_buffer_size (br\<lparr>br_lc_pos := p\<rparr>) = br_get_ring_buffer_size br"
  by (simp_all add: br_get_ring_buffer_size_def)

lemma slot_of_update [simp]:
  "slot_of (br\<lparr>br_ring := r\<rparr>) = slot_of br"
  "slot_of (br\<lparr>br_lc_pos := p\<rparr>) = slot_of br"
  by (simp_all add: slot_of_def fun_eq_iff)

lemma lc_pos_update [simp]:
  "br_wf (br\<lparr>br_lc_pos := p\<rparr>) = br_wf br"
  "item_at (br\<lparr>br_lc_pos := p\<rparr>) = item_at br"
  by (simp_all add: br_wf_def item_at_def fun_eq_iff)

lemma item_at_update:
  "br_wf br \<Longrightarrow> item_at (br\<lparr>br_ring := (br_ring br)[slot_of br i := it]\<rparr>) j =
     (if slot_of br i = slot_of br j then it else item_at br j)"
  using slot_of_bound [of br] by (simp add: item_at_def)

lemma br_wf_update:
  assumes "br_wf br" and "ri_wf it"
    and "\<And>bid. bid \<in> set (ri_block_ids it) \<Longrightarrow> slot_of br bid = slot_of br i"
  shows "br_wf (br\<lparr>br_ring := (br_ring br)[slot_of br i := it]\<rparr>)"
  using assms slot_of_bound [OF assms(1), of i]
  by (auto simp: br_wf_def nth_list_update split: if_splits)

lemma br_wf_item:
  assumes "br_wf br"
  shows "ri_wf (item_at br i)"
    and "bid \<in> set (ri_block_ids (item_at br i)) \<Longrightarrow> slot_of br bid = slot_of br i"
  using assms slot_of_bound [OF assms, of i] by (auto simp: br_wf_def item_at_def)

lemma br_wf_new: "gp * 2 \<noteq> 0 \<Longrightarrow> br_wf (br_new gp)"
  by (simp add: br_wf_def br_new_def br_get_ring_buffer_size_def ri_default_def ri_wf_def)

lemma br_add_block_Inr:
  assumes "br_wf br"
  shows "\<exists>br'. br_add_block i h br = Inr br' \<and> br_wf br' \<and>
    item_at br' j = (if slot_of br i = slot_of br j then ri_add_block i h (item_at br i)
                     else item_at br j)"
proof -
  let ?br = "br\<lparr>br_ring := (br_ring br)[slot_of br i := ri_add_block i h (item_at br i)]\<rparr>"
  have "br_add_block i h br = Inr ?br"
    using assms by (simp add: br_add_block_def br_item_Inr)
  moreover have "br_wf ?br"
    using assms br_wf_item [OF assms, where i = i]
    by (intro br_wf_update) (auto simp: ri_add_block_def ri_wf_def)
  ultimately show ?thesis
    using item_at_update [OF assms] by auto
qed

section \<open>Deleting a block\<close>

lemma ri_delete_loop_eq:
  assumes "ri_wf it"
  shows "is = [k..<length (ri_block_ids it)] \<Longrightarrow> k \<le> length (ri_block_ids it) \<Longrightarrow>
    \<exists>lc. ri_delete_loop i h it is hs bids n lc0 = Inr \<lparr>ri_lc_pos = lc,
      ri_block_hashes = hs @ map snd (filter (\<lambda>b. b \<noteq> (i, h))
        (zip (drop k (ri_block_ids it)) (drop k (ri_block_hashes it)))),
      ri_block_ids = bids @ map fst (filter (\<lambda>b. b \<noteq> (i, h))
        (zip (drop k (ri_block_ids it)) (drop k (ri_block_hashes it))))\<rparr> \<and>
      (ri_lc_pos it = None \<longrightarrow> lc = lc0)"
proof (induction "is" arbitrary: k hs bids n lc0)
  case Nil
  then have "k = length (ri_block_ids it)" by (auto simp: upt_eq_Nil_conv dest!: sym [of "[]"])
  then show ?case by simp
next
  case (Cons x xs)
  then have k: "k < length (ri_block_ids it)" "x = k" "xs = [Suc k..<length (ri_block_ids it)]"
    using upt_eq_Cons_conv [of k "length (ri_block_ids it)" x xs] by auto
  with assms have "k < length (ri_block_hashes it)" by (simp add: ri_wf_def)
  then have zip: "zip (drop k (ri_block_ids it)) (drop k (ri_block_hashes it)) =
      (ri_block_ids it ! k, ri_block_hashes it ! k) #
      zip (drop (Suc k) (ri_block_ids it)) (drop (Suc k) (ri_block_hashes it))"
    and acc: "index_r (ri_block_ids it) k = Inr (ri_block_ids it ! k)"
      "index_r (ri_block_hashes it) k = Inr (ri_block_hashes it ! k)"
    using k(1) by (simp_all add: Cons_nth_drop_Suc [symmetric] index_r_def)
  show ?case
    using k acc Cons.IH [of "Suc k" hs bids n lc0]
      Cons.IH [of "Suc k" "hs @ [ri_block_hashes it ! k]" "bids @ [ri_block_ids it ! k]" "Suc n"
        "if ri_lc_pos it = Some k then Some n else lc0"]
    by (auto simp: zip)
qed

text \<open>The blocks recorded in a slot, with their ids.\<close>

definition ri_entries :: "RingItem \<Rightarrow> (u64 \<times> bytes) list" where
  "ri_entries it = zip (ri_block_ids it) (ri_block_hashes it)"

lemma ri_delete_block_eq:
  assumes "ri_wf it"
  shows "\<exists>it'. ri_delete_block i h it = Inr it' \<and> ri_wf it' \<and>
    ri_entries it' = filter (\<lambda>b. b \<noteq> (i, h)) (ri_entries it) \<and>
    (ri_lc_pos it = None \<longrightarrow> ri_lc_pos it' = Some 0)"
  using ri_delete_loop_eq [OF assms, of _ 0 i h "[]" "[]" 0 "Some 0"]
  by (fastforce simp: ri_delete_block_def ri_entries_def ri_wf_def zip_map_fst_snd)

lemma ri_ids_entries: "ri_wf it \<Longrightarrow> set (ri_block_ids it) = fst ` set (ri_entries it)"
  unfolding ri_wf_def ri_entries_def by (metis list.set_map map_fst_zip)

lemma br_delete_block_Inr:
  assumes "br_wf br"
  shows "\<exists>br'. br_delete_block i h br = Inr br' \<and> br_wf br' \<and> br_lc_pos br' = br_lc_pos br \<and>
    (\<forall>j. ri_entries (item_at br' j) = filter (\<lambda>b. b \<noteq> (i, h)) (ri_entries (item_at br j))) \<and>
    (ri_lc_pos (item_at br i) = None \<longrightarrow> ri_lc_pos (item_at br' i) = Some 0)"
proof -
  let ?it = "item_at br i"
  obtain it' where it': "ri_delete_block i h ?it = Inr it'" "ri_wf it'"
    "ri_entries it' = filter (\<lambda>b. b \<noteq> (i, h)) (ri_entries ?it)"
    "ri_lc_pos ?it = None \<longrightarrow> ri_lc_pos it' = Some 0"
    using ri_delete_block_eq [OF br_wf_item(1) [OF assms]] by blast
  let ?br = "br\<lparr>br_ring := (br_ring br)[slot_of br i := it']\<rparr>"
  have "set (ri_block_ids it') \<subseteq> set (ri_block_ids ?it)"
    using it'(2,3) br_wf_item(1) [OF assms, of i] by (auto simp: ri_ids_entries)
  then have "br_wf ?br"
    using br_wf_item(2) [OF assms] by (intro br_wf_update assms it'(2)) auto
  moreover have "ri_entries (item_at ?br j) = filter (\<lambda>b. b \<noteq> (i, h)) (ri_entries (item_at br j))"
    for j
  proof (cases "slot_of br i = slot_of br j")
    case True
    then have "item_at br j = ?it" by (simp add: item_at_def)
    with True it'(3) show ?thesis by (simp add: item_at_update [OF assms])
  next
    case False
    then have "(i, h) \<notin> set (ri_entries (item_at br j))"
      using br_wf_item [OF assms, where i = j] by (force simp: ri_ids_entries)
    then have "filter (\<lambda>b. b \<noteq> (i, h)) (ri_entries (item_at br j)) = ri_entries (item_at br j)"
      by (intro filter_True) blast
    with False show ?thesis by (simp add: item_at_update [OF assms])
  qed
  moreover have "br_delete_block i h br = Inr ?br"
    using assms it'(1) by (simp add: br_delete_block_def br_item_Inr)
  ultimately show ?thesis
    using it'(4) item_at_update [OF assms, of i it' i] by auto
qed

section \<open>What the reorganisation of the chain relies on\<close>

text \<open>
  A chain index records the longest-chain block at each id and the latest one. Setting and
  unsetting blocks does not change which blocks are known; it is seen at the block's own slot
  only; unsetting the latest block falls back to the preceding one when that is set.
\<close>

locale chain_index =
  fixes inv :: "'s \<Rightarrow> bool"
    and same_slot :: "'s \<Rightarrow> u64 \<Rightarrow> u64 \<Rightarrow> bool"
    and stored :: "'s \<Rightarrow> u64 \<Rightarrow> bytes \<Rightarrow> bool"
    and reorg :: "u64 \<Rightarrow> bytes \<Rightarrow> bool \<Rightarrow> 's \<Rightarrow> 's res"
    and lc_at :: "u64 \<Rightarrow> 's \<Rightarrow> bytes option res"
    and latest :: "'s \<Rightarrow> (u64 \<times> bytes) res"
  assumes reorg_ok: "inv s \<Longrightarrow> \<exists>s'. reorg i h lc s = Inr s' \<and> inv s' \<and>
      stored s' = stored s \<and> same_slot s' = same_slot s"
    and lc_at_set: "inv s \<Longrightarrow> stored s i h \<Longrightarrow> reorg i h True s = Inr s' \<Longrightarrow>
      lc_at i s' = Inr (Some h)"
    and lc_at_unset: "inv s \<Longrightarrow> reorg i h False s = Inr s' \<Longrightarrow> lc_at i s' = Inr None"
    and lc_at_other: "inv s \<Longrightarrow> reorg i h lc s = Inr s' \<Longrightarrow> \<not> same_slot s i j \<Longrightarrow>
      lc_at j s' = lc_at j s"
    and latest_set: "inv s \<Longrightarrow> stored s i h \<Longrightarrow> reorg i h True s = Inr s' \<Longrightarrow>
      latest s' = Inr (i, h)"
    and latest_unset: "inv s \<Longrightarrow> i \<noteq> 0 \<Longrightarrow> latest s = Inr (i, h) \<Longrightarrow> lc_at i s = Inr (Some h) \<Longrightarrow>
      lc_at (i - 1) s = Inr (Some g) \<Longrightarrow> \<not> same_slot s i (i - 1) \<Longrightarrow>
      reorg i h False s = Inr s' \<Longrightarrow> latest s' = Inr (i - 1, g)"

text \<open>Winding and unwinding a list of blocks: the ring's part of \<^verbatim>\<open>wind_chain\<close>/\<^verbatim>\<open>unwind_chain\<close>.\<close>

fun reorg_run :: "(u64 \<Rightarrow> bytes \<Rightarrow> bool \<Rightarrow> 's \<Rightarrow> 's res) \<Rightarrow> bool \<Rightarrow> (u64 \<times> bytes) list \<Rightarrow> 's \<Rightarrow>
  's res" where
  "reorg_run reorg lc [] s = Inr s"
| "reorg_run reorg lc ((i, h) # bs) s = rbind (reorg i h lc s) (reorg_run reorg lc bs)"

fun consecutive :: "(u64 \<times> bytes) list \<Rightarrow> bool" where
  "consecutive (b # c # bs) = (fst b = fst c - 1 \<and> consecutive (c # bs))"
| "consecutive bs = True"

lemma consecutive_append:
  "consecutive (xs @ [b, c]) \<longleftrightarrow> consecutive (xs @ [b]) \<and> fst b = fst c - 1"
  by (induction xs rule: consecutive.induct) auto

lemma reorg_run_snoc:
  "reorg_run reorg lc (bs @ [(i, h)]) s = rbind (reorg_run reorg lc bs s) (reorg i h lc)"
proof (induction bs arbitrary: s)
  case Nil
  show ?case by (cases "reorg i h lc s") auto
next
  case (Cons b bs)
  then show ?case by (cases b) (auto simp: rbind_assoc intro!: rbind_cong)
qed

definition apart :: "(u64 \<Rightarrow> u64 \<Rightarrow> bool) \<Rightarrow> (u64 \<times> bytes) list \<Rightarrow> bool" where
  "apart same bs \<longleftrightarrow>
     sorted_wrt (\<lambda>b c. \<not> same (fst b) (fst c) \<and> \<not> same (fst c) (fst b)) bs"

definition lc_all ::
  "(u64 \<Rightarrow> 's \<Rightarrow> bytes option res) \<Rightarrow> 's \<Rightarrow> (u64 \<times> bytes) list \<Rightarrow> bool" where
  "lc_all lc_at s bs \<longleftrightarrow> list_all (\<lambda>(i, h). lc_at i s = Inr (Some h)) bs"

context chain_index
begin

lemma lc_all_other:
  assumes "inv s" and "reorg i h lc s = Inr s'" and "\<forall>c \<in> set bs. \<not> same_slot s i (fst c)"
    and "lc_all lc_at s bs"
  shows "lc_all lc_at s' bs"
  using assms(3,4) lc_at_other [OF assms(1,2)] by (fastforce simp: lc_all_def list_all_iff)

lemma run_other:
  "inv s \<Longrightarrow> \<forall>c \<in> set bs. \<not> same_slot s (fst c) j \<Longrightarrow> reorg_run reorg lc bs s = Inr s' \<Longrightarrow>
   lc_at j s' = lc_at j s"
proof (induction bs arbitrary: s)
  case (Cons b bs)
  obtain i h where b: "b = (i, h)" by fastforce
  obtain s1 where s1: "reorg i h lc s = Inr s1" "inv s1" "same_slot s1 = same_slot s"
    using reorg_ok [OF Cons.prems(1)] by blast
  with Cons b have "lc_at j s' = lc_at j s1" by (intro Cons.IH) auto
  then show ?case
    using lc_at_other [OF Cons.prems(1) s1(1)] Cons.prems(2) b by simp
qed simp

lemma wind_run:
  "inv s \<Longrightarrow> apart (same_slot s) bs \<Longrightarrow> list_all (\<lambda>(i, h). stored s i h) bs \<Longrightarrow>
   \<exists>s'. reorg_run reorg True bs s = Inr s' \<and> inv s' \<and> same_slot s' = same_slot s \<and>
     stored s' = stored s \<and> lc_all lc_at s' bs \<and> (bs \<noteq> [] \<longrightarrow> latest s' = Inr (last bs))"
proof (induction bs rule: rev_induct)
  case Nil
  then show ?case by (simp add: lc_all_def)
next
  case (snoc b bs)
  obtain i h where b: "b = (i, h)" by fastforce
  have "apart (same_slot s) bs" and far: "\<forall>c \<in> set bs. \<not> same_slot s i (fst c)"
    using snoc.prems(2) b by (auto simp: apart_def sorted_wrt_append)
  then obtain s1 where s1: "reorg_run reorg True bs s = Inr s1" "inv s1"
    "same_slot s1 = same_slot s" "stored s1 = stored s" "lc_all lc_at s1 bs"
    using snoc.IH snoc.prems by auto
  obtain s2 where s2: "reorg i h True s1 = Inr s2" "inv s2" "stored s2 = stored s1"
    "same_slot s2 = same_slot s1"
    using reorg_ok [OF s1(2)] by blast
  have "stored s1 i h" using snoc.prems(3) b s1(4) by simp
  then have "latest s2 = Inr (i, h)" "lc_at i s2 = Inr (Some h)"
    using latest_set [OF s1(2) _ s2(1)] lc_at_set [OF s1(2) _ s2(1)] by auto
  then show ?case
    using lc_all_other [OF s1(2) s2(1) _ s1(5)] far s1 s2
    by (auto simp: b reorg_run_snoc lc_all_def)
qed

lemma unwind_run:
  "inv s \<Longrightarrow> apart (same_slot s) (bs @ cs) \<Longrightarrow> consecutive (bs @ cs) \<Longrightarrow> bs \<noteq> [] \<Longrightarrow>
   lc_all lc_at s (bs @ cs) \<Longrightarrow> latest s = Inr (last (bs @ cs)) \<Longrightarrow>
   list_all (\<lambda>c. fst c \<noteq> 0) cs \<Longrightarrow>
   \<exists>s'. reorg_run reorg False (rev cs) s = Inr s' \<and> inv s' \<and> lc_all lc_at s' bs \<and>
     list_all (\<lambda>(i, h). lc_at i s' = Inr None) cs \<and> latest s' = Inr (last bs)"
proof (induction cs arbitrary: s rule: rev_induct)
  case Nil
  then show ?case by simp
next
  case (snoc c cs)
  obtain i h where c: "c = (i, h)" by fastforce
  obtain xs p g where pre: "bs @ cs = xs @ [(p, g)]"
    using \<open>bs \<noteq> []\<close> by (metis append_is_Nil_conv rev_exhaust surj_pair)
  have all: "bs @ cs @ [c] = xs @ [(p, g), c]" using pre by simp
  have p: "p = i - 1" and cons: "consecutive (bs @ cs)"
    using snoc.prems(3) unfolding all by (auto simp: pre consecutive_append c)
  have apart: "apart (same_slot s) (bs @ cs)" and far: "\<forall>b \<in> set (bs @ cs). \<not> same_slot s i (fst b)"
    using snoc.prems(2) c by (auto simp: apart_def sorted_wrt_append)
  obtain s1 where s1: "reorg i h False s = Inr s1" "inv s1" "same_slot s1 = same_slot s"
    using reorg_ok [OF snoc.prems(1)] by blast
  have lc: "lc_all lc_at s (bs @ cs)" "lc_at i s = Inr (Some h)" "lc_at p s = Inr (Some g)"
    using snoc.prems(5) unfolding append_assoc [symmetric] pre by (simp_all add: lc_all_def c)
  have "\<not> same_slot s i p" using far unfolding pre by simp
  then have "latest s1 = Inr (p, g)"
    using latest_unset [OF snoc.prems(1) _ _ lc(2) _ _ s1(1)] snoc.prems(6,7) lc(3) p c by simp
  moreover have "lc_all lc_at s1 (bs @ cs)"
    using lc_all_other [OF snoc.prems(1) s1(1) far lc(1)] .
  ultimately obtain s2 where s2: "reorg_run reorg False (rev cs) s1 = Inr s2" "inv s2"
    "lc_all lc_at s2 bs" "list_all (\<lambda>(i, h). lc_at i s2 = Inr None) cs" "latest s2 = Inr (last bs)"
    using snoc.IH [OF s1(2) _ cons \<open>bs \<noteq> []\<close>] apart s1(3) pre snoc.prems(7) by auto
  have "\<forall>b \<in> set (rev cs). \<not> same_slot s1 (fst b) i"
    using snoc.prems(2) c s1(3) by (auto simp: apart_def sorted_wrt_append)
  then have "lc_at i s2 = lc_at i s1"
    using run_other [OF s1(2) _ s2(1)] by blast
  then show ?case
    using s1 s2 lc_at_unset [OF snoc.prems(1) s1(1)] by (auto simp: c)
qed

end

section \<open>The ring is such an index\<close>

definition br_same_slot :: "BlockRing \<Rightarrow> u64 \<Rightarrow> u64 \<Rightarrow> bool" where
  "br_same_slot br i j \<longleftrightarrow> slot_of br i = slot_of br j"

text \<open>The hash is recorded under the id (and the first match for it in the slot has that id).\<close>

definition br_stored :: "BlockRing \<Rightarrow> u64 \<Rightarrow> bytes \<Rightarrow> bool" where
  "br_stored br i h \<longleftrightarrow>
     (case position (\<lambda>b. b = h) (ri_block_hashes (item_at br i)) of
        None \<Rightarrow> False | Some p \<Rightarrow> ri_block_ids (item_at br i) ! p = i)"

definition br_latest :: "BlockRing \<Rightarrow> (u64 \<times> bytes) res" where
  "br_latest br =
     rbind (br_get_latest_block_id br) (\<lambda>i.
     rbind (br_get_latest_block_hash br) (\<lambda>h. Inr (i, h)))"

lemma position_Some: "position P xs = Some p \<Longrightarrow> p < length xs \<and> P (xs ! p)"
  by (induction xs arbitrary: p) (auto split: if_splits)

lemma position_None: "position P xs = None \<longleftrightarrow> (\<forall>x \<in> set xs. \<not> P x)"
  by (induction xs) auto

lemma position_append:
  "position P (xs @ ys) =
     (case position P xs of Some p \<Rightarrow> Some p | None \<Rightarrow> map_option (\<lambda>k. length xs + k) (position P ys))"
  by (induction xs) (auto split: option.split simp: option.map_comp comp_def option.map_ident
      cong: option.map_cong)

lemma add_block_stored:
  assumes "br_wf br" and "br_add_block i h br = Inr br'"
    and "\<not> ri_contains_block_hash h (item_at br i)"
  shows "br_stored br' i h"
proof -
  have "item_at br' i = ri_add_block i h (item_at br i)"
    using br_add_block_Inr [OF assms(1), of i h i] assms(2) by auto
  moreover have "position (\<lambda>b. b = h) (ri_block_hashes (item_at br i)) = None"
    using assms(3) by (auto simp: position_None ri_contains_block_hash_def list_ex_iff)
  ultimately show ?thesis
    using br_wf_item(1) [OF assms(1), of i]
    by (simp add: br_stored_def ri_add_block_def position_append ri_wf_def)
qed

lemma lc_lookup:
  assumes "br_wf br"
  shows "br_get_longest_chain_block_hash_at_block_id i br = Inr (Some h) \<longleftrightarrow>
    (\<exists>p. ri_lc_pos (item_at br i) = Some p \<and> p < length (ri_block_ids (item_at br i)) \<and>
       ri_block_ids (item_at br i) ! p = i \<and> ri_block_hashes (item_at br i) ! p = h)"
  using br_wf_item(1) [OF assms, of i] br_item_Inr [OF assms, of i]
  by (auto simp: br_get_longest_chain_block_hash_at_block_id_def get_opt_def ri_wf_def
      split: option.splits)

lemma ri_reorganization_wf:
  "ri_wf (ri_on_chain_reorganization h lc it) = ri_wf it"
  "ri_block_ids (ri_on_chain_reorganization h lc it) = ri_block_ids it"
  "ri_block_hashes (ri_on_chain_reorganization h lc it) = ri_block_hashes it"
  "ri_lc_pos (ri_on_chain_reorganization h lc it) =
     (if lc then position (\<lambda>b. b = h) (ri_block_hashes it) else None)"
  by (simp_all add: ri_on_chain_reorganization_def ri_wf_def)

lemma previous_tip_Inr: "br_wf br \<Longrightarrow> lc_pos < length (br_ring br) \<Longrightarrow>
    \<exists>lc. br_previous_tip br i lc_pos = Inr lc"
  by (auto simp: br_previous_tip_def index_r_def Let_def br_wf_def)

lemma br_lc_pos_self: "br\<lparr>br_ring := r, br_lc_pos := br_lc_pos br\<rparr> = br\<lparr>br_ring := r\<rparr>"
  by (cases br) simp

lemma br_reorganization_Inr:
  assumes "br_wf br"
  shows "\<exists>br'. br_on_chain_reorganization i h lc br = Inr br' \<and> br_wf br' \<and>
    slot_of br' = slot_of br \<and> (lc \<longrightarrow> br_lc_pos br' = Some (slot_of br i)) \<and>
    (\<forall>j. item_at br' j = (if slot_of br i = slot_of br j
       then ri_on_chain_reorganization h lc (item_at br i) else item_at br j))"
proof -
  let ?br1 = "br\<lparr>br_ring := (br_ring br)[slot_of br i := ri_on_chain_reorganization h lc (item_at br i)]\<rparr>"
  have wf: "br_wf ?br1"
    using br_wf_item [OF assms, where i = i]
    by (intro br_wf_update assms) (simp_all add: ri_reorganization_wf)
  have "slot_of br i < length (br_ring ?br1)"
    using slot_of_bound [OF assms] by simp
  then obtain tip where "br_previous_tip ?br1 i (slot_of br i) = Inr tip"
    using previous_tip_Inr [OF wf] by blast
  then have "\<exists>tip. br_on_chain_reorganization i h lc br = Inr (?br1\<lparr>br_lc_pos := tip\<rparr>) \<and>
      (lc \<longrightarrow> tip = Some (slot_of br i))"
    using assms unfolding br_on_chain_reorganization_def br_item_Inr [OF assms]
    by (cases lc; cases "br_lc_pos br")
      (auto simp: Let_def br_lc_pos_self intro: exI [of _ "br_lc_pos br"])
  then obtain tip where "br_on_chain_reorganization i h lc br = Inr (?br1\<lparr>br_lc_pos := tip\<rparr>)"
    "lc \<longrightarrow> tip = Some (slot_of br i)"
    by blast
  then show ?thesis
    using wf item_at_update [OF assms] by (intro exI [of _ "?br1\<lparr>br_lc_pos := tip\<rparr>"]) simp
qed

lemma item_at_cong: "slot_of br i = slot_of br j \<Longrightarrow> item_at br i = item_at br j"
  by (simp add: item_at_def)

lemma unat_minus_1: "(i :: u64) \<noteq> 0 \<Longrightarrow> unat (i - 1) = unat i - 1"
  by (metis unat_minus_one)

lemma slot_of_pred:
  assumes "br_wf br" and "i \<noteq> 0"
  shows "slot_of br (i - 1) =
    (if slot_of br i > 0 then slot_of br i - 1 else unat (br_get_ring_buffer_size br) - 1)"
proof -
  let ?n = "unat (br_get_ring_buffer_size br)"
  have n: "?n > 0" using assms(1) by (simp add: br_wf_def unat_gt_0)
  obtain k where k: "unat i = Suc k" using assms(2) by (cases "unat i") (auto simp: unat_eq_0)
  have "k mod ?n = (if Suc k mod ?n > 0 then Suc k mod ?n - 1 else ?n - 1)"
    using n by (auto simp: mod_Suc)
  then show ?thesis
    using k by (simp add: slot_of_def unat_mod unat_minus_1 [OF assms(2)])
qed

text \<open>The latest block, when it is not the default, is the longest-chain block of the tip slot.\<close>

lemma br_latest_tip:
  assumes "br_wf br" and "i \<noteq> 0" and "br_latest br = Inr (i, h)"
  shows "br_lc_pos br = Some (slot_of br i)"
proof -
  obtain q p where q: "br_lc_pos br = Some q" "q < length (br_ring br)"
    and p: "p < length (ri_block_ids (br_ring br ! q))" "ri_block_ids (br_ring br ! q) ! p = i"
    using assms(2,3)
    by (auto simp: br_latest_def br_get_latest_block_id_def index_r_def split: option.splits if_splits)
  then have "slot_of br i = q"
    using assms(1) nth_mem [OF p(1)] by (auto simp: br_wf_def)
  with q show ?thesis by simp
qed

lemma br_latest_eq:
  assumes "br_wf br" and "br_lc_pos br = Some (slot_of br i)"
    and "br_get_longest_chain_block_hash_at_block_id i br = Inr (Some h)"
  shows "br_latest br = Inr (i, h)"
proof -
  obtain p where "ri_lc_pos (item_at br i) = Some p" "p < length (ri_block_ids (item_at br i))"
    "ri_block_ids (item_at br i) ! p = i" "ri_block_hashes (item_at br i) ! p = h"
    using assms(3) lc_lookup [OF assms(1)] by blast
  then show ?thesis
    using assms(2) slot_of_bound [OF assms(1), of i] br_wf_item(1) [OF assms(1), of i]
    by (simp add: br_latest_def br_get_latest_block_id_def br_get_latest_block_hash_def index_r_def
        item_at_def ri_wf_def)
qed

lemma br_unset_tip:
  assumes "br_wf br" and "i \<noteq> 0" and "br_lc_pos br = Some (slot_of br i)"
    and "br_get_longest_chain_block_hash_at_block_id (i - 1) br = Inr (Some g)"
    and "slot_of br i \<noteq> slot_of br (i - 1)"
    and "br_on_chain_reorganization i h False br = Inr br'"
  shows "br_lc_pos br' = Some (slot_of br (i - 1))"
proof -
  let ?br1 = "br\<lparr>br_ring := (br_ring br)[slot_of br i := ri_on_chain_reorganization h False (item_at br i)]\<rparr>"
  obtain p where p: "ri_lc_pos (item_at br (i - 1)) = Some p"
    "p < length (ri_block_ids (item_at br (i - 1)))" "ri_block_ids (item_at br (i - 1)) ! p = i - 1"
    using assms(4) lc_lookup [OF assms(1)] by blast
  have "br_ring ?br1 ! slot_of br (i - 1) = item_at br (i - 1)"
    using assms(5) by (simp add: item_at_def)
  then have "index_r (br_ring ?br1) (slot_of br (i - 1)) = Inr (item_at br (i - 1))"
    using slot_of_bound [OF assms(1), of "i - 1"] by (simp add: index_r_def)
  then have "br_previous_tip ?br1 i (slot_of br i) = Inr (Some (slot_of br (i - 1)))"
    unfolding br_previous_tip_def ring_size_update slot_of_pred [OF assms(1,2), symmetric] Let_def
    using p by simp
  then show ?thesis
    using assms(3,6) by (auto simp: br_on_chain_reorganization_def br_item_Inr [OF assms(1)] Let_def)
qed

interpretation ring: chain_index br_wf br_same_slot br_stored br_on_chain_reorganization
  br_get_longest_chain_block_hash_at_block_id br_latest
proof
  fix br i h lc
  assume "br_wf br"
  then obtain br' where br': "br_on_chain_reorganization i h lc br = Inr br'" "br_wf br'"
    "slot_of br' = slot_of br" and items: "\<forall>j. item_at br' j = (if slot_of br i = slot_of br j
       then ri_on_chain_reorganization h lc (item_at br i) else item_at br j)"
    using br_reorganization_Inr by blast
  have "ri_block_ids (item_at br' j) = ri_block_ids (item_at br j) \<and>
      ri_block_hashes (item_at br' j) = ri_block_hashes (item_at br j)" for j
    using items item_at_cong [of br i j] by (simp add: ri_reorganization_wf)
  then have "br_stored br' = br_stored br" "br_same_slot br' = br_same_slot br"
    using br'(3) by (simp_all add: br_stored_def br_same_slot_def fun_eq_iff split: option.split)
  with br' show "\<exists>br'. br_on_chain_reorganization i h lc br = Inr br' \<and> br_wf br' \<and>
      br_stored br' = br_stored br \<and> br_same_slot br' = br_same_slot br"
    by blast
next
  fix br i h br'
  assume wf: "br_wf br" and st: "br_stored br i h"
    and r: "br_on_chain_reorganization i h True br = Inr br'"
  have br': "br_wf br'" "slot_of br' = slot_of br" "br_lc_pos br' = Some (slot_of br i)"
    "item_at br' i = ri_on_chain_reorganization h True (item_at br i)"
    using br_reorganization_Inr [OF wf, of i h True] r by auto
  show lc: "br_get_longest_chain_block_hash_at_block_id i br' = Inr (Some h)"
    using st br_wf_item(1) [OF wf, of i] br'(4)
    by (auto simp: lc_lookup [OF br'(1)] br_stored_def ri_reorganization_wf ri_wf_def
        split: option.splits dest: position_Some)
  show "br_latest br' = Inr (i, h)"
    using br_latest_eq [OF br'(1) _ lc] br'(2,3) by simp
next
  fix br i h br'
  assume wf: "br_wf br" and r: "br_on_chain_reorganization i h False br = Inr br'"
  then have "br_wf br'" "item_at br' i = ri_on_chain_reorganization h False (item_at br i)"
    using br_reorganization_Inr [OF wf, of i h False] by auto
  then show "br_get_longest_chain_block_hash_at_block_id i br' = Inr None"
    by (simp add: br_get_longest_chain_block_hash_at_block_id_def br_item_Inr ri_reorganization_wf)
next
  fix br i h lc br' j
  assume wf: "br_wf br" and r: "br_on_chain_reorganization i h lc br = Inr br'"
    and far: "\<not> br_same_slot br i j"
  then have "br_wf br'" "item_at br' j = item_at br j"
    using br_reorganization_Inr [OF wf, of i h lc] by (auto simp: br_same_slot_def)
  then show "br_get_longest_chain_block_hash_at_block_id j br' =
      br_get_longest_chain_block_hash_at_block_id j br"
    using wf by (simp add: br_get_longest_chain_block_hash_at_block_id_def br_item_Inr)
next
  fix br i h g br'
  assume wf: "br_wf br" and i: "i \<noteq> 0" and lat: "br_latest br = Inr (i, h)"
    and lc: "br_get_longest_chain_block_hash_at_block_id (i - 1) br = Inr (Some g)"
    and far: "\<not> br_same_slot br i (i - 1)"
    and r: "br_on_chain_reorganization i h False br = Inr br'"
  have slots: "slot_of br i \<noteq> slot_of br (i - 1)" using far by (simp add: br_same_slot_def)
  have br': "br_wf br'" "slot_of br' = slot_of br" "item_at br' (i - 1) = item_at br (i - 1)"
    using br_reorganization_Inr [OF wf, of i h False] r slots by auto
  have "br_lc_pos br' = Some (slot_of br (i - 1))"
    using br_unset_tip [OF wf i br_latest_tip [OF wf i lat] lc slots r] .
  moreover have "br_get_longest_chain_block_hash_at_block_id (i - 1) br' = Inr (Some g)"
    using lc by (simp add: lc_lookup [OF wf] lc_lookup [OF br'(1)] br'(3))
  ultimately show "br_latest br' = Inr (i - 1, g)"
    using br_latest_eq [OF br'(1)] br'(2) by simp
qed

section \<open>Properties of the ring\<close>

lemma consecutive_nth:
  "consecutive bs \<Longrightarrow> k < length bs \<Longrightarrow> fst (bs ! k) = fst (hd bs) + of_nat k"
proof (induction bs arbitrary: k rule: consecutive.induct)
  case (1 b c bs)
  then show ?case by (cases k) auto
qed auto

lemma consecutive_unat:
  assumes "consecutive bs" and "k < length bs" and "unat (fst (hd bs)) + length bs \<le> 2 ^ 64"
  shows "unat (fst (bs ! k)) = unat (fst (hd bs)) + k"
  using assms by (simp add: consecutive_nth unat_word_ariths unat_of_nat)

lemma consecutive_apart:
  assumes "br_wf br" and "consecutive bs" and "length bs \<le> unat (br_get_ring_buffer_size br)"
    and "unat (fst (hd bs)) + length bs \<le> 2 ^ 64"
  shows "apart (br_same_slot br) bs"
  unfolding apart_def sorted_wrt_iff_nth_less
proof (intro allI impI)
  fix k m assume km: "k < m" "m < length bs"
  let ?n = "unat (br_get_ring_buffer_size br)" and ?a = "unat (fst (hd bs))"
  have "(?a + k) mod ?n \<noteq> (?a + m) mod ?n"
  proof
    assume "(?a + k) mod ?n = (?a + m) mod ?n"
    then have "?n dvd (?a + m) - (?a + k)" by (metis mod_eq_dvd_iff_nat nat_le_linear km(1) add_le_cancel_left less_imp_le_nat)
    then have "?n \<le> m - k" using km by (auto dest: dvd_imp_le)
    with km assms(3) show False by simp
  qed
  then show "\<not> br_same_slot br (fst (bs ! k)) (fst (bs ! m)) \<and>
      \<not> br_same_slot br (fst (bs ! m)) (fst (bs ! k))"
    using km consecutive_unat [OF assms(2) _ assms(4)]
    by (simp add: br_same_slot_def slot_of_def unat_mod)
qed

text \<open>
  C29. Winding consecutive blocks that the ring knows, at most as many as it has slots, makes
  each the longest-chain block of its id and the last one the latest block; unwinding the
  newest of them in reverse order unsets exactly those and makes the last remaining block the
  latest again. None of the calls panics.
\<close>

theorem ring_tracks_reorganization:
  assumes "br_wf br" and "bs \<noteq> []" and "consecutive (bs @ cs)"
    and "list_all (\<lambda>(i, h). br_stored br i h) (bs @ cs)"
    and "length (bs @ cs) \<le> unat (br_get_ring_buffer_size br)"
    and "unat (fst (hd bs)) + length (bs @ cs) \<le> 2 ^ 64"
  shows "\<exists>br1 br2.
    reorg_run br_on_chain_reorganization True (bs @ cs) br = Inr br1 \<and>
    lc_all br_get_longest_chain_block_hash_at_block_id br1 (bs @ cs) \<and>
    br_latest br1 = Inr (last (bs @ cs)) \<and>
    reorg_run br_on_chain_reorganization False (rev cs) br1 = Inr br2 \<and>
    lc_all br_get_longest_chain_block_hash_at_block_id br2 bs \<and>
    list_all (\<lambda>(i, h). br_get_longest_chain_block_hash_at_block_id i br2 = Inr None) cs \<and>
    br_latest br2 = Inr (last bs)"
proof -
  have hd: "hd (bs @ cs) = hd bs" using assms(2) by simp
  have apart: "apart (br_same_slot br) (bs @ cs)"
    using consecutive_apart [OF assms(1,3,5)] assms(6) hd by simp
  obtain br1 where br1: "reorg_run br_on_chain_reorganization True (bs @ cs) br = Inr br1"
    "br_wf br1" "br_same_slot br1 = br_same_slot br"
    "lc_all br_get_longest_chain_block_hash_at_block_id br1 (bs @ cs)"
    "br_latest br1 = Inr (last (bs @ cs))"
    using ring.wind_run [OF assms(1) apart assms(4)] assms(2) by auto
  have "unat (fst ((bs @ cs) ! k)) \<noteq> 0" if "length bs \<le> k" "k < length (bs @ cs)" for k
    using consecutive_unat [OF assms(3) that(2)] assms(2,6) hd that by (cases bs) auto
  then have "list_all (\<lambda>c. fst c \<noteq> 0) cs"
    unfolding list_all_length
    by (metis (no_types, lifting) add_diff_cancel_left' le_add1 length_append nat_add_left_cancel_less
        nth_append_length_plus unat_0)
  then show ?thesis
    using br1 ring.unwind_run [OF br1(2) _ assms(3,2) br1(4,5)] apart by (simp add: br1(3)) blast
qed

text \<open>
  Deleting a block removes exactly the entries with its id and hash, in every slot, and
  keeps the invariant of the ring.
\<close>

theorem ring_delete_block:
  assumes "br_wf br"
  shows "\<exists>br'. br_delete_block i h br = Inr br' \<and> br_wf br' \<and>
    (\<forall>j. ri_entries (item_at br' j) = filter (\<lambda>b. b \<noteq> (i, h)) (ri_entries (item_at br j)))"
  using br_delete_block_Inr [OF assms, of i h] by blast

text \<open>
  Deleting a block at an id without a longest-chain block puts the first remaining block
  of the slot on the longest chain: the position is initialised to the first entry instead of
  to none.
\<close>

theorem ring_delete_invents_longest_chain:
  assumes "br_wf br" and "ri_lc_pos (item_at br i) = None"
    and "ri_entries (item_at br i) = [(i, g), (i, h)]" and "g \<noteq> h"
  shows "br_get_longest_chain_block_hash_at_block_id i br = Inr None \<and>
    (\<exists>br'. br_delete_block i h br = Inr br' \<and>
    br_get_longest_chain_block_hash_at_block_id i br' = Inr (Some g))"
proof -
  have "br_get_longest_chain_block_hash_at_block_id i br = Inr None"
    using assms(1,2)
    by (simp add: br_get_longest_chain_block_hash_at_block_id_def br_item_Inr)
  obtain br' where br': "br_delete_block i h br = Inr br'" "br_wf br'"
    "ri_entries (item_at br' i) = [(i, g)]" "ri_lc_pos (item_at br' i) = Some 0"
    using br_delete_block_Inr [OF assms(1), of i h] assms(2-4) by auto
  then have "br_get_longest_chain_block_hash_at_block_id i br' = Inr (Some g)"
    unfolding lc_lookup [OF br'(2)]
    by (cases "ri_block_ids (item_at br' i)"; cases "ri_block_hashes (item_at br' i)")
      (auto simp: ri_entries_def)
  with br' \<open>br_get_longest_chain_block_hash_at_block_id i br = Inr None\<close> show ?thesis by blast
qed

section \<open>A concrete ring\<close>

definition demo_ring :: BlockRing where
  "demo_ring = (br_new 2)\<lparr>br_ring :=
     [ri_default, ri_add_block 1 [1] ri_default,
      ri_add_block 2 [22] (ri_add_block 2 [2] ri_default), ri_add_block 3 [3] ri_default]\<rparr>"

lemma demo_ring_size: "br_get_ring_buffer_size demo_ring = 4"
  by (simp add: br_get_ring_buffer_size_def demo_ring_def br_new_def)

lemma demo_ring_items:
  "br_ring demo_ring =
     [ri_default, ri_add_block 1 [1] ri_default,
      ri_add_block 2 [22] (ri_add_block 2 [2] ri_default), ri_add_block 3 [3] ri_default]"
  by (simp add: demo_ring_def)

lemma demo_ring_wf: "br_wf demo_ring"
  unfolding br_wf_def slot_of_def demo_ring_size demo_ring_items
  by (simp add: All_less_Suc ri_default_def ri_add_block_def ri_wf_def)

theorem ring_tracks_reorganization_witness:
  "\<exists>br1 br2.
    reorg_run br_on_chain_reorganization True [(1, [1]), (2, [2]), (3, [3])] demo_ring = Inr br1 \<and>
    br_latest br1 = Inr (3, [3]) \<and>
    reorg_run br_on_chain_reorganization False [(3, [3]), (2, [2])] br1 = Inr br2 \<and>
    br_latest br2 = Inr (1, [1])"
  using ring_tracks_reorganization [OF demo_ring_wf, of "[(1, [1])]" "[(2, [2]), (3, [3])]"]
  by (auto simp: demo_ring_size demo_ring_items br_stored_def item_at_def slot_of_def
      ri_default_def ri_add_block_def)

theorem ring_delete_block_witness:
  "\<exists>br'. br_delete_block 2 [2] demo_ring = Inr br' \<and> br_wf br' \<and>
    ri_entries (item_at br' 2) = [(2, [22])]"
  using ring_delete_block [OF demo_ring_wf, of 2 "[2]"]
  by (auto simp: demo_ring_size demo_ring_items item_at_def slot_of_def
      ri_default_def ri_add_block_def ri_entries_def)

theorem ring_delete_invents_longest_chain_witness:
  "br_get_longest_chain_block_hash_at_block_id 2 demo_ring = Inr None \<and>
   (\<exists>br'. br_delete_block 2 [22] demo_ring = Inr br' \<and>
      br_get_longest_chain_block_hash_at_block_id 2 br' = Inr (Some [2]))"
  using ring_delete_invents_longest_chain [OF demo_ring_wf, of 2 "[2]" "[22]"]
  by (auto simp: demo_ring_size demo_ring_items item_at_def slot_of_def
      ri_default_def ri_add_block_def ri_entries_def)

end
