(* ===== verification/Saito_Crypto.thy ===== *)
theory Saito_Crypto
  imports Saito_Prelude "HOL-Library.Log_Nat"
begin

text \<open>
  The cryptographic helpers of \<^verbatim>\<open>saito-core/src/core/util/crypto.rs\<close>. BLAKE3, secp256k1, the
  256-bit integers of \<^verbatim>\<open>primitive_types\<close> and \<^verbatim>\<open>hex\<close> are third-party packages: they are the fields of
  the record \<open>ext\<close>, an argument of every definition that uses them. What the code relies on
  is stated as \<open>crypto_laws\<close> and \<open>u256_laws\<close>, documented behaviour of those packages, and
  \<open>demo_ext\<close> is a concrete instance that satisfies both.
\<close>

record ext =
  blake3 :: "bytes \<Rightarrow> bytes"
  msg_ok :: "bytes \<Rightarrow> bool"
  pk_ok :: "bytes \<Rightarrow> bool"
  sk_ok :: "bytes \<Rightarrow> bool"
  sig_ok :: "bytes \<Rightarrow> bool"
  ecdsa_sign :: "bytes \<Rightarrow> bytes \<Rightarrow> bytes"
  ecdsa_verify :: "bytes \<Rightarrow> bytes \<Rightarrow> bytes \<Rightarrow> bool"
  pk_of_sk :: "bytes \<Rightarrow> bytes"
  u256_leading_zeros :: "bytes \<Rightarrow> nat"
  u256_rem_low_u64 :: "bytes \<Rightarrow> bytes \<Rightarrow> u64"
  hex_encode :: "bytes \<Rightarrow> string"
  base58_encode :: "bytes \<Rightarrow> string"
  u256_low_u128 :: "bytes \<Rightarrow> nat"
  hex_decode :: "string \<Rightarrow> bytes option"
  base58_decode :: "string \<Rightarrow> bytes option"

definition PROJECT_PUBLIC_KEY :: string where
  "PROJECT_PUBLIC_KEY = ''q6TTBeSStCLXEPoS5TUVAxNiGGnRDZQenpvAXXAfTmtA''"

section \<open>The helpers of crypto.rs\<close>

definition hash :: "ext \<Rightarrow> bytes \<Rightarrow> bytes" where
  "hash X data = blake3 X data"

definition sign :: "ext \<Rightarrow> bytes \<Rightarrow> bytes \<Rightarrow> bytes res" where
  "sign X message_bytes private_key =
     (let h = hash X message_bytes in
      if \<not> msg_ok X h then Inl Panic
      else if \<not> sk_ok X private_key then Inl Panic
      else Inr (ecdsa_sign X h private_key))"

definition verify_signature :: "ext \<Rightarrow> bytes \<Rightarrow> bytes \<Rightarrow> bytes \<Rightarrow> bool" where
  "verify_signature X h sig public_key =
     (if \<not> msg_ok X h \<or> \<not> pk_ok X public_key \<or> \<not> sig_ok X sig then False
      else ecdsa_verify X h sig public_key)"

definition verify :: "ext \<Rightarrow> bytes \<Rightarrow> bytes \<Rightarrow> bytes \<Rightarrow> bool" where
  "verify X msg sig public_key = verify_signature X (hash X msg) sig public_key"

definition is_valid_public_key :: "ext \<Rightarrow> bytes \<Rightarrow> bool" where
  "is_valid_public_key X key = pk_ok X key"

definition generate_keypair_from_private_key :: "ext \<Rightarrow> bytes \<Rightarrow> (bytes \<times> bytes) res" where
  "generate_keypair_from_private_key X sk =
     (if \<not> sk_ok X sk then Inl Panic else Inr (pk_of_sk X sk, sk))"

definition sign_blob :: "ext \<Rightarrow> bytes \<Rightarrow> bytes \<Rightarrow> bytes res" where
  "sign_blob X vbytes private_key =
     rbind (sign X (hash X vbytes) private_key) (\<lambda>sig. Inr (vbytes @ sig))"

section \<open>What is assumed of the packages\<close>

text \<open>
  BLAKE3 returns 32 bytes; \<^verbatim>\<open>Message::from_slice\<close> accepts exactly 32 bytes; a signature made
  with a valid secret key is 64 bytes and verifies under the public key of that secret key.
\<close>

definition crypto_laws :: "ext \<Rightarrow> bool" where
  "crypto_laws X \<longleftrightarrow>
     (\<forall>d. length (blake3 X d) = 32) \<and>
     (\<forall>m. msg_ok X m \<longleftrightarrow> length m = 32) \<and>
     (\<forall>sk. sk_ok X sk \<longrightarrow> length (pk_of_sk X sk) = 33 \<and> pk_ok X (pk_of_sk X sk)) \<and>
     (\<forall>m sk. length m = 32 \<longrightarrow> sk_ok X sk \<longrightarrow>
        length (ecdsa_sign X m sk) = 64 \<and> sig_ok X (ecdsa_sign X m sk) \<and>
        ecdsa_verify X m (ecdsa_sign X m sk) (pk_of_sk X sk))"

text \<open>Leading zero bits of the number, and the low 64 bits of a remainder.\<close>

definition u256_laws :: "ext \<Rightarrow> bool" where
  "u256_laws X \<longleftrightarrow>
     (\<forall>bs n. length bs = 32 \<longrightarrow> n \<le> 256 \<longrightarrow>
        (n \<le> u256_leading_zeros X bs \<longleftrightarrow> be_value bs < 2 ^ (256 - n))) \<and>
     (\<forall>bs. u256_leading_zeros X bs \<le> 256) \<and>
     (\<forall>x z. u256_rem_low_u64 X x z = of_nat (be_value x mod be_value z)) \<and>
     (\<forall>bs. u256_low_u128 X bs = be_value bs mod 2 ^ 128)"

lemma sign_Inr:
  "crypto_laws X \<Longrightarrow> sk_ok X sk \<Longrightarrow>
   \<exists>sig. sign X m sk = Inr sig \<and> length sig = 64 \<and> verify X m sig (pk_of_sk X sk)"
  by (simp add: crypto_laws_def sign_def verify_def verify_signature_def hash_def Let_def)

lemma unat_u256_rem:
  assumes "u256_laws X" and "0 < be_value z" and "be_value z < 2 ^ 64"
  shows "unat (u256_rem_low_u64 X x z) = be_value x mod be_value z"
proof -
  have "be_value x mod be_value z < 2 ^ 64"
    using assms(2,3) mod_less_divisor [of "be_value z" "be_value x"] by linarith
  moreover have "u256_rem_low_u64 X x z = of_nat (be_value x mod be_value z)"
    using assms(1) by (simp add: u256_laws_def)
  ultimately show ?thesis by (simp add: unat_of_nat)
qed

lemma length_hash: "crypto_laws X \<Longrightarrow> length (hash X d) = 32"
  by (simp add: crypto_laws_def hash_def)

section \<open>A concrete instance\<close>

definition demo_hash :: "bytes \<Rightarrow> bytes" where
  "demo_hash d = take 32 (d @ replicate 32 (of_nat (length d)))"

definition hex_digit :: "nat \<Rightarrow> char" where
  "hex_digit n = ''0123456789abcdef'' ! n"

definition hex_value :: "char \<Rightarrow> nat option" where
  "hex_value c = map_of (zip ''0123456789abcdef'' [0..<16]) c"

fun demo_unhex :: "string \<Rightarrow> bytes option" where
  "demo_unhex [] = Some []"
| "demo_unhex [c] = None"
| "demo_unhex (c # d # s) =
     (case (hex_value c, hex_value d, demo_unhex s) of
        (Some h, Some l, Some bs) \<Rightarrow> Some (of_nat (16 * h + l) # bs)
      | _ \<Rightarrow> None)"

definition demo_ext :: ext where
  "demo_ext = \<lparr>
     blake3 = demo_hash,
     msg_ok = (\<lambda>m. length m = 32),
     pk_ok = (\<lambda>p. length p = 33),
     sk_ok = (\<lambda>s. length s = 32),
     sig_ok = (\<lambda>s. length s = 64),
     ecdsa_sign = (\<lambda>m sk. m @ sk),
     ecdsa_verify = (\<lambda>m sig pk. sig = m @ tl pk),
     pk_of_sk = (\<lambda>sk. 2 # sk),
     u256_leading_zeros = (\<lambda>bs. 256 - floorlog 2 (be_value bs)),
     u256_rem_low_u64 = (\<lambda>x z. of_nat (be_value x mod be_value z)),
     hex_encode = concat \<circ> map (\<lambda>b. [hex_digit (unat b div 16), hex_digit (unat b mod 16)]),
     base58_encode = concat \<circ> map (\<lambda>b. [hex_digit (unat b div 16), hex_digit (unat b mod 16)]),
     u256_low_u128 = (\<lambda>bs. be_value bs mod 2 ^ 128),
     hex_decode = demo_unhex,
     base58_decode = (\<lambda>s. if s = PROJECT_PUBLIC_KEY then Some (replicate 33 1) else demo_unhex s) \<rparr>"

lemma crypto_laws_demo: "crypto_laws demo_ext"
  by (auto simp: crypto_laws_def demo_ext_def demo_hash_def)

lemma u256_laws_demo: "u256_laws demo_ext"
  unfolding u256_laws_def
proof (intro conjI allI impI)
  fix bs :: bytes and n :: nat
  assume "length bs = 32" and n: "n \<le> 256"
  then have "be_value bs < 2 ^ 256"
    using be_value_bound [of bs] by simp
  then have "floorlog 2 (be_value bs) \<le> 256"
    by (intro floorlog_leI) auto
  then have "n \<le> u256_leading_zeros demo_ext bs \<longleftrightarrow> floorlog 2 (be_value bs) \<le> 256 - n"
    using n by (auto simp: demo_ext_def)
  then show "n \<le> u256_leading_zeros demo_ext bs \<longleftrightarrow> be_value bs < 2 ^ (256 - n)"
    using floorlog_leI [of "be_value bs" 2 "256 - n"] floorlog_leD [of 2 "be_value bs" "256 - n"]
    by auto
qed (simp_all add: demo_ext_def)

end
