(* ===== verification/Slip.thy ===== *)
theory Slip
  imports Saito_Crypto
begin

text \<open>
  Slips, the unspent outputs of the ledger (\<^verbatim>\<open>consensus/slip.rs\<close>): the record, its two
  59-byte encodings (the wire format and the key of the UTXO set), and the operations on the
  UTXO set, a map from keys to a spendable flag.
\<close>

section \<open>Data\<close>

type_synonym utxoset = "bytes \<Rightarrow> bool option"

datatype SlipType =
  ST_Normal | ST_ATR | ST_VipInput | ST_VipOutput | ST_MinerInput | ST_MinerOutput
| ST_RouterInput | ST_RouterOutput | ST_BlockStake | ST_Bound

fun slip_type_to_u8 :: "SlipType \<Rightarrow> u8" where
  "slip_type_to_u8 ST_Normal = 0"
| "slip_type_to_u8 ST_ATR = 1"
| "slip_type_to_u8 ST_VipInput = 2"
| "slip_type_to_u8 ST_VipOutput = 3"
| "slip_type_to_u8 ST_MinerInput = 4"
| "slip_type_to_u8 ST_MinerOutput = 5"
| "slip_type_to_u8 ST_RouterInput = 6"
| "slip_type_to_u8 ST_RouterOutput = 7"
| "slip_type_to_u8 ST_BlockStake = 8"
| "slip_type_to_u8 ST_Bound = 9"

definition slip_type_from_u8 :: "u8 \<Rightarrow> SlipType option" where
  "slip_type_from_u8 b =
     (if b = 0 then Some ST_Normal else if b = 1 then Some ST_ATR
      else if b = 2 then Some ST_VipInput else if b = 3 then Some ST_VipOutput
      else if b = 4 then Some ST_MinerInput else if b = 5 then Some ST_MinerOutput
      else if b = 6 then Some ST_RouterInput else if b = 7 then Some ST_RouterOutput
      else if b = 8 then Some ST_BlockStake else if b = 9 then Some ST_Bound else None)"

record slip =
  slip_public_key :: bytes
  slip_amount :: u64
  slip_slip_index :: u8
  slip_block_id :: u64
  slip_tx_ordinal :: u64
  slip_slip_type :: SlipType
  slip_utxoset_key :: bytes
  slip_is_utxoset_key_set :: bool

definition SLIP_SIZE :: nat where "SLIP_SIZE = 59"
definition UTXO_KEY_LENGTH :: nat where "UTXO_KEY_LENGTH = 59"

definition slip_default :: slip where
  "slip_default = \<lparr>
     slip_public_key = replicate 33 0, slip_amount = 0, slip_slip_index = 0, slip_block_id = 0,
     slip_tx_ordinal = 0, slip_slip_type = ST_Normal,
     slip_utxoset_key = replicate UTXO_KEY_LENGTH 0, slip_is_utxoset_key_set = False \<rparr>"

text \<open>The Rust type fixes the array lengths; the model's lists carry them as a predicate.\<close>

definition slip_wf :: "slip \<Rightarrow> bool" where [wf_defs]:
  "slip_wf s \<longleftrightarrow> length (slip_public_key s) = 33 \<and> length (slip_utxoset_key s) = UTXO_KEY_LENGTH"

section \<open>Encodings\<close>

definition slip_get_utxoset_key :: "slip \<Rightarrow> bytes" where
  "slip_get_utxoset_key s =
     slip_public_key s @ to_be (slip_block_id s) @ to_be (slip_tx_ordinal s) @
     to_be (slip_slip_index s) @ to_be (slip_amount s) @
     to_be (slip_type_to_u8 (slip_slip_type s))"

definition slip_generate_utxoset_key :: "slip \<Rightarrow> slip" where
  "slip_generate_utxoset_key s =
     s\<lparr>slip_utxoset_key := slip_get_utxoset_key s, slip_is_utxoset_key_set := True\<rparr>"

text \<open>The Rust argument is an array of 59 bytes, so no slice below can be out of range.\<close>

definition slip_parse_slip_from_utxokey :: "bytes \<Rightarrow> slip res" where
  "slip_parse_slip_from_utxokey key =
     rbind (ok_or InvalidData (slip_type_from_u8 (key ! 58))) (\<lambda>ty.
     Inr (slip_default\<lparr>
       slip_public_key := subslice 0 33 key,
       slip_block_id := from_be (subslice 33 41 key),
       slip_tx_ordinal := from_be (subslice 41 49 key),
       slip_slip_index := key ! 49,
       slip_amount := from_be (subslice 50 58 key),
       slip_slip_type := ty,
       slip_utxoset_key := key,
       slip_is_utxoset_key_set := True\<rparr>))"

definition slip_serialize_for_net :: "slip \<Rightarrow> bytes" where
  "slip_serialize_for_net s =
     slip_public_key s @ to_be (slip_amount s) @ to_be (slip_block_id s) @
     to_be (slip_tx_ordinal s) @ to_be (slip_slip_index s) @
     to_be (slip_type_to_u8 (slip_slip_type s))"

definition slip_deserialize_from_net :: "bytes \<Rightarrow> slip res" where
  "slip_deserialize_from_net bs =
     (if length bs \<noteq> SLIP_SIZE then Inl InvalidInput
      else rbind (ok_or InvalidData (slip_type_from_u8 (bs ! 58))) (\<lambda>ty.
        Inr (slip_default\<lparr>
          slip_public_key := subslice 0 33 bs,
          slip_amount := from_be (subslice 33 41 bs),
          slip_block_id := from_be (subslice 41 49 bs),
          slip_tx_ordinal := from_be (subslice 49 57 bs),
          slip_slip_index := bs ! 57,
          slip_slip_type := ty\<rparr>)))"

definition slip_serialize_input_for_signature :: "slip \<Rightarrow> bytes" where
  "slip_serialize_input_for_signature s =
     slip_public_key s @ to_be (slip_amount s) @ to_be (slip_slip_index s) @
     to_be (slip_type_to_u8 (slip_slip_type s))"

definition slip_serialize_output_for_signature :: "slip \<Rightarrow> bytes" where
  "slip_serialize_output_for_signature s =
     slip_public_key s @ to_be (slip_amount s) @ to_be (slip_slip_index s) @
     to_be (slip_type_to_u8 (slip_slip_type s))"

section \<open>Operations on the UTXO set\<close>

definition slip_delete :: "slip \<Rightarrow> utxoset \<Rightarrow> bool \<times> utxoset" where
  "slip_delete s utxoset =
     (if slip_get_utxoset_key s = replicate UTXO_KEY_LENGTH 0 then (False, utxoset)
      else (True, utxoset(slip_get_utxoset_key s := None)))"

definition slip_on_chain_reorganization :: "slip \<Rightarrow> utxoset \<Rightarrow> bool \<Rightarrow> utxoset" where
  "slip_on_chain_reorganization s utxoset spendable =
     (if slip_amount s > 0 then
        (if spendable then utxoset(slip_utxoset_key s := Some spendable)
         else utxoset(slip_utxoset_key s := None))
      else utxoset)"

definition slip_validate :: "slip \<Rightarrow> utxoset \<Rightarrow> bool" where
  "slip_validate s utxoset =
     (if slip_amount s > 0 then
        (case utxoset (slip_utxoset_key s) of
           Some value \<Rightarrow> (if value then True else False)
         | None \<Rightarrow> False)
      else True)"

section \<open>The wire format is a fixed-width codec\<close>

lemma slip_type_roundtrip [simp]: "slip_type_from_u8 (slip_type_to_u8 t) = Some t"
  by (cases t) (simp_all add: slip_type_from_u8_def)

lemma slip_type_from_u8_Some: "slip_type_from_u8 b = Some t \<Longrightarrow> slip_type_to_u8 t = b"
  by (auto simp: slip_type_from_u8_def split: if_splits)

lemma slip_type_to_u8_inject: "slip_type_to_u8 a = slip_type_to_u8 b \<longleftrightarrow> a = b"
  by (metis option.inject slip_type_roundtrip)

lemma length_slip_serialize_for_net [codec_simps]:
  "slip_wf s \<Longrightarrow> length (slip_serialize_for_net s) = SLIP_SIZE"
  by (simp add: slip_serialize_for_net_def slip_wf_def SLIP_SIZE_def)

lemma length_slip_get_utxoset_key [codec_simps]:
  "slip_wf s \<Longrightarrow> length (slip_get_utxoset_key s) = UTXO_KEY_LENGTH"
  by (simp add: slip_get_utxoset_key_def slip_wf_def UTXO_KEY_LENGTH_def)

text \<open>What of a slip travels: the UTXO key is recomputed by the receiver.\<close>

definition slip_wire :: "slip \<Rightarrow> slip" where
  "slip_wire s = s\<lparr>slip_utxoset_key := replicate UTXO_KEY_LENGTH 0, slip_is_utxoset_key_set := False\<rparr>"

lemma slip_eqI:
  assumes "slip_public_key s = slip_public_key t" "slip_amount s = slip_amount t"
    "slip_slip_index s = slip_slip_index t" "slip_block_id s = slip_block_id t"
    "slip_tx_ordinal s = slip_tx_ordinal t" "slip_slip_type s = slip_slip_type t"
    "slip_utxoset_key s = slip_utxoset_key t"
    "slip_is_utxoset_key_set s = slip_is_utxoset_key_set t"
  shows "s = (t :: slip)"
  using assms by simp

lemma subslice_layout:
  assumes "length a = n" "length b = m"
  shows "subslice 0 n (a @ b) = a" and "subslice n (n + m) (a @ b @ c) = b"
  using assms by (simp_all add: subslice_def)

lemma slip_deserialize_serialize:
  assumes "slip_wf s"
  shows "slip_deserialize_from_net (slip_serialize_for_net s) = Inr (slip_wire s)"
proof -
  let ?b = "slip_serialize_for_net s"
  have pk: "length (slip_public_key s) = 33" using assms by (simp add: slip_wf_def)
  have len: "length ?b = 59" using assms by (simp add: codec_simps SLIP_SIZE_def)
  have "subslice 0 33 ?b = slip_public_key s" "subslice 33 41 ?b = to_be (slip_amount s)"
    "subslice 41 49 ?b = to_be (slip_block_id s)" "subslice 49 57 ?b = to_be (slip_tx_ordinal s)"
    using pk by (simp_all add: slip_serialize_for_net_def subslice_def)
  moreover have "?b ! 57 = slip_slip_index s" "?b ! 58 = slip_type_to_u8 (slip_slip_type s)"
    using pk by (simp_all add: slip_serialize_for_net_def nth_append)
  ultimately show ?thesis
    by (simp add: slip_deserialize_from_net_def SLIP_SIZE_def len slip_wire_def slip_default_def)
qed

lemma subslice_one: "i < length bs \<Longrightarrow> subslice i (Suc i) bs = [bs ! i]"
  by (simp add: subslice_def take_Suc_conv_app_nth hd_drop_conv_nth take_Suc)

lemma slip_serialize_deserialize:
  assumes "slip_deserialize_from_net bs = Inr s"
  shows "slip_serialize_for_net s = bs" and "slip_wf s" and "length bs = SLIP_SIZE"
proof -
  from assms have len: "length bs = 59" and ty: "slip_type_from_u8 (bs ! 58) = Some (slip_slip_type s)"
    and s: "slip_public_key s = subslice 0 33 bs" "slip_amount s = from_be (subslice 33 41 bs)"
      "slip_block_id s = from_be (subslice 41 49 bs)"
      "slip_tx_ordinal s = from_be (subslice 49 57 bs)" "slip_slip_index s = bs ! 57"
      "slip_utxoset_key s = replicate UTXO_KEY_LENGTH 0"
    by (auto simp: slip_deserialize_from_net_def SLIP_SIZE_def slip_default_def split: if_splits)
  show "length bs = SLIP_SIZE" using len by (simp add: SLIP_SIZE_def)
  show "slip_wf s" using s len by (simp add: slip_wf_def)
  have "slip_serialize_for_net s =
      subslice 0 33 bs @ subslice 33 41 bs @ subslice 41 49 bs @ subslice 49 57 bs @
      subslice 57 58 bs @ subslice 58 59 bs"
    using s len subslice_one [of 57 bs] subslice_one [of 58 bs]
    by (simp add: slip_serialize_for_net_def to_be_from_be_word slip_type_from_u8_Some [OF ty])
  also have "\<dots> = subslice 0 59 bs"
    by (simp add: slice_cat)
  finally show "slip_serialize_for_net s = bs"
    using len by (simp add: subslice_def)
qed

interpretation slip_codec:
  checked_codec slip_serialize_for_net slip_deserialize_from_net SLIP_SIZE slip_wf slip_wire
  by unfold_locales
    (auto simp: codec_simps slip_deserialize_serialize dest: slip_serialize_deserialize)

section \<open>The UTXO key\<close>

lemma utxoset_key_fields:
  assumes "length (slip_public_key s) = 33"
  shows "subslice 0 33 (slip_get_utxoset_key s) = slip_public_key s"
    and "subslice 33 41 (slip_get_utxoset_key s) = to_be (slip_block_id s)"
    and "subslice 41 49 (slip_get_utxoset_key s) = to_be (slip_tx_ordinal s)"
    and "slip_get_utxoset_key s ! 49 = slip_slip_index s"
    and "subslice 50 58 (slip_get_utxoset_key s) = to_be (slip_amount s)"
    and "slip_get_utxoset_key s ! 58 = slip_type_to_u8 (slip_slip_type s)"
  using assms by (simp_all add: slip_get_utxoset_key_def subslice_def nth_append)

lemma slip_wf_generate_utxoset_key: "slip_wf s \<Longrightarrow> slip_wf (slip_generate_utxoset_key s)"
  by (simp add: slip_generate_utxoset_key_def slip_wf_def slip_get_utxoset_key_def UTXO_KEY_LENGTH_def)

lemma slip_generate_utxoset_key_simps [simp]:
  "slip_public_key (slip_generate_utxoset_key s) = slip_public_key s"
  "slip_amount (slip_generate_utxoset_key s) = slip_amount s"
  "slip_slip_index (slip_generate_utxoset_key s) = slip_slip_index s"
  "slip_block_id (slip_generate_utxoset_key s) = slip_block_id s"
  "slip_tx_ordinal (slip_generate_utxoset_key s) = slip_tx_ordinal s"
  "slip_slip_type (slip_generate_utxoset_key s) = slip_slip_type s"
  "slip_utxoset_key (slip_generate_utxoset_key s) = slip_get_utxoset_key s"
  "slip_get_utxoset_key (slip_generate_utxoset_key s) = slip_get_utxoset_key s"
  by (simp_all add: slip_generate_utxoset_key_def slip_get_utxoset_key_def)

lemma parse_get_utxoset_key:
  assumes "slip_wf s"
  shows "slip_parse_slip_from_utxokey (slip_get_utxoset_key s) = Inr (slip_generate_utxoset_key s)"
  using assms
  by (simp add: slip_parse_slip_from_utxokey_def utxoset_key_fields slip_wf_def
      slip_generate_utxoset_key_def slip_default_def)

lemma get_parse_utxoset_key:
  assumes "slip_parse_slip_from_utxokey key = Inr s" and len: "length key = UTXO_KEY_LENGTH"
  shows "slip_get_utxoset_key s = key"
proof -
  from assms(1) have ty: "slip_type_from_u8 (key ! 58) = Some (slip_slip_type s)"
    and s: "slip_public_key s = subslice 0 33 key" "slip_block_id s = from_be (subslice 33 41 key)"
      "slip_tx_ordinal s = from_be (subslice 41 49 key)" "slip_slip_index s = key ! 49"
      "slip_amount s = from_be (subslice 50 58 key)"
    by (auto simp: slip_parse_slip_from_utxokey_def)
  have "slip_get_utxoset_key s =
      subslice 0 33 key @ subslice 33 41 key @ subslice 41 49 key @ subslice 49 50 key @
      subslice 50 58 key @ subslice 58 59 key"
    using s len subslice_one [of 49 key] subslice_one [of 58 key]
    by (simp add: slip_get_utxoset_key_def to_be_from_be_word slip_type_from_u8_Some [OF ty]
        UTXO_KEY_LENGTH_def)
  also have "\<dots> = subslice 0 59 key"
    by (simp add: slice_cat)
  finally show ?thesis
    using len by (simp add: subslice_def UTXO_KEY_LENGTH_def)
qed

text \<open>
  The key of the UTXO set identifies a slip completely: two slips have the same key
  exactly when they agree on public key, block id, transaction ordinal, slip index, amount
  and type. No two different outputs of the ledger collide in the UTXO set, and a key never
  validates for a slip with another amount or owner.
\<close>

theorem utxoset_key_identifies_slip:
  assumes "slip_wf s" and "slip_wf t"
  shows "slip_get_utxoset_key s = slip_get_utxoset_key t \<longleftrightarrow> slip_wire s = slip_wire t"
proof
  assume eq: "slip_get_utxoset_key s = slip_get_utxoset_key t"
  have "slip_generate_utxoset_key s = slip_generate_utxoset_key t"
    using parse_get_utxoset_key [OF assms(1)] parse_get_utxoset_key [OF assms(2)] eq by simp
  then show "slip_wire s = slip_wire t"
    by (cases s; cases t) (simp add: slip_generate_utxoset_key_def slip_wire_def)
next
  assume "slip_wire s = slip_wire t"
  then have "slip_get_utxoset_key (slip_wire s) = slip_get_utxoset_key (slip_wire t)"
    by simp
  then show "slip_get_utxoset_key s = slip_get_utxoset_key t"
    by (simp add: slip_wire_def slip_get_utxoset_key_def)
qed

theorem utxoset_key_identifies_slip_witness:
  "slip_wf slip_default \<and> slip_wf (slip_default\<lparr>slip_amount := 7\<rparr>) \<and>
   slip_get_utxoset_key slip_default \<noteq> slip_get_utxoset_key (slip_default\<lparr>slip_amount := 7\<rparr>)"
proof -
  have wf: "slip_wf slip_default" "slip_wf (slip_default\<lparr>slip_amount := 7\<rparr>)"
    by (simp_all add: slip_wf_def slip_default_def)
  moreover have "slip_wire slip_default \<noteq> slip_wire (slip_default\<lparr>slip_amount := 7\<rparr>)"
    by (simp add: slip_wire_def slip_default_def)
  ultimately show ?thesis
    using utxoset_key_identifies_slip [OF wf] by simp
qed

section \<open>Spending a slip\<close>

lemma slip_reorg_frame:
  "k \<noteq> slip_utxoset_key s \<Longrightarrow> slip_on_chain_reorganization s u b k = u k"
  by (simp add: slip_on_chain_reorganization_def)

lemma slip_reorg_at:
  "slip_amount s > 0 \<Longrightarrow>
   slip_on_chain_reorganization s u b (slip_utxoset_key s) = (if b then Some True else None)"
  by (simp add: slip_on_chain_reorganization_def)

lemma slip_validate_iff:
  "slip_validate s u \<longleftrightarrow> slip_amount s = 0 \<or> u (slip_utxoset_key s) = Some True"
  by (auto simp: slip_validate_def word_gt_0 split: option.splits)

end
