(* ===== verification/Hop_Ticket.thy ===== *)
theory Hop_Ticket
  imports Slip
begin

text \<open>
  Routing hops (\<^verbatim>\<open>consensus/hop.rs\<close>) and golden tickets (\<^verbatim>\<open>consensus/golden_ticket.rs\<close>):
  signed steps of a transaction's routing path, and proof-of-work solutions with their
  difficulty check.
\<close>

section \<open>Hops\<close>

record hop =
  hop_from :: bytes
  hop_to :: bytes
  hop_sig :: bytes

definition HOP_SIZE :: nat where "HOP_SIZE = 130"

definition hop_default :: hop where
  "hop_default = \<lparr>hop_from = replicate 33 0, hop_to = replicate 33 0, hop_sig = replicate 64 0\<rparr>"

definition hop_wf :: "hop \<Rightarrow> bool" where [wf_defs]:
  "hop_wf h \<longleftrightarrow> length (hop_from h) = 33 \<and> length (hop_to h) = 33 \<and> length (hop_sig h) = 64"

text \<open>The transaction enters only through its signature.\<close>

definition hop_generate :: "ext \<Rightarrow> bytes \<Rightarrow> bytes \<Rightarrow> bytes \<Rightarrow> bytes \<Rightarrow> hop res" where
  "hop_generate X my_private_key my_public_key to_public_key tx_sig =
     rbind (sign X (tx_sig @ to_public_key) my_private_key) (\<lambda>sig.
     Inr (hop_default\<lparr>hop_from := my_public_key, hop_to := to_public_key, hop_sig := sig\<rparr>))"

definition hop_deserialize_from_net :: "bytes \<Rightarrow> hop res" where
  "hop_deserialize_from_net bs =
     (if length bs \<noteq> HOP_SIZE then Inl InvalidInput
      else Inr (hop_default\<lparr>
        hop_from := subslice 0 33 bs, hop_to := subslice 33 66 bs, hop_sig := subslice 66 130 bs\<rparr>))"

definition hop_serialize_for_net :: "hop \<Rightarrow> bytes" where
  "hop_serialize_for_net h = hop_from h @ hop_to h @ hop_sig h"

lemma length_hop_serialize_for_net [codec_simps]:
  "hop_wf h \<Longrightarrow> length (hop_serialize_for_net h) = HOP_SIZE"
  by (simp add: hop_wf_def hop_serialize_for_net_def HOP_SIZE_def)

lemma hop_deserialize_serialize:
  "hop_wf h \<Longrightarrow> hop_deserialize_from_net (hop_serialize_for_net h) = Inr h"
  by (simp add: hop_deserialize_from_net_def hop_serialize_for_net_def hop_wf_def HOP_SIZE_def
      subslice_def hop_default_def)

lemma hop_serialize_deserialize:
  assumes "hop_deserialize_from_net bs = Inr h"
  shows "hop_serialize_for_net h = bs" and "hop_wf h" and "length bs = HOP_SIZE"
proof -
  from assms have len: "length bs = 130" and h: "hop_from h = subslice 0 33 bs"
    "hop_to h = subslice 33 66 bs" "hop_sig h = subslice 66 130 bs"
    by (auto simp: hop_deserialize_from_net_def HOP_SIZE_def split: if_splits)
  show "length bs = HOP_SIZE" using len by (simp add: HOP_SIZE_def)
  show "hop_wf h" using h len by (simp add: hop_wf_def)
  have "hop_serialize_for_net h = subslice 0 130 bs"
    using h by (simp add: hop_serialize_for_net_def slice_cat)
  then show "hop_serialize_for_net h = bs"
    using len by (simp add: subslice_def)
qed

interpretation hop_codec:
  checked_codec hop_serialize_for_net hop_deserialize_from_net HOP_SIZE hop_wf "\<lambda>h. h"
  by unfold_locales
    (auto simp: codec_simps hop_deserialize_serialize dest: hop_serialize_deserialize)

section \<open>Golden tickets\<close>

record golden_ticket =
  gt_target :: bytes
  gt_random :: bytes
  gt_public_key :: bytes

definition gt_wf :: "golden_ticket \<Rightarrow> bool" where [wf_defs]:
  "gt_wf g \<longleftrightarrow> length (gt_target g) = 32 \<and> length (gt_random g) = 32 \<and> length (gt_public_key g) = 33"

definition gt_new :: "bytes \<Rightarrow> bytes \<Rightarrow> bytes \<Rightarrow> golden_ticket" where
  "gt_new target random public_key =
     \<lparr>gt_target = target, gt_random = random, gt_public_key = public_key\<rparr>"

definition gt_create :: "bytes \<Rightarrow> bytes \<Rightarrow> bytes \<Rightarrow> golden_ticket" where
  "gt_create previous_block_hash random_bytes public_key =
     gt_new previous_block_hash random_bytes public_key"

definition gt_deserialize_from_net :: "bytes \<Rightarrow> golden_ticket res" where
  "gt_deserialize_from_net bs =
     (if length bs \<noteq> 97 then Inl Panic
      else Inr (gt_new (subslice 0 32 bs) (subslice 32 64 bs) (subslice 64 97 bs)))"

definition gt_serialize_for_net :: "golden_ticket \<Rightarrow> bytes" where
  "gt_serialize_for_net g = gt_target g @ gt_random g @ gt_public_key g"

text \<open>\<^verbatim>\<open>difficulty as u32\<close> keeps the low 32 bits.\<close>

definition gt_validate_hashing_difficulty :: "ext \<Rightarrow> bytes \<Rightarrow> u64 \<Rightarrow> bool" where
  "gt_validate_hashing_difficulty X solution_hash difficulty =
     (u256_leading_zeros X solution_hash \<ge> unat (ucast difficulty :: u32))"

definition gt_validate :: "ext \<Rightarrow> golden_ticket \<Rightarrow> u64 \<Rightarrow> bool" where
  "gt_validate X g difficulty =
     gt_validate_hashing_difficulty X (hash X (gt_serialize_for_net g)) difficulty"

lemma length_gt_serialize_for_net [codec_simps]:
  "gt_wf g \<Longrightarrow> length (gt_serialize_for_net g) = 97"
  by (simp add: gt_serialize_for_net_def gt_wf_def)

lemma gt_deserialize_serialize:
  "gt_wf g \<Longrightarrow> gt_deserialize_from_net (gt_serialize_for_net g) = Inr g"
  by (simp add: gt_deserialize_from_net_def gt_serialize_for_net_def gt_wf_def subslice_def gt_new_def)

lemma gt_serialize_deserialize:
  assumes "gt_deserialize_from_net bs = Inr g"
  shows "gt_serialize_for_net g = bs" and "gt_wf g" and "length bs = 97"
proof -
  from assms have len: "length bs = 97" and g: "gt_target g = subslice 0 32 bs"
    "gt_random g = subslice 32 64 bs" "gt_public_key g = subslice 64 97 bs"
    by (auto simp: gt_deserialize_from_net_def gt_new_def split: if_splits)
  show "length bs = 97" by (rule len)
  show "gt_wf g" using g len by (simp add: gt_wf_def)
  have "gt_serialize_for_net g = subslice 0 97 bs"
    using g by (simp add: gt_serialize_for_net_def slice_cat)
  then show "gt_serialize_for_net g = bs"
    using len by (simp add: subslice_def)
qed

interpretation gt_codec:
  checked_codec gt_serialize_for_net gt_deserialize_from_net 97 gt_wf "\<lambda>g. g"
  by unfold_locales
    (auto simp: codec_simps gt_deserialize_serialize dest: gt_serialize_deserialize)

lemma unat_ucast_u32: "unat (ucast (d :: u64) :: u32) = unat d mod 2 ^ 32"
  by (simp add: unsigned_ucast_eq take_bit_eq_mod unsigned_take_bit_eq)

text \<open>
  A golden ticket validates at a difficulty exactly when the hash of its 97 bytes, read as
  a big-endian number, is below \<open>2 ^ (256 - d)\<close>, where \<open>d\<close> is the difficulty reduced modulo
  \<open>2 ^ 32\<close> (the cast \<^verbatim>\<open>difficulty as u32\<close>); above 256 nothing validates.
\<close>

theorem gt_validate_iff_below_target:
  assumes "u256_laws X" and "crypto_laws X"
  shows "gt_validate X g difficulty \<longleftrightarrow>
    unat difficulty mod 2 ^ 32 \<le> 256 \<and>
    be_value (hash X (gt_serialize_for_net g)) < 2 ^ (256 - unat difficulty mod 2 ^ 32)"
proof -
  let ?h = "hash X (gt_serialize_for_net g)" and ?d = "unat difficulty mod 2 ^ 32"
  have "length ?h = 32" using assms(2) by (rule length_hash)
  then have "?d \<le> 256 \<Longrightarrow> ?d \<le> u256_leading_zeros X ?h \<longleftrightarrow> be_value ?h < 2 ^ (256 - ?d)"
    using assms(1) unfolding u256_laws_def by blast
  moreover have "u256_leading_zeros X ?h \<le> 256"
    using assms(1) unfolding u256_laws_def by blast
  ultimately show ?thesis
    by (auto simp: gt_validate_def gt_validate_hashing_difficulty_def unat_ucast_u32)
qed

theorem gt_validate_iff_below_target_witness:
  "u256_laws demo_ext \<and> crypto_laws demo_ext \<and>
   gt_validate demo_ext (gt_new (replicate 32 0) (replicate 32 0) (replicate 33 0)) 256"
proof -
  have h: "hash demo_ext (gt_serialize_for_net
      (gt_new (replicate 32 0) (replicate 32 0) (replicate 33 0))) = replicate 32 0"
    by (simp add: hash_def demo_ext_def demo_hash_def gt_serialize_for_net_def gt_new_def)
  have "be_value (replicate 32 0) = 0"
    by (simp add: be_value_def eval_nat_numeral)
  with gt_validate_iff_below_target [OF u256_laws_demo crypto_laws_demo,
      of "gt_new (replicate 32 0) (replicate 32 0) (replicate 33 0)" 256]
  show ?thesis
    by (simp add: u256_laws_demo crypto_laws_demo h)
qed

end
