(* ===== verification/Transaction.thy ===== *)
theory Transaction
  imports Hop_Ticket
begin

text \<open>
  Transactions (\<^verbatim>\<open>consensus/transaction.rs\<close>) apart from \<^verbatim>\<open>validate\<close>: the record, the
  constructors, the wire format, hashing and signing, fees, routing work, the choice of the
  winning routing node, and the effect on the UTXO set.
\<close>

section \<open>Data\<close>

datatype TransactionType =
  TT_Normal | TT_Fee | TT_GoldenTicket | TT_ATR | TT_Vip | TT_SPV | TT_Issuance | TT_BlockStake
| TT_Bound

fun tx_type_to_u8 :: "TransactionType \<Rightarrow> u8" where
  "tx_type_to_u8 TT_Normal = 0"
| "tx_type_to_u8 TT_Fee = 1"
| "tx_type_to_u8 TT_GoldenTicket = 2"
| "tx_type_to_u8 TT_ATR = 3"
| "tx_type_to_u8 TT_Vip = 4"
| "tx_type_to_u8 TT_SPV = 5"
| "tx_type_to_u8 TT_Issuance = 6"
| "tx_type_to_u8 TT_BlockStake = 7"
| "tx_type_to_u8 TT_Bound = 8"

definition tx_type_from_u8 :: "u8 \<Rightarrow> TransactionType option" where
  "tx_type_from_u8 b =
     (if b = 0 then Some TT_Normal else if b = 1 then Some TT_Fee
      else if b = 2 then Some TT_GoldenTicket else if b = 3 then Some TT_ATR
      else if b = 4 then Some TT_Vip else if b = 5 then Some TT_SPV
      else if b = 6 then Some TT_Issuance else if b = 7 then Some TT_BlockStake
      else if b = 8 then Some TT_Bound else None)"

record transaction =
  tx_timestamp :: u64
  tx_from :: "slip list"
  tx_to :: "slip list"
  tx_data :: bytes
  tx_transaction_type :: TransactionType
  tx_txs_replacements :: u32
  tx_signature :: bytes
  tx_path :: "hop list"
  tx_hash_for_signature :: "bytes option"
  tx_total_in :: u64
  tx_total_out :: u64
  tx_total_fees :: u64
  tx_total_work_for_me :: u64
  tx_cumulative_fees :: u64

definition TRANSACTION_SIZE :: nat where "TRANSACTION_SIZE = 93"

definition tx_default :: transaction where
  "tx_default = \<lparr>
     tx_timestamp = 0, tx_from = [], tx_to = [], tx_data = [], tx_transaction_type = TT_Normal,
     tx_txs_replacements = 1, tx_signature = replicate 64 0, tx_path = [],
     tx_hash_for_signature = None, tx_total_in = 0, tx_total_out = 0, tx_total_fees = 0,
     tx_total_work_for_me = 0, tx_cumulative_fees = 0 \<rparr>"

definition tx_wf :: "transaction \<Rightarrow> bool" where [wf_defs]:
  "tx_wf tx \<longleftrightarrow> list_all slip_wf (tx_from tx) \<and> list_all slip_wf (tx_to tx) \<and>
     list_all hop_wf (tx_path tx) \<and> length (tx_signature tx) = 64"

section \<open>Building transactions\<close>

definition tx_add_hop :: "ext \<Rightarrow> bytes \<Rightarrow> bytes \<Rightarrow> bytes \<Rightarrow> transaction \<Rightarrow> transaction res" where
  "tx_add_hop X my_private_key my_public_key to_public_key tx =
     (if my_public_key = to_public_key then Inl Panic
      else rbind (hop_generate X my_private_key my_public_key to_public_key (tx_signature tx)) (\<lambda>h.
        Inr (tx\<lparr>tx_path := tx_path tx @ [h]\<rparr>)))"

definition tx_add_from_slip :: "slip \<Rightarrow> transaction \<Rightarrow> transaction" where
  "tx_add_from_slip input_slip tx =
     (if length (tx_from tx) < 255 then tx\<lparr>tx_from := tx_from tx @ [input_slip]\<rparr> else tx)"

definition tx_add_to_slip :: "slip \<Rightarrow> transaction \<Rightarrow> transaction" where
  "tx_add_to_slip output_slip tx =
     (if length (tx_to tx) < 255 then tx\<lparr>tx_to := tx_to tx @ [output_slip]\<rparr> else tx)"

definition tx_create_issuance_transaction :: "bytes \<Rightarrow> u64 \<Rightarrow> transaction" where
  "tx_create_issuance_transaction to_public_key with_amount =
     tx_add_to_slip
       (slip_default\<lparr>slip_public_key := to_public_key, slip_amount := with_amount,
          slip_slip_type := ST_Normal\<rparr>)
       (tx_default\<lparr>tx_transaction_type := TT_Issuance\<rparr>)"

section \<open>The wire format\<close>

definition tx_serialize_for_net_with_hop :: "transaction \<Rightarrow> hop option \<Rightarrow> bytes" where
  "tx_serialize_for_net_with_hop tx opt_hop =
     (let path_len = length (tx_path tx) + (if opt_hop \<noteq> None then 1 else 0) in
      if length (tx_from tx) > 255 then []
      else if length (tx_to tx) > 255 then []
      else
        (let inputs = concat (map slip_serialize_for_net (tx_from tx));
             outputs = concat (map slip_serialize_for_net (tx_to tx));
             hops = concat (map hop_serialize_for_net (tx_path tx));
             buffer =
               to_be (of_nat (length (tx_from tx)) :: u32) @
               to_be (of_nat (length (tx_to tx)) :: u32) @
               to_be (of_nat (length (tx_data tx)) :: u32) @
               to_be (of_nat path_len :: u32) @
               tx_signature tx @
               to_be (tx_timestamp tx) @
               to_be (tx_txs_replacements tx) @
               to_be (tx_type_to_u8 (tx_transaction_type tx)) @
               inputs @ outputs @ tx_data tx @ hops
         in case opt_hop of Some h \<Rightarrow> buffer @ hop_serialize_for_net h | None \<Rightarrow> buffer))"

definition tx_serialize_for_net :: "transaction \<Rightarrow> bytes" where
  "tx_serialize_for_net tx = tx_serialize_for_net_with_hop tx None"

definition tx_get_serialized_size :: "transaction \<Rightarrow> nat" where
  "tx_get_serialized_size tx =
     TRANSACTION_SIZE + SLIP_SIZE * length (tx_from tx) + SLIP_SIZE * length (tx_to tx) +
     HOP_SIZE * length (tx_path tx) + length (tx_data tx)"

definition tx_deserialize_from_net :: "bytes \<Rightarrow> transaction res" where
  "tx_deserialize_from_net bs =
     (if length bs < TRANSACTION_SIZE then Inl InvalidData
      else
        (let inputs_len = (from_be (subslice 0 4 bs) :: u32) in
         if inputs_len > 255 then Inl InvalidData
         else
        (let outputs_len = (from_be (subslice 4 8 bs) :: u32) in
         if outputs_len > 255 then Inl InvalidData
         else
        (let message_len = unat (from_be (subslice 8 12 bs) :: u32);
             path_len = unat (from_be (subslice 12 16 bs) :: u32);
             signature = subslice 16 80 bs;
             timestamp = (from_be (subslice 80 88 bs) :: u64);
             replaces_txs = (from_be (subslice 88 92 bs) :: u32)
         in rbind (ok_or InvalidData (tx_type_from_u8 (bs ! 92))) (\<lambda>transaction_type.
        (let start_of_inputs = TRANSACTION_SIZE;
             start_of_outputs = start_of_inputs + unat inputs_len * SLIP_SIZE;
             start_of_message = start_of_outputs + unat outputs_len * SLIP_SIZE;
             start_of_path = start_of_message + message_len
         in
         rbind (decode_seq slip_deserialize_from_net SLIP_SIZE start_of_inputs (unat inputs_len) bs)
           (\<lambda>inputs.
         rbind (decode_seq slip_deserialize_from_net SLIP_SIZE start_of_outputs (unat outputs_len) bs)
           (\<lambda>outputs.
         rbind (slice_r start_of_message (start_of_message + message_len) bs) (\<lambda>message.
         rbind (decode_seq hop_deserialize_from_net HOP_SIZE start_of_path path_len bs) (\<lambda>path.
         Inr (tx_default\<lparr>
           tx_timestamp := timestamp, tx_from := inputs, tx_to := outputs, tx_data := message,
           tx_txs_replacements := replaces_txs, tx_transaction_type := transaction_type,
           tx_signature := signature, tx_path := path\<rparr>)))))))))))"

definition tx_serialize_for_signature :: "transaction \<Rightarrow> bytes" where
  "tx_serialize_for_signature tx =
     to_be (tx_timestamp tx) @
     concat (map slip_serialize_input_for_signature (tx_from tx)) @
     concat (map slip_serialize_output_for_signature (tx_to tx)) @
     to_be (tx_txs_replacements tx) @
     to_be (ucast (tx_type_to_u8 (tx_transaction_type tx)) :: u32) @
     tx_data tx"

definition tx_sign :: "ext \<Rightarrow> bytes \<Rightarrow> transaction \<Rightarrow> transaction res" where
  "tx_sign X private_key tx =
     (let tx1 = tx\<lparr>tx_to := map (\<lambda>(i, output). output\<lparr>slip_slip_index := of_nat i\<rparr>)
                            (enumerate 0 (tx_to tx))\<rparr>;
          buffer = tx_serialize_for_signature tx1;
          tx2 = tx1\<lparr>tx_hash_for_signature := Some (hash X buffer)\<rparr>
      in rbind (sign X buffer private_key) (\<lambda>sig. Inr (tx2\<lparr>tx_signature := sig\<rparr>)))"

section \<open>Kinds\<close>

definition tx_is_fee_transaction :: "transaction \<Rightarrow> bool" where
  "tx_is_fee_transaction tx = (tx_transaction_type tx = TT_Fee)"

definition tx_is_staking_transaction :: "transaction \<Rightarrow> bool" where
  "tx_is_staking_transaction tx = (tx_transaction_type tx = TT_BlockStake)"

definition tx_is_atr_transaction :: "transaction \<Rightarrow> bool" where
  "tx_is_atr_transaction tx = (tx_transaction_type tx = TT_ATR)"

definition tx_is_normal_transaction :: "transaction \<Rightarrow> bool" where
  "tx_is_normal_transaction tx = (tx_transaction_type tx = TT_Normal)"

definition tx_is_golden_ticket :: "transaction \<Rightarrow> bool" where
  "tx_is_golden_ticket tx = (tx_transaction_type tx = TT_GoldenTicket)"

definition tx_is_issuance_transaction :: "transaction \<Rightarrow> bool" where
  "tx_is_issuance_transaction tx = (tx_transaction_type tx = TT_Issuance)"

definition tx_is_from :: "bytes \<Rightarrow> transaction \<Rightarrow> bool" where
  "tx_is_from public_key tx = list_ex (\<lambda>s. slip_public_key s = public_key) (tx_from tx)"

definition tx_is_to :: "bytes \<Rightarrow> transaction \<Rightarrow> bool" where
  "tx_is_to public_key tx = list_ex (\<lambda>s. slip_public_key s = public_key) (tx_to tx)"

definition tx_is_in_path :: "bytes \<Rightarrow> transaction \<Rightarrow> bool" where
  "tx_is_in_path public_key tx =
     (if tx_is_from public_key tx then True
      else list_ex (\<lambda>h. hop_from h = public_key) (tx_path tx))"

definition tx_is_nft :: "slip list \<Rightarrow> nat \<Rightarrow> bool" where
  "tx_is_nft slips i =
     (if i + 2 \<ge> length slips then False
      else slip_slip_type (slips ! i) = ST_Bound \<and>
           slip_slip_type (slips ! (i + 2)) = ST_Bound \<and>
           slip_slip_type (slips ! (i + 1)) \<noteq> ST_Bound)"

section \<open>Fees, hashes and routing work\<close>

definition slip_counted_amount :: "slip \<Rightarrow> u64" where
  "slip_counted_amount s = (if slip_slip_type s = ST_Bound then 0 else slip_amount s)"

text \<open>
  The guard on the outputs is written as in the source, with \<^verbatim>\<open>||\<close>; it holds for every slip
  type.
\<close>

definition tx_stamp_output :: "u64 \<Rightarrow> u64 \<Rightarrow> nat \<Rightarrow> slip \<Rightarrow> slip" where
  "tx_stamp_output tx_index block_id index s =
     slip_generate_utxoset_key
       (if slip_slip_type s \<noteq> ST_ATR \<or> slip_slip_type s \<noteq> ST_Bound
        then s\<lparr>slip_block_id := block_id, slip_tx_ordinal := tx_index, slip_slip_index := of_nat index\<rparr>
        else s)"

definition tx_generate_total_fees :: "u64 \<Rightarrow> u64 \<Rightarrow> transaction \<Rightarrow> transaction" where
  "tx_generate_total_fees tx_index block_id tx =
     (let inputs = map slip_generate_utxoset_key (tx_from tx);
          nolan_in = sum_list (map slip_counted_amount inputs);
          outputs = map (\<lambda>(index, s). tx_stamp_output tx_index block_id index s)
                      (enumerate 0 (tx_to tx));
          nolan_out = sum_list (map slip_counted_amount outputs)
      in tx\<lparr>tx_from := inputs, tx_to := outputs, tx_total_in := nolan_in, tx_total_out := nolan_out,
           tx_total_fees := (if nolan_in > nolan_out then nolan_in - nolan_out else 0)\<rparr>)"

definition tx_generate_cumulative_fees :: "u64 \<Rightarrow> transaction \<Rightarrow> u64 \<times> transaction" where
  "tx_generate_cumulative_fees cumulative_fees tx =
     (let c = cumulative_fees + tx_total_fees tx in (c, tx\<lparr>tx_cumulative_fees := c\<rparr>))"

text \<open>The loop over hops 1.. with the hop before it; \<open>None\<close> when the path is broken.\<close>

fun routing_work_loop :: "hop \<Rightarrow> hop list \<Rightarrow> u64 \<Rightarrow> u64 option" where
  "routing_work_loop prev [] work = Some work"
| "routing_work_loop prev (h # hs) work =
     (if hop_from h \<noteq> hop_to prev then None
      else routing_work_loop h hs (work - work div 2))"

definition tx_generate_total_work :: "bytes \<Rightarrow> transaction \<Rightarrow> transaction" where
  "tx_generate_total_work public_key tx =
     (case tx_path tx of
        [] \<Rightarrow> tx\<lparr>tx_total_work_for_me := 0\<rparr>
      | first # rest \<Rightarrow>
          if hop_to (last (tx_path tx)) \<noteq> public_key then tx\<lparr>tx_total_work_for_me := 0\<rparr>
          else (case routing_work_loop first rest (tx_total_fees tx) of
                  None \<Rightarrow> tx\<lparr>tx_total_work_for_me := 0\<rparr>
                | Some w \<Rightarrow> tx\<lparr>tx_total_work_for_me := w\<rparr>))"

definition tx_generate_hash_for_signature :: "ext \<Rightarrow> transaction \<Rightarrow> transaction" where
  "tx_generate_hash_for_signature X tx =
     (if tx_transaction_type tx = TT_SPV
      then tx\<lparr>tx_hash_for_signature := Some (subslice 0 32 (tx_signature tx))\<rparr>
      else tx\<lparr>tx_hash_for_signature := Some (hash X (tx_serialize_for_signature tx))\<rparr>)"

definition tx_generate :: "ext \<Rightarrow> bytes \<Rightarrow> u64 \<Rightarrow> u64 \<Rightarrow> transaction \<Rightarrow> transaction" where
  "tx_generate X public_key tx_index block_id tx =
     tx_generate_total_work public_key
       (tx_generate_total_fees tx_index block_id
         (tx_generate_hash_for_signature X tx))"

text \<open>
  \<open>work_by_hop n agg this\<close> is the list the loop pushes for \<open>n\<close> further hops, after
  aggregate \<open>agg\<close> and hop work \<open>this\<close>.
\<close>

fun work_by_hop :: "nat \<Rightarrow> u64 \<Rightarrow> u64 \<Rightarrow> u64 list" where
  "work_by_hop 0 agg this = []"
| "work_by_hop (Suc n) agg this =
     (let this' = this div 2; agg' = agg + this' in agg' # work_by_hop n agg' this')"

fun first_covering :: "u64 \<Rightarrow> u64 list \<Rightarrow> nat option" where
  "first_covering w [] = None"
| "first_covering w (x # xs) = (if w \<le> x then Some 0 else map_option Suc (first_covering w xs))"

text \<open>Division by zero in \<^verbatim>\<open>div_mod\<close>, a missing hop and \<^verbatim>\<open>unreachable!\<close> are panics.\<close>

definition tx_get_winning_routing_node :: "ext \<Rightarrow> bytes \<Rightarrow> transaction \<Rightarrow> bytes res" where
  "tx_get_winning_routing_node X random_hash tx =
     (if tx_path tx = [] then
        (if tx_from tx \<noteq> [] then Inr (slip_public_key (tx_from tx ! 0)) else Inr (replicate 33 0))
      else if tx_total_fees tx = 0 then Inr (replicate 33 0)
      else
        (let works = tx_total_fees tx #
               work_by_hop (length (tx_path tx) - 1) (tx_total_fees tx) (tx_total_fees tx);
             aggregate = last works
         in if aggregate = 0 then Inl Panic
            else (case first_covering (u256_rem_low_u64 X random_hash (to_be aggregate)) works of
                    Some i \<Rightarrow> rbind (index_r (tx_path tx) i) (\<lambda>h. Inr (hop_to h))
                  | None \<Rightarrow> Inl Panic)))"

section \<open>Effect on the UTXO set\<close>

definition tx_on_chain_reorganization :: "transaction \<Rightarrow> utxoset \<Rightarrow> bool \<Rightarrow> utxoset" where
  "tx_on_chain_reorganization tx utxoset longest_chain =
     (let input_slip_spendable = (if longest_chain then False else True);
          output_slip_spendable = (if longest_chain then True else False);
          u1 = fold (\<lambda>s u. slip_on_chain_reorganization s u input_slip_spendable) (tx_from tx) utxoset
      in fold (\<lambda>s u. slip_on_chain_reorganization s u output_slip_spendable) (tx_to tx) u1)"

definition tx_delete :: "transaction \<Rightarrow> utxoset \<Rightarrow> bool \<times> utxoset" where
  "tx_delete tx utxoset =
     (True, fold (\<lambda>s u. snd (slip_delete s u)) (tx_to tx)
              (fold (\<lambda>s u. snd (slip_delete s u)) (tx_from tx) utxoset))"

section \<open>Rebroadcasting\<close>

definition tx_create_rebroadcast_transaction ::
    "transaction \<Rightarrow> slip \<Rightarrow> slip \<Rightarrow> transaction res" where
  "tx_create_rebroadcast_transaction transaction_to_rebroadcast to_slip from_slip =
     (let t0 = tx_default\<lparr>tx_transaction_type := TT_ATR\<rparr>;
          t1 = (if tx_transaction_type transaction_to_rebroadcast = TT_ATR
                then t0\<lparr>tx_data := tx_data transaction_to_rebroadcast\<rparr>
                else t0\<lparr>tx_data := tx_serialize_for_net transaction_to_rebroadcast\<rparr>);
          t2 = tx_add_from_slip from_slip t1
      in if slip_slip_type to_slip \<noteq> ST_ATR then Inl Panic
         else Inr ((tx_generate_total_fees 0 0 (tx_add_to_slip to_slip t2))
                     \<lparr>tx_signature := tx_signature transaction_to_rebroadcast\<rparr>))"

definition tx_create_rebroadcast_bound_transaction ::
    "transaction \<Rightarrow> slip \<Rightarrow> slip \<Rightarrow> slip \<Rightarrow> transaction" where
  "tx_create_rebroadcast_bound_transaction transaction_to_rebroadcast slip1 slip2 slip3 =
     (let t0 = tx_default\<lparr>tx_transaction_type := TT_ATR\<rparr>;
          t1 = t0\<lparr>tx_data := (if tx_transaction_type transaction_to_rebroadcast = TT_ATR
                               then tx_data transaction_to_rebroadcast
                               else tx_serialize_for_net transaction_to_rebroadcast)\<rparr>;
          t2 = tx_add_from_slip slip3 (tx_add_from_slip slip2 (tx_add_from_slip slip1 t1));
          t3 = tx_add_to_slip slip1 t2;
          t4 = tx_add_to_slip (slip2\<lparr>slip_slip_type := ST_ATR\<rparr>) t3;
          t5 = tx_add_to_slip slip3 t4
      in (tx_generate_total_fees 0 0 t5)\<lparr>tx_signature := tx_signature transaction_to_rebroadcast\<rparr>)"

end
