(* ===== verification/Merkle.thy ===== *)
theory Merkle
  imports Transaction
begin

text \<open>
  The transaction Merkle tree (\<^verbatim>\<open>consensus/merkle.rs\<close>): its construction from the
  transactions of a block, cloning, traversal and pruning. The tree is refined to the root of
  a list of leaf hashes (\<open>root_of\<close>), and the root is shown to commit to the leaves: two
  lists of leaves of the same length with the same root are equal, unless two of the byte
  strings hashed on the way collide.
\<close>

section \<open>Data\<close>

datatype TraverseMode = DepthFist | BreadthFirst

datatype NodeType =
  Node (node_left: "MerkleTreeNode option") (node_right: "MerkleTreeNode option")
| TransactionNode nat
and MerkleTreeNode =
  MerkleTreeNode (mt_node_type: NodeType) (mt_hash: "bytes option") (mt_count: nat)
    (mt_is_spv: bool)

text \<open>A \<^verbatim>\<open>MerkleTree\<close> is its root node.\<close>

type_synonym MerkleTree = MerkleTreeNode

definition merkle_len :: "MerkleTree \<Rightarrow> nat" where
  "merkle_len t = mt_count t"

definition get_root_hash :: "MerkleTree \<Rightarrow> bytes res" where
  "get_root_hash t = ok_or Panic (mt_hash t)"

section \<open>Construction\<close>

definition calculate_child_count :: "MerkleTreeNode option \<Rightarrow> MerkleTreeNode option \<Rightarrow> nat" where
  "calculate_child_count left right =
     1 + (case left of Some l \<Rightarrow> mt_count l | None \<Rightarrow> 0)
       + (case right of Some r \<Rightarrow> mt_count r | None \<Rightarrow> 0)"

definition compute_combined_hash :: "ext \<Rightarrow> bytes option \<Rightarrow> bytes option \<Rightarrow> bytes res" where
  "compute_combined_hash X left_hash right_hash =
     rbind (ok_or Panic left_hash) (\<lambda>l.
     rbind (ok_or Panic right_hash) (\<lambda>r. Inr (hash X (l @ r))))"

definition merkle_generate_hash :: "ext \<Rightarrow> MerkleTreeNode \<Rightarrow> MerkleTreeNode res" where
  "merkle_generate_hash X node =
     (if mt_hash node \<noteq> None then Inr node
      else case mt_node_type node of
        Node left right \<Rightarrow>
          rbind (ok_or Panic left) (\<lambda>l.
          rbind (ok_or Panic (mt_hash l)) (\<lambda>lh.
          rbind (ok_or Panic right) (\<lambda>r.
          rbind (ok_or Panic (mt_hash r)) (\<lambda>rh.
            Inr (MerkleTreeNode (Node left right) (Some (hash X (lh @ rh)))
              (mt_count node) (mt_is_spv node))))))
      | TransactionNode _ \<Rightarrow> Inr node)"

text \<open>The leaves: one per transaction, or one per replaced transaction of an SPV placeholder.\<close>

definition tx_leaves :: "nat \<Rightarrow> transaction \<Rightarrow> MerkleTreeNode list" where
  "tx_leaves index tx =
     (if tx_txs_replacements tx > 1
      then replicate (unat (tx_txs_replacements tx))
        (MerkleTreeNode (TransactionNode index)
          (Some (case tx_hash_for_signature tx of Some h \<Rightarrow> h | None \<Rightarrow> replicate 32 0)) 1 True)
      else [MerkleTreeNode (TransactionNode index) (tx_hash_for_signature tx) 1 False])"

definition merkle_leaves :: "transaction list \<Rightarrow> MerkleTreeNode list" where
  "merkle_leaves txs = concat (map (\<lambda>(index, tx). tx_leaves index tx) (enumerate 0 txs))"

fun pair_leaves :: "MerkleTreeNode list \<Rightarrow> MerkleTreeNode list" where
  "pair_leaves [] = []"
| "pair_leaves [left] =
     [MerkleTreeNode (Node (Some left) None) (mt_hash left)
        (calculate_child_count (Some left) None) False]"
| "pair_leaves (left # right # leaves) =
     MerkleTreeNode (Node (Some left) (Some right)) None
       (calculate_child_count (Some left) (Some right)) False # pair_leaves leaves"

fun generate_hashes :: "ext \<Rightarrow> MerkleTreeNode list \<Rightarrow> MerkleTreeNode list res" where
  "generate_hashes X [] = Inr []"
| "generate_hashes X (n # ns) =
     rbind (merkle_generate_hash X n) (\<lambda>n'.
     rbind (generate_hashes X ns) (\<lambda>ns'. Inr (n' # ns')))"

lemma length_pair_leaves: "length (pair_leaves ls) = (length ls + 1) div 2"
  by (induction ls rule: pair_leaves.induct) auto

lemma length_generate_hashes: "generate_hashes X ns = Inr ms \<Longrightarrow> length ms = length ns"
  by (induction ns arbitrary: ms) auto

function merkle_combine :: "ext \<Rightarrow> MerkleTreeNode list \<Rightarrow> MerkleTreeNode list res" where
  "merkle_combine X leaves =
     (if length leaves > 1
      then rbind (generate_hashes X (pair_leaves leaves)) (merkle_combine X)
      else Inr leaves)"
  by pat_completeness auto
termination
  by (relation "measure (length \<circ> snd)")
    (auto dest!: length_generate_hashes simp: length_pair_leaves)

declare merkle_combine.simps [simp del]

definition merkle_generate :: "ext \<Rightarrow> transaction list \<Rightarrow> MerkleTree option res" where
  "merkle_generate X transactions =
     (if transactions = [] then Inr None
      else rbind (merkle_combine X (merkle_leaves transactions)) (\<lambda>leaves.
        rbind (index_r leaves 0) (\<lambda>root. Inr (Some root))))"

section \<open>Cloning, traversal, pruning\<close>

fun clone_node :: "MerkleTreeNode option \<Rightarrow> MerkleTreeNode option" where
  "clone_node None = None"
| "clone_node (Some (MerkleTreeNode (Node left right) h c spv)) =
     Some (MerkleTreeNode (Node (clone_node left) (clone_node right)) h c spv)"
| "clone_node (Some (MerkleTreeNode (TransactionNode index) h c spv)) =
     Some (MerkleTreeNode (TransactionNode index) h c spv)"

definition create_clone :: "MerkleTree \<Rightarrow> MerkleTree res" where
  "create_clone t = ok_or Panic (clone_node (Some t))"

text \<open>The nodes in the order in which \<^verbatim>\<open>read_func\<close> is called on them.\<close>

fun traverse_node :: "TraverseMode \<Rightarrow> MerkleTreeNode \<Rightarrow> MerkleTreeNode list" where
  "traverse_node mode (MerkleTreeNode (Node left right) h c spv) =
     (if mode = BreadthFirst then [MerkleTreeNode (Node left right) h c spv] else []) @
     (case left of Some l \<Rightarrow> traverse_node mode l | None \<Rightarrow> []) @
     (case right of Some r \<Rightarrow> traverse_node mode r | None \<Rightarrow> []) @
     (if mode = DepthFist then [MerkleTreeNode (Node left right) h c spv] else [])"
| "traverse_node mode (MerkleTreeNode (TransactionNode index) h c spv) =
     (if mode = BreadthFirst then [MerkleTreeNode (TransactionNode index) h c spv] else []) @
     (if mode = DepthFist then [MerkleTreeNode (TransactionNode index) h c spv] else [])"

text \<open>
  The updated node and whether its subtree is pruned. The Rust code borrows \<^verbatim>\<open>left\<close> and
  \<^verbatim>\<open>right\<close> mutably, so the count is taken of the pruned children.
\<close>

fun prune_node ::
  "(nat \<Rightarrow> bool) \<Rightarrow> MerkleTreeNode option \<Rightarrow> MerkleTreeNode option \<times> bool" where
  "prune_node f None = (None, True)"
| "prune_node f (Some (MerkleTreeNode (Node left right) h c spv)) =
     (let (left', pl) = prune_node f left;
          (right', pr) = prune_node f right
      in if pl \<and> pr then (Some (MerkleTreeNode (Node None None) h 1 spv), True)
         else (Some (MerkleTreeNode (Node left' right') h (calculate_child_count left' right') spv),
               False))"
| "prune_node f (Some (MerkleTreeNode (TransactionNode index) h c spv)) =
     (Some (MerkleTreeNode (TransactionNode index) h c spv), f index)"

definition merkle_prune :: "(nat \<Rightarrow> bool) \<Rightarrow> MerkleTree \<Rightarrow> MerkleTree" where
  "merkle_prune f t = (case fst (prune_node f (Some t)) of Some t' \<Rightarrow> t' | None \<Rightarrow> t)"

section \<open>The root as a function of the leaf hashes\<close>

fun hash_level :: "ext \<Rightarrow> bytes list \<Rightarrow> bytes list" where
  "hash_level X [] = []"
| "hash_level X [h] = [h]"
| "hash_level X (a # b # hs) = hash X (a @ b) # hash_level X hs"

lemma length_hash_level: "length (hash_level X hs) = (length hs + 1) div 2"
  by (induction X hs rule: hash_level.induct) auto

function root_of :: "ext \<Rightarrow> bytes list \<Rightarrow> bytes" where
  "root_of X hs = (if length hs > 1 then root_of X (hash_level X hs) else hd hs)"
  by pat_completeness auto
termination
  by (relation "measure (length \<circ> snd)") (auto simp: length_hash_level)

declare root_of.simps [simp del]

lemma root_of_single: "length hs \<le> 1 \<Longrightarrow> root_of X hs = hd hs"
  by (subst root_of.simps) simp

text \<open>The byte strings that are hashed on the way to the root.\<close>

fun level_inputs :: "bytes list \<Rightarrow> bytes list" where
  "level_inputs (a # b # hs) = (a @ b) # level_inputs hs"
| "level_inputs hs = []"

function root_inputs :: "ext \<Rightarrow> bytes list \<Rightarrow> bytes list" where
  "root_inputs X hs =
     (if length hs > 1 then level_inputs hs @ root_inputs X (hash_level X hs) else [])"
  by pat_completeness auto
termination
  by (relation "measure (length \<circ> snd)") (auto simp: length_hash_level)

declare root_inputs.simps [simp del]

definition leaf_hashes :: "transaction list \<Rightarrow> bytes option list" where
  "leaf_hashes txs = map mt_hash (merkle_leaves txs)"

lemma compute_combined_hash_Some [simp]:
  "compute_combined_hash X (Some a) (Some b) = Inr (hash X (a @ b))"
  by (simp add: compute_combined_hash_def)

lemma generate_hash_pair:
  "merkle_generate_hash X (MerkleTreeNode (Node (Some l) (Some r)) None c s) =
     rbind (compute_combined_hash X (mt_hash l) (mt_hash r)) (\<lambda>h.
       Inr (MerkleTreeNode (Node (Some l) (Some r)) (Some h) c s))"
  by (simp add: merkle_generate_hash_def compute_combined_hash_def rbind_assoc)

lemma generate_hash_single:
  "merkle_generate_hash X (MerkleTreeNode n (Some h) c s) = Inr (MerkleTreeNode n (Some h) c s)"
  "merkle_generate_hash X (MerkleTreeNode (Node left None) None c s) = Inl Panic"
  by (cases left; cases "mt_hash (the left)"; simp add: merkle_generate_hash_def)+

lemmas generate_hash_simps = generate_hash_pair generate_hash_single calculate_child_count_def

lemma generate_hashes_level:
  "map mt_hash ls = map Some hs \<Longrightarrow>
   \<exists>ms. generate_hashes X (pair_leaves ls) = Inr ms \<and> map mt_hash ms = map Some (hash_level X hs)"
proof (induction ls arbitrary: hs rule: pair_leaves.induct)
  case (2 left)
  then show ?case by (cases hs) (auto simp: generate_hash_simps)
next
  case (3 left right ls)
  then obtain a b hs' where hs: "hs = a # b # hs'" "mt_hash left = Some a" "mt_hash right = Some b"
    and "map mt_hash ls = map Some hs'"
    by (cases hs; cases "tl hs") auto
  with "3.IH" [of hs'] show ?case
    by (auto simp: generate_hash_simps)
qed simp

lemma compute_combined_hash_None:
  "a = None \<or> b = None \<Longrightarrow> compute_combined_hash X a b = Inl Panic"
  by (cases a; cases b) (auto simp: compute_combined_hash_def)

lemma generate_hashes_Panic:
  "None \<in> set (map mt_hash ls) \<Longrightarrow> generate_hashes X (pair_leaves ls) = Inl Panic"
proof (induction ls rule: pair_leaves.induct)
  case (3 left right ls)
  show ?case
  proof (cases "mt_hash left = None \<or> mt_hash right = None")
    case True
    then show ?thesis by (simp add: generate_hash_simps compute_combined_hash_None)
  next
    case False
    then obtain a b where "mt_hash left = Some a" "mt_hash right = Some b" by auto
    with 3 show ?thesis by (auto simp: generate_hash_simps)
  qed
next
  case (2 left)
  then have "mt_hash left = None" by simp
  then show ?case by (simp add: generate_hash_simps)
qed simp

lemma merkle_combine_root:
  "map mt_hash ls = map Some hs \<Longrightarrow> ls \<noteq> [] \<Longrightarrow>
   \<exists>t. merkle_combine X ls = Inr [t] \<and> mt_hash t = Some (root_of X hs)"
proof (induction X hs arbitrary: ls rule: root_of.induct)
  case (1 X hs)
  have len: "length ls = length hs"
    using "1.prems"(1) by (metis length_map)
  show ?case
  proof (cases "length hs > 1")
    case True
    obtain ms where ms: "generate_hashes X (pair_leaves ls) = Inr ms"
      "map mt_hash ms = map Some (hash_level X hs)"
      using generate_hashes_level [OF "1.prems"(1)] by blast
    moreover have "length ms = (length ls + 1) div 2"
      using ms(1) by (simp add: length_generate_hashes length_pair_leaves)
    then have "ms \<noteq> []" using "1.prems"(2) by (cases ls) auto
    ultimately show ?thesis
      using "1.IH" [OF True, of ms] True len
      by (simp add: merkle_combine.simps [of X ls] root_of.simps [of X hs])
  next
    case False
    with len "1.prems" obtain l h where "ls = [l]" "hs = [h]" "mt_hash l = Some h"
      by (cases ls; cases hs) auto
    then show ?thesis by (simp add: merkle_combine.simps root_of.simps)
  qed
qed

lemma leaf_hashes_Nil [simp]: "leaf_hashes txs = [] \<longleftrightarrow> txs = []"
proof (cases txs)
  case (Cons tx txs')
  have "tx_leaves 0 tx \<noteq> []"
    by (auto simp: tx_leaves_def word_less_nat_alt)
  then show ?thesis
    using Cons by (simp add: leaf_hashes_def merkle_leaves_def)
qed (simp add: leaf_hashes_def merkle_leaves_def)

lemma merkle_leaves_Nil [simp]: "merkle_leaves txs = [] \<longleftrightarrow> txs = []"
  using leaf_hashes_Nil [of txs] by (simp add: leaf_hashes_def)

text \<open>
  The Merkle tree is total up to missing transaction hashes: no transactions give no tree;
  when every leaf has a hash the tree is built and its root hash is the root of the list of
  leaf hashes; with two or more leaves, one without a hash makes the construction panic.
\<close>

theorem merkle_generate_outcome:
  "merkle_generate X [] = Inr None \<and>
   (txs \<noteq> [] \<and> leaf_hashes txs = map Some hs \<longrightarrow>
      (\<exists>t. merkle_generate X txs = Inr (Some t) \<and> get_root_hash t = Inr (root_of X hs))) \<and>
   (length (leaf_hashes txs) \<ge> 2 \<and> None \<in> set (leaf_hashes txs) \<longrightarrow>
      merkle_generate X txs = Inl Panic)"
proof (intro conjI impI)
  show "merkle_generate X [] = Inr None" by (simp add: merkle_generate_def)
next
  assume "txs \<noteq> [] \<and> leaf_hashes txs = map Some hs"
  then show "\<exists>t. merkle_generate X txs = Inr (Some t) \<and> get_root_hash t = Inr (root_of X hs)"
    using merkle_combine_root [of "merkle_leaves txs" hs X]
    by (auto simp: leaf_hashes_def merkle_generate_def get_root_hash_def index_r_def)
next
  assume *: "length (leaf_hashes txs) \<ge> 2 \<and> None \<in> set (leaf_hashes txs)"
  then have "txs \<noteq> []" by (auto simp: leaf_hashes_def merkle_leaves_def)
  with * show "merkle_generate X txs = Inl Panic"
    using generate_hashes_Panic [of "merkle_leaves txs" X]
    by (simp add: leaf_hashes_def merkle_generate_def merkle_combine.simps)
qed

section \<open>The root commits to the leaves\<close>

lemma hash_level_width:
  "crypto_laws X \<Longrightarrow> list_all (\<lambda>h. length h = 32) hs \<Longrightarrow>
   list_all (\<lambda>h. length h = 32) (hash_level X hs)"
  by (induction X hs rule: hash_level.induct) (auto simp: length_hash)

lemma hash_level_binding:
  "length xs = length ys \<Longrightarrow> list_all (\<lambda>h. length h = 32) xs \<Longrightarrow>
   list_all (\<lambda>h. length h = 32) ys \<Longrightarrow> hash_level X xs = hash_level X ys \<Longrightarrow>
   (\<forall>a \<in> set (level_inputs xs). \<forall>b \<in> set (level_inputs ys). hash X a = hash X b \<longrightarrow> a = b) \<Longrightarrow>
   xs = ys"
proof (induction X xs arbitrary: ys rule: hash_level.induct)
  case (2 X h)
  then show ?case by (cases ys) auto
next
  case (3 X a b xs)
  then obtain c d ys' where ys: "ys = c # d # ys'" by (cases ys; cases "tl ys") auto
  with 3 have "a @ b = c @ d" and "xs = ys'" by auto
  with 3 ys show ?case by auto
qed simp

lemma root_of_binding:
  "crypto_laws X \<Longrightarrow> length xs = length ys \<Longrightarrow> list_all (\<lambda>h. length h = 32) xs \<Longrightarrow>
   list_all (\<lambda>h. length h = 32) ys \<Longrightarrow> root_of X xs = root_of X ys \<Longrightarrow>
   (\<forall>a \<in> set (root_inputs X xs). \<forall>b \<in> set (root_inputs X ys). hash X a = hash X b \<longrightarrow> a = b) \<Longrightarrow>
   xs = ys"
proof (induction X xs arbitrary: ys rule: root_of.induct)
  case (1 X xs)
  show ?case
  proof (cases "length xs > 1")
    case True
    then have ys: "length ys > 1" using "1.prems"(2) by simp
    have ins: "root_inputs X zs = level_inputs zs @ root_inputs X (hash_level X zs)"
      if "length zs > 1" for zs
      using that by (subst root_inputs.simps) simp
    have root: "root_of X zs = root_of X (hash_level X zs)" if "length zs > 1" for zs
      using that by (subst root_of.simps) simp
    have inj:
      "\<forall>a \<in> set (level_inputs xs). \<forall>b \<in> set (level_inputs ys). hash X a = hash X b \<longrightarrow> a = b"
      "\<forall>a \<in> set (root_inputs X (hash_level X xs)). \<forall>b \<in> set (root_inputs X (hash_level X ys)).
         hash X a = hash X b \<longrightarrow> a = b"
      using "1.prems"(6) unfolding ins [OF True] ins [OF ys] by auto
    have "root_of X (hash_level X xs) = root_of X (hash_level X ys)"
      using "1.prems"(5) root [OF True] root [OF ys] by simp
    moreover have "length (hash_level X xs) = length (hash_level X ys)"
      using "1.prems"(2) by (simp only: length_hash_level)
    ultimately have "hash_level X xs = hash_level X ys"
      using "1.IH" [OF True "1.prems"(1)] hash_level_width [OF "1.prems"(1,3)]
        hash_level_width [OF "1.prems"(1,4)] inj(2) by blast
    then show ?thesis
      using hash_level_binding [OF "1.prems"(2-4) _ inj(1)] by blast
  next
    case False
    with "1.prems"(2,5) show ?thesis
      by (cases xs; cases ys) (auto simp: root_of_single)
  qed
qed

definition merkle_collision_free :: "ext \<Rightarrow> bytes list \<Rightarrow> bytes list \<Rightarrow> bool" where
  "merkle_collision_free X xs ys \<longleftrightarrow>
     list_all (\<lambda>a. list_all (\<lambda>b. hash X a = hash X b \<longrightarrow> a = b) (root_inputs X ys))
       (root_inputs X xs)"

text \<open>
  C30. The root hash commits to the transactions: two blocks with the same number of leaves and
  the same root hash have the same leaf hashes in the same order, unless two of the byte
  strings hashed while building the two trees are a collision of the hash function.
\<close>

theorem merkle_root_binding:
  assumes "crypto_laws X"
    and "leaf_hashes txs = map Some xs" and "leaf_hashes txs' = map Some ys"
    and "length xs = length ys" and "txs \<noteq> []"
    and "list_all (\<lambda>h. length h = 32) xs" and "list_all (\<lambda>h. length h = 32) ys"
    and "merkle_generate X txs = Inr (Some t)" and "merkle_generate X txs' = Inr (Some t')"
    and "get_root_hash t = get_root_hash t'"
    and "merkle_collision_free X xs ys"
  shows "leaf_hashes txs = leaf_hashes txs'"
proof -
  have ne: "txs' \<noteq> []"
    using assms(2-5) leaf_hashes_Nil [of txs] leaf_hashes_Nil [of txs'] by auto
  have root: "get_root_hash s = Inr (root_of X hs)"
    if "ts \<noteq> []" "leaf_hashes ts = map Some hs" "merkle_generate X ts = Inr (Some s)" for ts hs s
    using that merkle_combine_root [of "merkle_leaves ts" hs X]
    by (auto simp: leaf_hashes_def merkle_generate_def get_root_hash_def index_r_def)
  have "root_of X xs = root_of X ys"
    using assms(10) root [OF assms(5,2,8)] root [OF ne assms(3,9)] by simp
  then have "xs = ys"
    using root_of_binding [OF assms(1,4,6,7)] assms(11)
    by (auto simp: merkle_collision_free_def list_all_iff)
  then show ?thesis using assms(2,3) by simp
qed

section \<open>Cloning and pruning\<close>

lemma clone_node_id: "clone_node n = n"
  by (induction n rule: clone_node.induct) auto

fun count_ok :: "MerkleTreeNode \<Rightarrow> bool" where
  "count_ok (MerkleTreeNode (Node left right) h c spv) =
     (c = calculate_child_count left right \<and>
      (case left of Some l \<Rightarrow> count_ok l | None \<Rightarrow> True) \<and>
      (case right of Some r \<Rightarrow> count_ok r | None \<Rightarrow> True))"
| "count_ok (MerkleTreeNode (TransactionNode index) h c spv) = (c = 1)"

text \<open>The leaves a client asked to keep.\<close>

definition kept_leaves :: "(nat \<Rightarrow> bool) \<Rightarrow> MerkleTreeNode list \<Rightarrow> MerkleTreeNode list" where
  "kept_leaves f ns = filter (\<lambda>n. case mt_node_type n of
     TransactionNode index \<Rightarrow> \<not> f index | Node _ _ \<Rightarrow> False) ns"

lemma kept_leaves_append [simp]: "kept_leaves f (xs @ ys) = kept_leaves f xs @ kept_leaves f ys"
  by (simp add: kept_leaves_def)

lemma kept_leaves_simps [simp]:
  "kept_leaves f [] = []"
  "kept_leaves f (MerkleTreeNode (Node l r) h c s # ns) = kept_leaves f ns"
  "kept_leaves f (MerkleTreeNode (TransactionNode i) h c s # ns) =
     (if f i then [] else [MerkleTreeNode (TransactionNode i) h c s]) @ kept_leaves f ns"
  by (simp_all add: kept_leaves_def)

lemma count_ok_traverse: "count_ok n \<Longrightarrow> mt_count n = length (traverse_node mode n)"
proof (induction mode n rule: traverse_node.induct)
  case (1 mode left right h c spv)
  then show ?case
    by (cases mode) (auto simp: calculate_child_count_def split: option.split)
next
  case (2 mode index h c spv)
  then show ?case by (cases mode) auto
qed

lemma prune_node_Some:
  "prune_node f (Some n) = (n', b) \<Longrightarrow> \<exists>m. n' = Some m \<and> mt_hash m = mt_hash n"
  by (cases "(f, Some n)" rule: prune_node.cases) (auto split: if_splits prod.splits)

definition opt_nodes :: "TraverseMode \<Rightarrow> MerkleTreeNode option \<Rightarrow> MerkleTreeNode list" where
  "opt_nodes mode n = (case n of Some m \<Rightarrow> traverse_node mode m | None \<Rightarrow> [])"

lemma kept_opt_nodes [simp]:
  "kept_leaves f (opt_nodes mode None) = []"
  "kept_leaves f (opt_nodes mode (Some (MerkleTreeNode (Node left right) h c spv))) =
     kept_leaves f (opt_nodes mode left) @ kept_leaves f (opt_nodes mode right)"
  "kept_leaves f (opt_nodes mode (Some (MerkleTreeNode (TransactionNode i) h c spv))) =
     (if f i then [] else [MerkleTreeNode (TransactionNode i) h c spv])"
  by (cases mode; simp add: opt_nodes_def split: option.split)+

lemma prune_node_kept:
  "prune_node f n = (n', b) \<Longrightarrow>
   kept_leaves f (opt_nodes mode n') = kept_leaves f (opt_nodes mode n) \<and>
   (b \<longrightarrow> kept_leaves f (opt_nodes mode n) = [])"
proof (induction f n arbitrary: n' b rule: prune_node.induct)
  case (2 f left right h c spv)
  obtain l' pl where l: "prune_node f left = (l', pl)" by fastforce
  obtain r' pr where r: "prune_node f right = (r', pr)" by fastforce
  note IH = "2.IH"(1) [OF l] "2.IH"(2) [OF refl l [symmetric] r]
  with "2.prems" l r show ?case
    by (auto split: if_splits)
qed auto

lemma prune_node_count:
  "prune_node f n = (n', b) \<Longrightarrow> (case n of Some m \<Rightarrow> count_ok m | None \<Rightarrow> True) \<Longrightarrow>
   (case n' of Some m \<Rightarrow> count_ok m | None \<Rightarrow> True)"
proof (induction f n arbitrary: n' b rule: prune_node.induct)
  case (2 f left right h c spv)
  obtain l' pl where l: "prune_node f left = (l', pl)" by fastforce
  obtain r' pr where r: "prune_node f right = (r', pr)" by fastforce
  note IH = "2.IH"(1) [OF l] "2.IH"(2) [OF refl l [symmetric] r]
  with "2.prems" l r show ?case
    by (auto simp: calculate_child_count_def split: if_splits)
qed auto

lemma count_ok_pair_leaves: "list_all count_ok ls \<Longrightarrow> list_all count_ok (pair_leaves ls)"
  by (induction ls rule: pair_leaves.induct) auto

lemma count_ok_generate_hashes:
  "list_all count_ok ls \<Longrightarrow> generate_hashes X ls = Inr ms \<Longrightarrow> list_all count_ok ms"
proof (induction ls arbitrary: ms)
  case (Cons l ls)
  then obtain m ms' where m: "merkle_generate_hash X l = Inr m" and
    ms: "generate_hashes X ls = Inr ms'" "ms = m # ms'" by auto
  from m Cons.prems(1) have "count_ok m"
    by (cases l; cases "mt_node_type l") (auto simp: merkle_generate_hash_def split: if_splits)
  with Cons ms show ?case by auto
qed simp

lemma count_ok_combine:
  "list_all count_ok ls \<Longrightarrow> merkle_combine X ls = Inr ms \<Longrightarrow> list_all count_ok ms"
proof (induction X ls arbitrary: ms rule: merkle_combine.induct)
  case (1 X ls)
  show ?case
  proof (cases "length ls > 1")
    case True
    with "1.prems"(2) obtain ns where ns: "generate_hashes X (pair_leaves ls) = Inr ns"
      and "merkle_combine X ns = Inr ms"
      by (subst (asm) merkle_combine.simps) auto
    then show ?thesis
      using "1.IH" [OF True] count_ok_generate_hashes [OF count_ok_pair_leaves ns] "1.prems"(1)
      by blast
  next
    case False
    with "1.prems" show ?thesis by (subst (asm) merkle_combine.simps) simp
  qed
qed

lemma count_ok_generate: "merkle_generate X txs = Inr (Some t) \<Longrightarrow> count_ok t"
proof -
  assume "merkle_generate X txs = Inr (Some t)"
  then obtain ms where "merkle_combine X (merkle_leaves txs) = Inr ms" "ms \<noteq> []" "t = ms ! 0"
    by (auto simp: merkle_generate_def index_r_def split: if_splits)
  moreover have "list_all count_ok (merkle_leaves txs)"
    by (auto simp: merkle_leaves_def tx_leaves_def list_all_iff split: if_splits)
  ultimately show ?thesis
    using count_ok_combine [of "merkle_leaves txs" X ms] by (cases ms) auto
qed

text \<open>
  Pruning a tree, or a clone of it, for a light client keeps its root hash and every leaf
  the client asked to keep, in order, and the recorded length is still the number of nodes.
\<close>

theorem merkle_prune_keeps:
  assumes "merkle_generate X txs = Inr (Some t)"
  shows "create_clone t = Inr t \<and>
    get_root_hash (merkle_prune f t) = get_root_hash t \<and>
    merkle_len (merkle_prune f t) = length (traverse_node mode (merkle_prune f t)) \<and>
    kept_leaves f (traverse_node mode (merkle_prune f t)) = kept_leaves f (traverse_node mode t)"
proof -
  obtain n' b where "prune_node f (Some t) = (n', b)" by fastforce
  moreover from prune_node_Some [OF this] obtain t' where "n' = Some t'" "mt_hash t' = mt_hash t"
    by blast
  ultimately have t': "prune_node f (Some t) = (Some t', b)" "merkle_prune f t = t'"
    "mt_hash t' = mt_hash t" by (simp_all add: merkle_prune_def)
  have "create_clone t = Inr t"
    by (simp add: create_clone_def clone_node_id)
  moreover have "get_root_hash (merkle_prune f t) = get_root_hash t"
    using t' by (simp add: get_root_hash_def)
  moreover have "merkle_len (merkle_prune f t) = length (traverse_node mode (merkle_prune f t))"
    using prune_node_count [OF t'(1)] count_ok_generate [OF assms] t'(2)
    by (simp add: merkle_len_def count_ok_traverse)
  moreover have "kept_leaves f (traverse_node mode (merkle_prune f t)) =
      kept_leaves f (traverse_node mode t)"
    using prune_node_kept [OF t'(1), of mode] t'(2) by (simp add: opt_nodes_def)
  ultimately show ?thesis by simp
qed

section \<open>A concrete tree\<close>

definition demo_leaf_tx :: "u8 \<Rightarrow> transaction" where
  "demo_leaf_tx b = tx_default\<lparr>tx_hash_for_signature := Some (replicate 32 b)\<rparr>"

definition demo_leaf_txs :: "transaction list" where
  "demo_leaf_txs = [demo_leaf_tx 1, demo_leaf_tx 2, demo_leaf_tx 3]"

lemma leaf_hashes_demo:
  "leaf_hashes demo_leaf_txs = map Some (map (replicate 32) [1, 2, 3])"
  by (simp add: leaf_hashes_def merkle_leaves_def tx_leaves_def demo_leaf_txs_def
      demo_leaf_tx_def tx_default_def)

definition demo_tree :: MerkleTreeNode where
  "demo_tree = (case merkle_generate demo_ext demo_leaf_txs of Inr (Some t) \<Rightarrow> t)"

lemma demo_tree_generated: "merkle_generate demo_ext demo_leaf_txs = Inr (Some demo_tree)"
proof -
  have "demo_leaf_txs \<noteq> []" by (simp add: demo_leaf_txs_def)
  then obtain t where "merkle_generate demo_ext demo_leaf_txs = Inr (Some t)"
    using merkle_combine_root [of "merkle_leaves demo_leaf_txs" "map (replicate 32) [1, 2, 3]" demo_ext]
      leaf_hashes_demo by (auto simp: leaf_hashes_def merkle_generate_def index_r_def)
  then show ?thesis by (simp add: demo_tree_def)
qed

theorem merkle_generate_outcome_witness:
  "(\<exists>t. merkle_generate demo_ext demo_leaf_txs = Inr (Some t) \<and>
     get_root_hash t = Inr (root_of demo_ext (map (replicate 32) [1, 2, 3]))) \<and>
   merkle_generate demo_ext [tx_default, tx_default] = Inl Panic"
  using merkle_generate_outcome [of demo_ext demo_leaf_txs "map (replicate 32) [1, 2, 3]"]
    merkle_generate_outcome [of demo_ext "[tx_default, tx_default]" "[]"] leaf_hashes_demo
  by (simp add: demo_leaf_txs_def leaf_hashes_def merkle_leaves_def tx_leaves_def tx_default_def)

lemma replicate_numeral_2: "replicate 2 x = [x, x]"
  by (simp add: numeral_2_eq_2)

text \<open>A block of two equal leaves and its light version, one placeholder standing for two.\<close>

definition demo_full :: "transaction list" where
  "demo_full = [demo_leaf_tx 1, demo_leaf_tx 1]"

definition demo_lite :: "transaction list" where
  "demo_lite = [(demo_leaf_tx 1)\<lparr>tx_txs_replacements := 2\<rparr>]"

lemma leaf_hashes_full_lite:
  "leaf_hashes demo_full = map Some [replicate 32 1, replicate 32 1]"
  "leaf_hashes demo_lite = map Some [replicate 32 1, replicate 32 1]"
  by (simp_all add: leaf_hashes_def merkle_leaves_def tx_leaves_def demo_full_def demo_lite_def
      demo_leaf_tx_def tx_default_def replicate_numeral_2)

theorem merkle_root_binding_witness:
  "\<exists>t t'. merkle_generate demo_ext demo_full = Inr (Some t) \<and>
     merkle_generate demo_ext demo_lite = Inr (Some t') \<and> get_root_hash t = get_root_hash t' \<and>
     leaf_hashes demo_full = leaf_hashes demo_lite"
proof -
  let ?hs = "[replicate 32 1, replicate 32 (1 :: u8)]"
  have ne: "demo_full \<noteq> []" "demo_lite \<noteq> []" by (simp_all add: demo_full_def demo_lite_def)
  then obtain t t' where t: "merkle_generate demo_ext demo_full = Inr (Some t)"
    "merkle_generate demo_ext demo_lite = Inr (Some t')"
    "get_root_hash t = Inr (root_of demo_ext ?hs)" "get_root_hash t' = Inr (root_of demo_ext ?hs)"
    using merkle_combine_root [of "merkle_leaves demo_full" ?hs demo_ext]
      merkle_combine_root [of "merkle_leaves demo_lite" ?hs demo_ext] leaf_hashes_full_lite
    by (auto simp: leaf_hashes_def merkle_generate_def get_root_hash_def index_r_def)
  have "merkle_collision_free demo_ext ?hs ?hs"
    by (simp add: merkle_collision_free_def root_inputs.simps)
  then show ?thesis
    using t merkle_root_binding [OF crypto_laws_demo leaf_hashes_full_lite refl ne(1) _ _ t(1,2)]
    by auto
qed

theorem merkle_prune_keeps_witness:
  "get_root_hash (merkle_prune (\<lambda>i. i \<noteq> 1) demo_tree) = get_root_hash demo_tree \<and>
   kept_leaves (\<lambda>i. i \<noteq> 1) (traverse_node DepthFist (merkle_prune (\<lambda>i. i \<noteq> 1) demo_tree)) =
   kept_leaves (\<lambda>i. i \<noteq> 1) (traverse_node DepthFist demo_tree)"
  using merkle_prune_keeps [OF demo_tree_generated, of "\<lambda>i. i \<noteq> 1" DepthFist] by simp

end
