(* ===== verification/Transaction_Ledger.thy ===== *)
theory Transaction_Ledger
  imports Transaction
begin

text \<open>
  What transactions do to balances: the totals computed by \<^verbatim>\<open>generate_total_fees\<close>, routing work,
  the lottery that picks the winning router, and winding and unwinding on the UTXO set.
\<close>

section \<open>Totals\<close>

definition slip_value :: "slip \<Rightarrow> nat" where
  "slip_value s = (if slip_slip_type s = ST_Bound then 0 else unat (slip_amount s))"

lemma unat_slip_counted_amount: "unat (slip_counted_amount s) = slip_value s"
  by (simp add: slip_counted_amount_def slip_value_def)

lemma slip_counted_amount_generate [simp]:
  "slip_counted_amount (slip_generate_utxoset_key s) = slip_counted_amount s"
  "slip_counted_amount (tx_stamp_output i b n s) = slip_counted_amount s"
  by (simp_all add: slip_counted_amount_def tx_stamp_output_def)

lemma map_counted_outputs:
  "map slip_counted_amount (map (\<lambda>(n, s). tx_stamp_output i b n s) (enumerate k ss))
     = map slip_counted_amount ss"
  by (rule map_enumerate_invariant) simp

lemma map_counted_inputs:
  "map slip_counted_amount (map slip_generate_utxoset_key ss) = map slip_counted_amount ss"
  by simp

lemma tx_generate_total_fees_totals:
  "tx_total_in (tx_generate_total_fees i b tx) = sum_list (map slip_counted_amount (tx_from tx))"
  "tx_total_out (tx_generate_total_fees i b tx) = sum_list (map slip_counted_amount (tx_to tx))"
  by (simp_all add: tx_generate_total_fees_def Let_def map_counted_outputs map_counted_inputs
      del: map_map)

lemma tx_generate_total_fees_fee:
  "tx_total_fees (tx_generate_total_fees i b tx) =
     (if tx_total_in (tx_generate_total_fees i b tx) > tx_total_out (tx_generate_total_fees i b tx)
      then tx_total_in (tx_generate_total_fees i b tx) - tx_total_out (tx_generate_total_fees i b tx)
      else 0)"
  by (simp add: tx_generate_total_fees_def Let_def)

lemma sum_counted_mod:
  "unat (sum_list (map slip_counted_amount ss)) = sum_list (map slip_value ss) mod 2 ^ 64"
  by (simp add: unat_sum_list_u64_mod comp_def unat_slip_counted_amount)

text \<open>
  The totals of a transaction are the sums of its non-Bound slips modulo \<open>2 ^ 64\<close>, and the
  fee is what the inputs exceed the outputs by (0 if they do not). When the true sums fit in
  64 bits, the totals and the fee are the true ones, so that inputs = outputs + fee whenever
  the transaction is not creating money.
\<close>

theorem tx_totals_are_sums:
  "unat (tx_total_in (tx_generate_total_fees i b tx)) = sum_list (map slip_value (tx_from tx)) mod 2 ^ 64 \<and>
   unat (tx_total_out (tx_generate_total_fees i b tx)) = sum_list (map slip_value (tx_to tx)) mod 2 ^ 64 \<and>
   unat (tx_total_fees (tx_generate_total_fees i b tx)) =
     sum_list (map slip_value (tx_from tx)) mod 2 ^ 64 - sum_list (map slip_value (tx_to tx)) mod 2 ^ 64"
proof -
  let ?t = "tx_generate_total_fees i b tx"
  have io: "unat (tx_total_in ?t) = sum_list (map slip_value (tx_from tx)) mod 2 ^ 64"
    "unat (tx_total_out ?t) = sum_list (map slip_value (tx_to tx)) mod 2 ^ 64"
    by (simp_all only: tx_generate_total_fees_totals sum_counted_mod)
  have "unat (tx_total_fees ?t) = unat (tx_total_in ?t) - unat (tx_total_out ?t)"
    by (subst tx_generate_total_fees_fee) (auto simp: word_less_nat_alt unat_sub word_le_nat_alt)
  with io show ?thesis by simp
qed

section \<open>Routing work\<close>

fun hops_linked :: "hop \<Rightarrow> hop list \<Rightarrow> bool" where
  "hops_linked prev [] = True"
| "hops_linked prev (h # hs) = (hop_from h = hop_to prev \<and> hops_linked h hs)"

lemma unat_half_up: "unat ((w :: u64) - w div 2) = (unat w + 1) div 2"
proof -
  have "w div 2 \<le> w" by (simp add: word_le_nat_alt unat_div)
  then have "unat (w - w div 2) = unat w - unat w div 2" by (simp add: unat_sub unat_div)
  then show ?thesis by presburger
qed

lemma ceil_div_step: "((w + 1) div 2 + 2 ^ k - 1) div 2 ^ k = (w + 2 ^ Suc k - 1) div 2 ^ Suc k"
  for w k :: nat
proof -
  have "(w + 2 ^ Suc k - 1) div 2 ^ Suc k = (w + 2 ^ Suc k - 1) div 2 div 2 ^ k"
    by (simp add: div_mult2_eq)
  also have "(w + 2 ^ Suc k - 1) div 2 = (w + 1) div 2 + 2 ^ k - 1"
  proof -
    have "1 \<le> (2 :: nat) ^ k" by simp
    then have "w + 2 ^ Suc k - 1 = (w + 1) + 2 * (2 ^ k - 1)"
      unfolding power_Suc by linarith
    then have "(w + 2 ^ Suc k - 1) div 2 = (w + 1) div 2 + (2 ^ k - 1)"
      by (simp only:)
    then show ?thesis using \<open>1 \<le> (2 :: nat) ^ k\<close> by linarith
  qed
  finally show ?thesis by simp
qed

lemma routing_work_loop_eq:
  "routing_work_loop prev hs w =
     (if hops_linked prev hs
      then Some (of_nat ((unat w + 2 ^ length hs - 1) div 2 ^ length hs)) else None)"
proof (induction prev hs w rule: routing_work_loop.induct)
  case (2 prev h hs w)
  then show ?case by (auto simp: unat_half_up ceil_div_step simp del: power_Suc One_nat_def)
qed simp

lemma ceil_div_le: "(w + 2 ^ k - 1) div 2 ^ k \<le> (w :: nat)"
proof (cases w)
  case 0
  then show ?thesis by simp
next
  case (Suc n)
  have "w + 2 ^ k - 1 \<le> w * 2 ^ k"
  proof -
    obtain p where p: "(2 :: nat) ^ k = Suc p"
      by (metis Suc_pred zero_less_numeral zero_less_power)
    show ?thesis by (simp add: p Suc)
  qed
  then have "(w + 2 ^ k - 1) div 2 ^ k \<le> (w * 2 ^ k) div 2 ^ k" by (rule div_le_mono)
  then show ?thesis by simp
qed

text \<open>
  The routing work a node can claim from a transaction is the fee halved, rounding up, once
  for every hop after the first: \<open>\<lceil>fee / 2 ^ (hops - 1)\<rceil>\<close>. It is 0 without a path, when the
  path does not end at the node, or when two consecutive hops do not join. It never exceeds
  the fee.
\<close>

theorem routing_work_closed_form:
  "unat (tx_total_work_for_me (tx_generate_total_work public_key tx)) =
     (case tx_path tx of [] \<Rightarrow> 0
      | first # rest \<Rightarrow>
          if hop_to (last (tx_path tx)) = public_key \<and> hops_linked first rest
          then (unat (tx_total_fees tx) + 2 ^ length rest - 1) div 2 ^ length rest
          else 0) \<and>
   tx_total_work_for_me (tx_generate_total_work public_key tx) \<le> tx_total_fees tx"
proof -
  let ?w = "\<lambda>k. (unat (tx_total_fees tx) + 2 ^ k - 1) div 2 ^ k"
  have "?w k < 2 ^ 64" for k
    using ceil_div_le [of "unat (tx_total_fees tx)" k] unat_u64_bound [of "tx_total_fees tx"]
    by (simp del: One_nat_def)
  then have "unat (of_nat (?w k) :: u64) = ?w k" for k
    by (simp add: unat_of_nat)
  then show ?thesis
    using ceil_div_le [of "unat (tx_total_fees tx)"]
    by (auto simp: tx_generate_total_work_def routing_work_loop_eq word_le_nat_alt split: list.splits)
qed

section \<open>The winning routing node\<close>

text \<open>Cumulative routing work up to hop \<open>i\<close>: \<open>f + f/2 + f/4 + \<dots>\<close> with truncating division.\<close>

definition cum_work :: "nat \<Rightarrow> nat \<Rightarrow> nat" where
  "cum_work f i = (\<Sum>j\<le>i. f div 2 ^ j)"

lemma cum_work_bound: "0 < f \<Longrightarrow> cum_work f i + f div 2 ^ i \<le> 2 * f"
proof (induction i)
  case (Suc i)
  have "f div 2 ^ Suc i = f div 2 ^ i div 2"
    by (simp add: div_mult2_eq [symmetric] mult.commute)
  then have "f div 2 ^ Suc i + f div 2 ^ Suc i \<le> f div 2 ^ i"
    by linarith
  with Suc show ?case by (simp add: cum_work_def)
qed (simp add: cum_work_def)

lemma cum_work_mono: "i \<le> j \<Longrightarrow> cum_work f i \<le> cum_work f j"
  unfolding cum_work_def by (rule sum_mono2) auto

lemma nth_work_by_hop:
  assumes "2 * unat fee < 2 ^ 64" and "0 < unat fee"
    and "unat agg = cum_work (unat fee) k" and "unat this = unat fee div 2 ^ k" and "i < n"
  shows "unat (work_by_hop n agg this ! i) = cum_work (unat fee) (k + Suc i)"
  using assms(3-5)
proof (induction n arbitrary: agg this k i)
  case (Suc n)
  have this': "unat (this div 2) = unat fee div 2 ^ Suc k"
    using Suc.prems(2) by (simp add: unat_div div_mult2_eq [symmetric] mult.commute)
  have "cum_work (unat fee) (Suc k) < 2 ^ 64"
    using cum_work_bound [OF assms(2), of "Suc k"] assms(1) by linarith
  then have agg': "unat (agg + this div 2) = cum_work (unat fee) (Suc k)"
    using Suc.prems(1) this' by (simp add: unat_word_ariths cum_work_def)
  show ?case
  proof (cases i)
    case 0
    then show ?thesis using agg' by (simp add: Let_def)
  next
    case (Suc j)
    then show ?thesis
      using Suc.IH [OF agg' this', of j] Suc.prems(3) by (simp add: Let_def)
  qed
qed simp

lemma length_work_by_hop [simp]: "length (work_by_hop n agg this) = n"
  by (induction n arbitrary: agg this) (auto simp: Let_def)

lemma nth_works:
  assumes "2 * unat fee < 2 ^ 64" and "0 < unat fee" and "i \<le> n"
  shows "unat ((fee # work_by_hop n fee fee) ! i) = cum_work (unat fee) i"
proof (cases i)
  case (Suc j)
  then show ?thesis
    using nth_work_by_hop [OF assms(1,2), of fee 0 fee j n] assms(3) by (simp add: cum_work_def)
qed (simp add: cum_work_def)

lemma first_covering_Some:
  "first_covering w xs = Some i \<longleftrightarrow> i < length xs \<and> w \<le> xs ! i \<and> (\<forall>j<i. xs ! j < w)"
proof (induction xs arbitrary: i)
  case (Cons x xs)
  then show ?case
    by (cases i) (auto simp: less_Suc_eq_0_disj not_le)
qed simp

lemma first_covering_total: "xs \<noteq> [] \<Longrightarrow> w \<le> last xs \<Longrightarrow> \<exists>i. first_covering w xs = Some i"
  by (induction xs) (auto split: if_splits)


definition demo_hop_tx :: transaction where
  "demo_hop_tx = tx_default\<lparr>tx_total_fees := 100,
     tx_path := [hop_default\<lparr>hop_to := replicate 33 1\<rparr>,
                 hop_default\<lparr>hop_from := replicate 33 1, hop_to := replicate 33 2\<rparr>]\<rparr>"


section \<open>Winding and unwinding on the UTXO set\<close>

lemma fold_slip_reorg:
  "fold (\<lambda>s u. slip_on_chain_reorganization s u b) ss u k =
     (if \<exists>s\<in>set ss. slip_amount s > 0 \<and> slip_utxoset_key s = k
      then (if b then Some True else None) else u k)"
proof (induction ss arbitrary: u)
  case (Cons s ss)
  then show ?case by (auto simp: slip_on_chain_reorganization_def)
qed simp

lemma tx_reorg_lookup:
  "tx_on_chain_reorganization tx u lc k =
     (if \<exists>s\<in>set (tx_to tx). slip_amount s > 0 \<and> slip_utxoset_key s = k
      then (if lc then Some True else None)
      else if \<exists>s\<in>set (tx_from tx). slip_amount s > 0 \<and> slip_utxoset_key s = k
      then (if lc then None else Some True) else u k)"
  by (auto simp: tx_on_chain_reorganization_def Let_def fold_slip_reorg)

text \<open>Admissible on a UTXO set: what it spends is spendable, what it creates is new.\<close>

definition tx_applicable :: "transaction \<Rightarrow> utxoset \<Rightarrow> bool" where
  "tx_applicable tx u \<longleftrightarrow>
     list_all (\<lambda>s. slip_validate s u) (tx_from tx) \<and>
     list_all (\<lambda>s. slip_amount s > 0 \<longrightarrow> u (slip_utxoset_key s) = None) (tx_to tx)"

lemma tx_unwind_wind:
  assumes "tx_applicable tx u"
  shows "tx_on_chain_reorganization tx (tx_on_chain_reorganization tx u True) False = u"
proof
  fix k
  have "u k = Some True" if "s \<in> set (tx_from tx)" "slip_amount s > 0" "slip_utxoset_key s = k" for s
    using assms that by (auto simp: tx_applicable_def list_all_iff slip_validate_iff)
  moreover have "u k = None" if "s \<in> set (tx_to tx)" "slip_amount s > 0" "slip_utxoset_key s = k" for s
    using assms that by (auto simp: tx_applicable_def list_all_iff)
  ultimately show "tx_on_chain_reorganization tx (tx_on_chain_reorganization tx u True) False k = u k"
    by (auto simp: tx_reorg_lookup)
qed

interpretation tx_rev:
  reversible "\<lambda>tx u. tx_on_chain_reorganization tx u True"
    "\<lambda>tx u. tx_on_chain_reorganization tx u False" tx_applicable
  by unfold_locales (rule tx_unwind_wind)


definition demo_out :: "nat \<Rightarrow> slip" where
  "demo_out n = slip_generate_utxoset_key (slip_default\<lparr>slip_amount := 5, slip_slip_index := of_nat n\<rparr>)"


end
