(* ===== verification/Transaction_Codec.thy ===== *)
theory Transaction_Codec
  imports Transaction
begin

text \<open>
  The wire format of transactions: decoding inverts encoding, every accepted buffer is the
  encoding of the transaction read followed by ignored bytes, and the announced size is the
  real one. The sequences of slips and hops go through the \<open>fixed_codec\<close> interface.
\<close>

lemma tx_type_roundtrip [simp]: "tx_type_from_u8 (tx_type_to_u8 t) = Some t"
  by (cases t) (simp_all add: tx_type_from_u8_def)

lemma tx_type_from_u8_Some: "tx_type_from_u8 b = Some t \<Longrightarrow> tx_type_to_u8 t = b"
  by (auto simp: tx_type_from_u8_def split: if_splits)

text \<open>The fields a receiver recomputes are not sent.\<close>

definition tx_wire :: "transaction \<Rightarrow> transaction" where
  "tx_wire tx = tx_default\<lparr>
     tx_timestamp := tx_timestamp tx, tx_from := map slip_wire (tx_from tx),
     tx_to := map slip_wire (tx_to tx), tx_data := tx_data tx,
     tx_txs_replacements := tx_txs_replacements tx,
     tx_transaction_type := tx_transaction_type tx, tx_signature := tx_signature tx,
     tx_path := tx_path tx\<rparr>"

text \<open>What fits the format: at most 255 inputs and outputs, 32-bit lengths.\<close>

definition tx_fits :: "transaction \<Rightarrow> bool" where
  "tx_fits tx \<longleftrightarrow> length (tx_from tx) \<le> 255 \<and> length (tx_to tx) \<le> 255 \<and>
     length (tx_data tx) < 2 ^ 32 \<and> length (tx_path tx) < 2 ^ 32"

definition tx_header :: "transaction \<Rightarrow> bytes" where
  "tx_header tx =
     to_be (of_nat (length (tx_from tx)) :: u32) @ to_be (of_nat (length (tx_to tx)) :: u32) @
     to_be (of_nat (length (tx_data tx)) :: u32) @ to_be (of_nat (length (tx_path tx)) :: u32) @
     tx_signature tx @ to_be (tx_timestamp tx) @ to_be (tx_txs_replacements tx) @
     to_be (tx_type_to_u8 (tx_transaction_type tx))"

lemma length_tx_header [codec_simps]: "tx_wf tx \<Longrightarrow> length (tx_header tx) = TRANSACTION_SIZE"
  by (simp add: tx_header_def tx_wf_def TRANSACTION_SIZE_def)

lemma tx_serialize_layout:
  assumes "tx_fits tx"
  shows "tx_serialize_for_net tx =
    tx_header tx @ concat (map slip_serialize_for_net (tx_from tx)) @
    concat (map slip_serialize_for_net (tx_to tx)) @ tx_data tx @
    concat (map hop_serialize_for_net (tx_path tx))"
  using assms
  by (simp add: tx_serialize_for_net_def tx_serialize_for_net_with_hop_def tx_fits_def
      tx_header_def Let_def)

lemma tx_header_fields:
  assumes "tx_wf tx"
  shows "subslice 0 4 (tx_header tx @ r) = to_be (of_nat (length (tx_from tx)) :: u32)"
    and "subslice 4 8 (tx_header tx @ r) = to_be (of_nat (length (tx_to tx)) :: u32)"
    and "subslice 8 12 (tx_header tx @ r) = to_be (of_nat (length (tx_data tx)) :: u32)"
    and "subslice 12 16 (tx_header tx @ r) = to_be (of_nat (length (tx_path tx)) :: u32)"
    and "subslice 16 80 (tx_header tx @ r) = tx_signature tx"
    and "subslice 80 88 (tx_header tx @ r) = to_be (tx_timestamp tx)"
    and "subslice 88 92 (tx_header tx @ r) = to_be (tx_txs_replacements tx)"
    and "(tx_header tx @ r) ! 92 = tx_type_to_u8 (tx_transaction_type tx)"
  using assms by (simp_all add: tx_header_def tx_wf_def subslice_def nth_append)

lemma unat_of_nat_u32: "n < 2 ^ 32 \<Longrightarrow> unat (of_nat n :: u32) = n"
  by (simp add: unat_of_nat)

lemma of_nat_u32_le_255: "n \<le> 255 \<Longrightarrow> \<not> (255 :: u32) < of_nat n"
  by (simp add: word_less_nat_alt unat_of_nat)

text \<open>Decoding a buffer that starts with the header of a transaction.\<close>

lemma tx_deserialize_header:
  assumes wf: "tx_wf tx" and fits: "tx_fits tx"
  shows "tx_deserialize_from_net (tx_header tx @ r) =
    (let bs = tx_header tx @ r;
         no = 93 + length (tx_from tx) * SLIP_SIZE;
         nm = no + length (tx_to tx) * SLIP_SIZE;
         np = nm + length (tx_data tx)
     in rbind (decode_seq slip_deserialize_from_net SLIP_SIZE 93 (length (tx_from tx)) bs) (\<lambda>inputs.
        rbind (decode_seq slip_deserialize_from_net SLIP_SIZE no (length (tx_to tx)) bs) (\<lambda>outputs.
        rbind (slice_r nm np bs) (\<lambda>message.
        rbind (decode_seq hop_deserialize_from_net HOP_SIZE np (length (tx_path tx)) bs) (\<lambda>path.
        Inr ((tx_wire tx)\<lparr>tx_from := inputs, tx_to := outputs, tx_data := message,
               tx_path := path\<rparr>))))))"
proof -
  have "length (tx_header tx) = 93"
    using wf by (simp add: codec_simps TRANSACTION_SIZE_def)
  then show ?thesis
    using fits
    by (simp add: tx_deserialize_from_net_def Let_def TRANSACTION_SIZE_def tx_header_fields [OF wf]
        tx_fits_def of_nat_u32_le_255 unat_of_nat_u32 tx_wire_def tx_default_def)
qed

lemma tx_decode_encode:
  assumes wf: "tx_wf tx" and fits: "tx_fits tx"
  shows "tx_deserialize_from_net (tx_serialize_for_net tx @ rest) = Inr (tx_wire tx)"
proof -
  let ?i = "concat (map slip_serialize_for_net (tx_from tx))"
  let ?o = "concat (map slip_serialize_for_net (tx_to tx))"
  let ?h = "concat (map hop_serialize_for_net (tx_path tx))"
  let ?buf = "tx_header tx @ ?i @ ?o @ tx_data tx @ ?h @ rest"
  have buf: "tx_serialize_for_net tx @ rest = ?buf"
    by (simp add: tx_serialize_layout [OF fits])
  have len: "length (tx_header tx) = 93"
    using wf by (simp add: codec_simps TRANSACTION_SIZE_def)
  have wfs: "list_all slip_wf (tx_from tx)" "list_all slip_wf (tx_to tx)" "list_all hop_wf (tx_path tx)"
    using wf by (simp_all add: tx_wf_def)
  have li: "length ?i = length (tx_from tx) * SLIP_SIZE" and lo: "length ?o = length (tx_to tx) * SLIP_SIZE"
    using wfs by (simp_all add: slip_codec.length_concat_enc mult.commute)
  have ins: "decode_seq slip_deserialize_from_net SLIP_SIZE 93 (length (tx_from tx)) ?buf
      = Inr (map slip_wire (tx_from tx))"
    by (rule slip_codec.decode_seq_concat [OF wfs(1) len])
  have outs: "decode_seq slip_deserialize_from_net SLIP_SIZE (93 + length (tx_from tx) * SLIP_SIZE)
      (length (tx_to tx)) ?buf = Inr (map slip_wire (tx_to tx))"
    using slip_codec.decode_seq_concat [OF wfs(2), of "tx_header tx @ ?i"] len li by simp
  let ?m = "93 + length (tx_from tx) * SLIP_SIZE + length (tx_to tx) * SLIP_SIZE"
  have msg: "slice_r ?m (?m + length (tx_data tx)) ?buf = Inr (tx_data tx)"
    using len li lo by (simp add: slice_r_def subslice_def)
  have path: "decode_seq hop_deserialize_from_net HOP_SIZE (?m + length (tx_data tx))
      (length (tx_path tx)) ?buf = Inr (tx_path tx)"
    using hop_codec.decode_seq_concat [OF wfs(3), of "tx_header tx @ ?i @ ?o @ tx_data tx"] len li lo
    by (simp add: add.assoc)
  show ?thesis
    using ins outs msg path
    by (simp add: buf tx_deserialize_header [OF wf fits] Let_def tx_wire_def)
qed

text \<open>
  C3. A transaction that fits the format is read back from its encoding, whatever bytes
  follow it in the buffer: the wire fields are recovered exactly, the fields the receiver
  recomputes (hash, totals, UTXO keys) come back at their defaults.
\<close>

theorem tx_wire_roundtrip:
  assumes "tx_wf tx" and "tx_fits tx"
  shows "tx_deserialize_from_net (tx_serialize_for_net tx @ rest) = Inr (tx_wire tx)"
  using assms by (rule tx_decode_encode)

theorem tx_wire_roundtrip_witness:
  "tx_wf tx_default \<and> tx_fits tx_default \<and>
   tx_deserialize_from_net (tx_serialize_for_net tx_default @ [1, 2, 3]) = Inr (tx_wire tx_default)"
proof -
  have "tx_wf tx_default" "tx_fits tx_default"
    by (simp_all add: tx_wf_def tx_fits_def tx_default_def)
  then show ?thesis
    using tx_wire_roundtrip [of tx_default "[1, 2, 3]"] by simp
qed

lemma tx_deserialize_cases:
  assumes "tx_deserialize_from_net bs = Inr tx"
  obtains inl outl ml pl where
    "93 \<le> length bs" and
    "inl = (from_be (subslice 0 4 bs) :: u32)" "inl \<le> 255" and
    "outl = (from_be (subslice 4 8 bs) :: u32)" "outl \<le> 255" and
    "ml = (from_be (subslice 8 12 bs) :: u32)" "pl = (from_be (subslice 12 16 bs) :: u32)" and
    "tx_signature tx = subslice 16 80 bs" "tx_timestamp tx = from_be (subslice 80 88 bs)"
    "tx_txs_replacements tx = from_be (subslice 88 92 bs)"
    "tx_type_from_u8 (bs ! 92) = Some (tx_transaction_type tx)" and
    "decode_seq slip_deserialize_from_net SLIP_SIZE 93 (unat inl) bs = Inr (tx_from tx)" and
    "decode_seq slip_deserialize_from_net SLIP_SIZE (93 + unat inl * SLIP_SIZE) (unat outl) bs
       = Inr (tx_to tx)" and
    "slice_r (93 + unat inl * SLIP_SIZE + unat outl * SLIP_SIZE)
       (93 + unat inl * SLIP_SIZE + unat outl * SLIP_SIZE + unat ml) bs = Inr (tx_data tx)" and
    "decode_seq hop_deserialize_from_net HOP_SIZE
       (93 + unat inl * SLIP_SIZE + unat outl * SLIP_SIZE + unat ml) (unat pl) bs = Inr (tx_path tx)"
  using assms
  by (auto simp: tx_deserialize_from_net_def TRANSACTION_SIZE_def Let_def not_less not_le
      split: if_splits)

lemma tx_serialized_parts:
  assumes "tx_deserialize_from_net bs = Inr tx"
  shows "tx_wf tx" and "tx_fits tx" and "\<exists>rest. bs = tx_serialize_for_net tx @ rest"
proof -
  from assms obtain inl outl ml pl where len: "93 \<le> length bs"
    and inl: "inl = (from_be (subslice 0 4 bs) :: u32)" "inl \<le> 255"
    and outl: "outl = (from_be (subslice 4 8 bs) :: u32)" "outl \<le> 255"
    and ml: "ml = (from_be (subslice 8 12 bs) :: u32)" and pl: "pl = (from_be (subslice 12 16 bs) :: u32)"
    and hdr: "tx_signature tx = subslice 16 80 bs" "tx_timestamp tx = from_be (subslice 80 88 bs)"
      "tx_txs_replacements tx = from_be (subslice 88 92 bs)"
    and ty: "tx_type_from_u8 (bs ! 92) = Some (tx_transaction_type tx)"
    and ins: "decode_seq slip_deserialize_from_net SLIP_SIZE 93 (unat inl) bs = Inr (tx_from tx)"
    and outs: "decode_seq slip_deserialize_from_net SLIP_SIZE (93 + unat inl * SLIP_SIZE) (unat outl) bs
       = Inr (tx_to tx)"
    and msg: "slice_r (93 + unat inl * SLIP_SIZE + unat outl * SLIP_SIZE)
       (93 + unat inl * SLIP_SIZE + unat outl * SLIP_SIZE + unat ml) bs = Inr (tx_data tx)"
    and path: "decode_seq hop_deserialize_from_net HOP_SIZE
       (93 + unat inl * SLIP_SIZE + unat outl * SLIP_SIZE + unat ml) (unat pl) bs = Inr (tx_path tx)"
    by (rule tx_deserialize_cases)
  note I = slip_codec.decode_seq_inv [OF ins len]
  let ?o = "93 + unat inl * SLIP_SIZE"
  have "?o \<le> length bs" using I by (simp add: mult.commute)
  note O = slip_codec.decode_seq_inv [OF outs this]
  let ?m = "?o + unat outl * SLIP_SIZE"
  let ?p = "?m + unat ml"
  have M: "?p \<le> length bs" "tx_data tx = subslice ?m ?p bs"
    using msg by (auto simp: slice_r_def split: if_splits)
  note P = hop_codec.decode_seq_inv [OF path M(1)]
  let ?e = "?p + unat pl * HOP_SIZE"
  have lens: "length (tx_from tx) = unat inl" "length (tx_to tx) = unat outl"
      "length (tx_data tx) = unat ml" "length (tx_path tx) = unat pl"
    using I O M P by simp_all
  show wf: "tx_wf tx" using I O P hdr len by (simp add: tx_wf_def)
  show fits: "tx_fits tx"
    using lens inl(2) outl(2) unat_u32_bound [of ml] unat_u32_bound [of pl] by (simp add: tx_fits_def word_le_nat_alt)
  have "tx_header tx = subslice 0 4 bs @ subslice 4 8 bs @ subslice 8 12 bs @ subslice 12 16 bs @
      subslice 16 80 bs @ subslice 80 88 bs @ subslice 88 92 bs @ subslice 92 93 bs"
    using hdr len inl outl ml pl subslice_one [of 92 bs]
    by (simp add: tx_header_def lens to_be_from_be_word tx_type_from_u8_Some [OF ty])
  then have h: "tx_header tx = subslice 0 93 bs" by (simp add: slice_cat)
  have "tx_serialize_for_net tx =
      subslice 0 93 bs @ subslice 93 ?o bs @ subslice ?o ?m bs @ subslice ?m ?p bs @ subslice ?p ?e bs"
    using I O M(2) P by (simp add: tx_serialize_layout [OF fits] h mult.commute)
  also have "\<dots> = subslice 0 ?e bs" by (simp add: slice_cat)
  finally show "\<exists>rest. bs = tx_serialize_for_net tx @ rest"
    by (intro exI [of _ "drop ?e bs"]) (simp add: subslice_def)
qed

text \<open>
  C4. Every buffer the decoder accepts is the encoding of the transaction it returns,
  followed by bytes it ignores; the transaction is well-formed and fits the format, so it
  re-encodes to the same bytes. Two different encodings never decode to the same
  transaction unless they differ only in trailing bytes.
\<close>

theorem tx_accepted_is_encoding:
  assumes "tx_deserialize_from_net bs = Inr tx"
  shows "tx_wf tx \<and> tx_fits tx \<and> (\<exists>rest. bs = tx_serialize_for_net tx @ rest)"
  using tx_serialized_parts [OF assms] by blast

theorem tx_accepted_is_encoding_witness:
  "tx_deserialize_from_net (tx_serialize_for_net tx_default) = Inr tx_default \<and>
   tx_wf tx_default \<and> tx_fits tx_default"
proof -
  have d: "tx_deserialize_from_net (tx_serialize_for_net tx_default) = Inr tx_default"
    by code_simp
  from tx_accepted_is_encoding [OF d] d show ?thesis by simp
qed

lemma length_tx_serialize:
  assumes "tx_wf tx" and "tx_fits tx"
  shows "length (tx_serialize_for_net tx) = tx_get_serialized_size tx"
  using assms
  by (simp add: tx_serialize_layout tx_get_serialized_size_def codec_simps tx_wf_def
      slip_codec.length_concat_enc hop_codec.length_concat_enc)

text \<open>
  A transaction cut short on the wire is not rejected with an error: for every proper
  prefix of an encoding that still holds the 93-byte header, the decoder indexes past the
  end of the buffer and panics. (Shorter prefixes give \<^verbatim>\<open>InvalidData\<close>.)
\<close>

theorem tx_truncated_buffer_panics:
  assumes wf: "tx_wf tx" and fits: "tx_fits tx" and n: "n < length (tx_serialize_for_net tx)"
  shows "tx_deserialize_from_net (take n (tx_serialize_for_net tx)) =
    (if n < TRANSACTION_SIZE then Inl InvalidData else Inl Panic)"
proof (cases "n < TRANSACTION_SIZE")
  case True
  then show ?thesis by (simp add: tx_deserialize_from_net_def min_less_iff_disj)
next
  case False
  let ?i = "concat (map slip_serialize_for_net (tx_from tx))"
  let ?o = "concat (map slip_serialize_for_net (tx_to tx))"
  let ?h = "concat (map hop_serialize_for_net (tx_path tx))"
  let ?buf = "tx_header tx @ ?i @ ?o @ tx_data tx @ ?h"
  let ?no = "93 + length (tx_from tx) * SLIP_SIZE"
  let ?nm = "?no + length (tx_to tx) * SLIP_SIZE"
  let ?np = "?nm + length (tx_data tx)"
  have buf: "tx_serialize_for_net tx = ?buf" by (rule tx_serialize_layout [OF fits])
  have len: "length (tx_header tx) = 93"
    using wf by (simp add: codec_simps TRANSACTION_SIZE_def)
  have wfs: "list_all slip_wf (tx_from tx)" "list_all slip_wf (tx_to tx)" "list_all hop_wf (tx_path tx)"
    using wf by (simp_all add: tx_wf_def)
  have li: "length ?i = length (tx_from tx) * SLIP_SIZE" and lo: "length ?o = length (tx_to tx) * SLIP_SIZE"
    and lh: "length ?h = length (tx_path tx) * HOP_SIZE"
    using wfs by (simp_all add: slip_codec.length_concat_enc hop_codec.length_concat_enc mult.commute)
  have hdr: "take n ?buf = tx_header tx @ take (n - 93) (?i @ ?o @ tx_data tx @ ?h)"
    using False len by (simp add: TRANSACTION_SIZE_def)
  have nlt: "n < ?np + length (tx_path tx) * HOP_SIZE"
    using n unfolding buf by (simp add: len li lo lh)
  have ins: "decode_seq slip_deserialize_from_net SLIP_SIZE 93 (length (tx_from tx)) (take n ?buf)
      = (if ?no \<le> n then Inr (map slip_wire (tx_from tx)) else Inl Panic)"
    using slip_codec.decode_seq_prefix [OF wfs(1) len, of n "?o @ tx_data tx @ ?h"] False n buf
    by (simp add: TRANSACTION_SIZE_def mult.commute)
  have outs: "?no \<le> n \<Longrightarrow>
      decode_seq slip_deserialize_from_net SLIP_SIZE ?no (length (tx_to tx)) (take n ?buf)
      = (if ?nm \<le> n then Inr (map slip_wire (tx_to tx)) else Inl Panic)"
    using slip_codec.decode_seq_prefix [OF wfs(2), of "tx_header tx @ ?i" ?no n "tx_data tx @ ?h"] n buf
    by (simp add: len li mult.commute)
  have msg: "slice_r ?nm ?np (take n ?buf) = (if ?np \<le> n then Inr (tx_data tx) else Inl Panic)"
    using nlt by (auto simp: slice_r_def subslice_def len li lo lh)
  have path: "?np \<le> n \<Longrightarrow> decode_seq hop_deserialize_from_net HOP_SIZE ?np (length (tx_path tx))
      (take n ?buf) = Inl Panic"
    using hop_codec.decode_seq_prefix [OF wfs(3), of "tx_header tx @ ?i @ ?o @ tx_data tx" ?np n "[]"]
      n buf nlt
    by (simp add: len li lo mult.commute add.assoc)
  have eq: "take n (tx_serialize_for_net tx) = tx_header tx @ take (n - 93) (?i @ ?o @ tx_data tx @ ?h)"
    by (simp only: buf hdr)
  have D: "tx_deserialize_from_net (take n (tx_serialize_for_net tx)) =
      rbind (decode_seq slip_deserialize_from_net SLIP_SIZE 93 (length (tx_from tx)) (take n ?buf)) (\<lambda>inputs.
      rbind (decode_seq slip_deserialize_from_net SLIP_SIZE ?no (length (tx_to tx)) (take n ?buf)) (\<lambda>outputs.
      rbind (slice_r ?nm ?np (take n ?buf)) (\<lambda>message.
      rbind (decode_seq hop_deserialize_from_net HOP_SIZE ?np (length (tx_path tx)) (take n ?buf)) (\<lambda>path.
      Inr ((tx_wire tx)\<lparr>tx_from := inputs, tx_to := outputs, tx_data := message,
             tx_path := path\<rparr>)))))"
    by (simp only: eq hdr tx_deserialize_header [OF wf fits] Let_def)
  have "tx_deserialize_from_net (take n (tx_serialize_for_net tx)) = Inl Panic"
  proof (cases "?no \<le> n")
    case no: True
    show ?thesis
      unfolding D ins outs [OF no] msg using no path
      by (cases "?nm \<le> n"; cases "?np \<le> n") (simp_all only: if_True if_False rbind.simps)
  next
    case False
    then show ?thesis unfolding D ins by (simp only: if_False rbind.simps)
  qed
  then show ?thesis using False by simp
qed

theorem tx_truncated_buffer_panics_witness:
  "tx_wf (tx_default\<lparr>tx_data := [7, 7]\<rparr>) \<and> tx_fits (tx_default\<lparr>tx_data := [7, 7]\<rparr>) \<and>
   tx_deserialize_from_net (take 94 (tx_serialize_for_net (tx_default\<lparr>tx_data := [7, 7]\<rparr>))) = Inl Panic"
proof -
  let ?tx = "tx_default\<lparr>tx_data := [7, 7]\<rparr>"
  have wf: "tx_wf ?tx" "tx_fits ?tx"
    by (simp_all add: tx_wf_def tx_fits_def tx_default_def)
  have "94 < length (tx_serialize_for_net ?tx)"
    using wf by (simp add: length_tx_serialize tx_get_serialized_size_def tx_default_def TRANSACTION_SIZE_def)
  from tx_truncated_buffer_panics [OF wf this] wf show ?thesis
    by (simp add: TRANSACTION_SIZE_def)
qed

text \<open>
  The size computed without serializing is the length of the serialized transaction.
\<close>

theorem tx_serialized_size_correct:
  assumes "tx_wf tx" and "tx_fits tx"
  shows "tx_get_serialized_size tx = length (tx_serialize_for_net tx)"
  by (rule length_tx_serialize [OF assms, symmetric])

theorem tx_serialized_size_correct_witness:
  "tx_wf tx_default \<and> tx_fits tx_default \<and> length (tx_serialize_for_net tx_default) = 93"
proof -
  have wf: "tx_wf tx_default" "tx_fits tx_default"
    by (simp_all add: tx_wf_def tx_fits_def tx_default_def)
  from tx_serialized_size_correct [OF wf] wf show ?thesis
    by (simp add: tx_get_serialized_size_def tx_default_def TRANSACTION_SIZE_def)
qed

end
