(* ===== verification/Transaction_Validate.thy ===== *)
theory Transaction_Validate
  imports Transaction_Ledger
begin

text \<open>
  \<^verbatim>\<open>Transaction::validate\<close> with all its branches, in the order of the source: size limits, fee
  and SPV transactions, block-stake transactions, the signature / path / value checks of
  user-originated transactions, the NFT rules of Bound transactions, and the check against
  the UTXO set. What it reads of the blockchain is the record \<open>chain_view\<close>.
\<close>

record chain_view =
  cv_utxoset :: utxoset
  cv_social_stake_requirement :: u64
  cv_latest_unlocked_stake_block_id :: u64

section \<open>Definitions\<close>

definition bc_is_slip_unlocked :: "chain_view \<Rightarrow> bytes \<Rightarrow> bool" where
  "bc_is_slip_unlocked bc utxo_key =
     (case slip_parse_slip_from_utxokey utxo_key of
        Inl _ \<Rightarrow> False
      | Inr s \<Rightarrow>
         (case cv_utxoset bc utxo_key of
            None \<Rightarrow> False
          | Some spendable \<Rightarrow>
              if \<not> spendable then False
              else if slip_slip_type s = ST_BlockStake \<and>
                      slip_block_id s > cv_latest_unlocked_stake_block_id bc then False
              else True))"

definition tx_validate_routing_path :: "ext \<Rightarrow> transaction \<Rightarrow> bool" where
  "tx_validate_routing_path X tx =
     list_all (\<lambda>(index, h).
        if \<not> verify X (tx_signature tx @ hop_to h) (hop_sig h) (hop_from h) then False
        else if hop_from h = hop_to h then False
        else if index > 0 \<and> hop_from h \<noteq> hop_to (tx_path tx ! (index - 1)) then False
        else True)
       (enumerate 0 (tx_path tx))"

definition tx_validate_against_utxoset :: "utxoset \<Rightarrow> transaction \<Rightarrow> bool" where
  "tx_validate_against_utxoset utxoset tx =
     (if tx_transaction_type tx = TT_Fee then True
      else list_all (\<lambda>s. slip_validate s utxoset) (tx_from tx))"

text \<open>The loop over the inputs of a block-stake transaction.\<close>

fun tx_stake_inputs_ok :: "chain_view \<Rightarrow> slip list \<Rightarrow> bool res" where
  "tx_stake_inputs_ok bc [] = Inr True"
| "tx_stake_inputs_ok bc (s # ss) =
     (if slip_utxoset_key s = replicate UTXO_KEY_LENGTH 0 then Inr False
      else if \<not> bc_is_slip_unlocked bc (slip_utxoset_key s) then Inr False
      else (case slip_parse_slip_from_utxokey (slip_utxoset_key s) of
              Inl _ \<Rightarrow> Inl Panic
            | Inr utxo_slip \<Rightarrow>
                if slip_amount utxo_slip \<noteq> slip_amount s then Inr False
                else tx_stake_inputs_ok bc ss))"

definition tx_validate_block_stake :: "chain_view \<Rightarrow> transaction \<Rightarrow> bool res" where
  "tx_validate_block_stake bc tx =
     (if list_ex (\<lambda>s. slip_slip_type s \<noteq> ST_BlockStake \<and> slip_slip_type s \<noteq> ST_Normal) (tx_to tx)
      then Inr False
      else
        (let total_stakes = sum_list (map slip_amount
               (filter (\<lambda>s. slip_slip_type s = ST_BlockStake) (tx_to tx)))
         in if total_stakes < cv_social_stake_requirement bc then Inr False
            else rbind (tx_stake_inputs_ok bc (tx_from tx)) (\<lambda>ok.
              if \<not> ok then Inr False
              else if card (set (map slip_utxoset_key (tx_from tx))) \<noteq> length (tx_from tx)
              then Inr False else Inr True)))"

definition tx_validate_user_originated :: "ext \<Rightarrow> transaction \<Rightarrow> bool" where
  "tx_validate_user_originated X tx =
     (if tx_from tx = [] then False
      else
        (case tx_hash_for_signature tx of
           Some h \<Rightarrow>
             if \<not> verify_signature X h (tx_signature tx) (slip_public_key (tx_from tx ! 0)) then False
             else if \<not> tx_validate_routing_path X tx then False
             else if tx_total_out tx > tx_total_in tx \<and> tx_transaction_type tx \<noteq> TT_Fee then False
             else True
         | None \<Rightarrow> False))"

definition tx_is_new_nft :: "transaction \<Rightarrow> bool" where
  "tx_is_new_nft tx =
     (length (tx_from tx) = 1 \<and> slip_slip_type (tx_from tx ! 0) = ST_Normal \<and> length (tx_to tx) \<ge> 3)"

text \<open>
  Minting. The loop over further slips runs over the inputs (\<^verbatim>\<open>self.from.iter().skip(3)\<close>), as
  in the source.
\<close>

definition tx_validate_create_bound :: "transaction \<Rightarrow> bool" where
  "tx_validate_create_bound tx =
     (if length (tx_to tx) < 3 then False
      else if slip_slip_type (tx_to tx ! 0) \<noteq> ST_Bound \<or> slip_slip_type (tx_to tx ! 2) \<noteq> ST_Bound then False
      else if slip_slip_type (tx_to tx ! 1) \<noteq> ST_Normal then False
      else if slip_amount (tx_to tx ! 2) \<noteq> 0 then False
      else if list_ex (\<lambda>s. slip_slip_type s \<noteq> ST_Normal) (drop 3 (tx_from tx)) then False
      else
        (let uuid_pk = slip_public_key (tx_to tx ! 2);
             rec_block_id = (from_be (subslice 0 8 uuid_pk) :: u64);
             rec_tx_ord = (from_be (subslice 8 16 uuid_pk) :: u64);
             rec_slip_id = uuid_pk ! 16;
             original_input = tx_from tx ! 0
         in if rec_block_id \<noteq> slip_block_id original_input \<or>
               rec_tx_ord \<noteq> slip_tx_ordinal original_input \<or>
               rec_slip_id \<noteq> slip_slip_index original_input then False
            else True))"

definition tx_validate_send_bound :: "transaction \<Rightarrow> bool" where
  "tx_validate_send_bound tx =
     (let fs = tx_from tx; ts = tx_to tx in
      if length fs < 3 then False
      else if length ts < 3 then False
      else if slip_slip_type (fs ! 0) \<noteq> ST_Bound \<or> slip_slip_type (fs ! 2) \<noteq> ST_Bound then False
      else if slip_slip_type (fs ! 1) \<noteq> ST_Normal then False
      else if slip_slip_type (ts ! 0) \<noteq> ST_Bound \<or> slip_slip_type (ts ! 2) \<noteq> ST_Bound then False
      else if slip_slip_type (ts ! 1) \<noteq> ST_Normal then False
      else if list_ex (\<lambda>s. slip_slip_type s \<noteq> ST_Normal) (drop 3 fs) then False
      else if list_ex (\<lambda>s. slip_slip_type s \<noteq> ST_Normal) (drop 3 ts) then False
      else if slip_public_key (fs ! 0) \<noteq> slip_public_key (ts ! 0) then False
      else if slip_public_key (fs ! 2) \<noteq> slip_public_key (ts ! 2) then False
      else if slip_amount (fs ! 0) \<noteq> slip_amount (ts ! 0) then False
      else if slip_amount (fs ! 2) \<noteq> slip_amount (ts ! 2) then False
      else if slip_amount (fs ! 2) \<noteq> 0 then False
      else if slip_block_id (fs ! 0) \<noteq> slip_block_id (fs ! 1) \<or>
              slip_block_id (fs ! 1) \<noteq> slip_block_id (fs ! 2) then False
      else if slip_tx_ordinal (fs ! 0) \<noteq> slip_tx_ordinal (fs ! 1) \<or>
              slip_tx_ordinal (fs ! 1) \<noteq> slip_tx_ordinal (fs ! 2) then False
      else if slip_slip_index (fs ! 1) \<noteq> slip_slip_index (fs ! 0) + 1 \<or>
              slip_slip_index (fs ! 2) \<noteq> slip_slip_index (fs ! 1) + 1 then False
      else True)"

definition tx_validate_bound :: "transaction \<Rightarrow> bool" where
  "tx_validate_bound tx =
     (if tx_transaction_type tx = TT_Bound then
        (if tx_is_new_nft tx then tx_validate_create_bound tx else tx_validate_send_bound tx)
      else if tx_transaction_type tx \<noteq> TT_ATR then
        (if list_ex (\<lambda>s. slip_slip_type s = ST_Bound) (tx_from tx) \<or>
            list_ex (\<lambda>s. slip_slip_type s = ST_Bound) (tx_to tx) then False else True)
      else True)"

text \<open>
  The whole check. The duplicate test compares the length of the list of keys with the
  length of the list of inputs, as the source does.
\<close>

definition tx_validate ::
    "ext \<Rightarrow> utxoset \<Rightarrow> chain_view \<Rightarrow> bool \<Rightarrow> transaction \<Rightarrow> bool res" where
  "tx_validate X utxoset bc validate_against_utxo tx =
     (if length (tx_from tx) > 255 then Inr False
      else if length (tx_to tx) > 255 then Inr False
      else if length (map slip_utxoset_key (tx_from tx)) \<noteq> length (tx_from tx) then Inr False
      else if tx_transaction_type tx = TT_Fee then Inr True
      else if tx_transaction_type tx = TT_SPV then
        (if tx_total_fees tx > 0 then Inr False else Inr True)
      else if tx_transaction_type tx = TT_BlockStake then tx_validate_block_stake bc tx
      else if tx_transaction_type tx \<noteq> TT_ATR \<and> tx_transaction_type tx \<noteq> TT_Issuance \<and>
              \<not> tx_validate_user_originated X tx then Inr False
      else if \<not> tx_validate_bound tx then Inr False
      else if tx_to tx = [] then Inr False
      else if validate_against_utxo then Inr (tx_validate_against_utxoset utxoset tx)
      else Inr True)"

section \<open>The check always returns\<close>

lemma unlocked_parses:
  "bc_is_slip_unlocked bc k \<Longrightarrow> \<exists>s. slip_parse_slip_from_utxokey k = Inr s \<and> cv_utxoset bc k = Some True"
  by (auto simp: bc_is_slip_unlocked_def split: sum.splits option.splits if_splits)

lemma tx_stake_inputs_ok_returns: "\<exists>r. tx_stake_inputs_ok bc ss = Inr r"
  by (induction ss) (auto split: sum.splits dest!: unlocked_parses)

lemma tx_validate_total: "\<exists>b. tx_validate X utxoset bc v tx = Inr b"
proof -
  obtain r where "tx_stake_inputs_ok bc (tx_from tx) = Inr r"
    using tx_stake_inputs_ok_returns by blast
  then have "tx_validate X utxoset bc v tx \<noteq> Inl e" for e
    by (auto simp: tx_validate_def tx_validate_block_stake_def Let_def split: if_splits)
  then show ?thesis
    by (cases "tx_validate X utxoset bc v tx") auto
qed


section \<open>What generate leaves alone\<close>

lemma tx_generate_simps [simp]:
  "tx_transaction_type (tx_generate X pk i b tx) = tx_transaction_type tx"
  "tx_signature (tx_generate X pk i b tx) = tx_signature tx"
  "tx_path (tx_generate X pk i b tx) = tx_path tx"
  "length (tx_from (tx_generate X pk i b tx)) = length (tx_from tx)"
  "length (tx_to (tx_generate X pk i b tx)) = length (tx_to tx)"
  by (simp_all add: tx_generate_def tx_generate_total_work_def tx_generate_total_fees_def
      tx_generate_hash_for_signature_def Let_def split: list.split option.split)

lemma tx_generate_from: "tx_from (tx_generate X pk i b tx) = map slip_generate_utxoset_key (tx_from tx)"
  by (simp add: tx_generate_def tx_generate_total_work_def tx_generate_total_fees_def
      tx_generate_hash_for_signature_def Let_def split: list.split option.split)

lemma tx_generate_to:
  "tx_to (tx_generate X pk i b tx) = map (\<lambda>(n, s). tx_stamp_output i b n s) (enumerate 0 (tx_to tx))"
  by (simp add: tx_generate_def tx_generate_total_work_def tx_generate_total_fees_def
      tx_generate_hash_for_signature_def Let_def split: list.split option.split)

lemma tx_generate_hash:
  "tx_hash_for_signature (tx_generate X pk i b tx) =
     Some (if tx_transaction_type tx = TT_SPV then subslice 0 32 (tx_signature tx)
           else hash X (tx_serialize_for_signature tx))"
  by (simp add: tx_generate_def tx_generate_total_work_def tx_generate_total_fees_def
      tx_generate_hash_for_signature_def Let_def split: list.split option.split)

lemma tx_generate_totals:
  "tx_total_in (tx_generate X pk i b tx) = sum_list (map slip_counted_amount (tx_from tx))"
  "tx_total_out (tx_generate X pk i b tx) = sum_list (map slip_counted_amount (tx_to tx))"
  "tx_total_fees (tx_generate X pk i b tx) =
     tx_total_fees (tx_generate_total_fees i b (tx_generate_hash_for_signature X tx))"
proof -
  have w: "tx_total_in (tx_generate_total_work pk t) = tx_total_in t"
    "tx_total_out (tx_generate_total_work pk t) = tx_total_out t"
    "tx_total_fees (tx_generate_total_work pk t) = tx_total_fees t" for t
    by (simp_all add: tx_generate_total_work_def split: list.split option.split)
  have h: "tx_from (tx_generate_hash_for_signature X tx) = tx_from tx"
    "tx_to (tx_generate_hash_for_signature X tx) = tx_to tx"
    by (simp_all add: tx_generate_hash_for_signature_def)
  show "tx_total_in (tx_generate X pk i b tx) = sum_list (map slip_counted_amount (tx_from tx))"
    "tx_total_out (tx_generate X pk i b tx) = sum_list (map slip_counted_amount (tx_to tx))"
    "tx_total_fees (tx_generate X pk i b tx) =
       tx_total_fees (tx_generate_total_fees i b (tx_generate_hash_for_signature X tx))"
    by (simp_all only: tx_generate_def w tx_generate_total_fees_totals h)
qed

lemma stamp_slip_type [simp]: "slip_slip_type (tx_stamp_output i b n s) = slip_slip_type s"
  by (simp add: tx_stamp_output_def)

lemma list_ex_type_iff:
  "list_ex (\<lambda>s. slip_slip_type s = t) ss \<longleftrightarrow> t \<in> set (map slip_slip_type ss)"
  by (auto simp: list_ex_iff)

lemma map_stamped_types:
  "map slip_slip_type (map (\<lambda>(n, s). tx_stamp_output i b n s) (enumerate k ss)) = map slip_slip_type ss"
  by (rule map_enumerate_invariant) simp

lemma tx_generate_types:
  "map slip_slip_type (tx_from (tx_generate X pk i b tx)) = map slip_slip_type (tx_from tx)"
  "map slip_slip_type (tx_to (tx_generate X pk i b tx)) = map slip_slip_type (tx_to tx)"
  by (simp_all only: tx_generate_from tx_generate_to map_stamped_types) simp

section \<open>What acceptance guarantees\<close>

definition user_originated :: "TransactionType \<Rightarrow> bool" where
  "user_originated t \<longleftrightarrow> t \<notin> {TT_Fee, TT_SPV, TT_BlockStake, TT_ATR, TT_Issuance}"

lemma tx_validate_user_True:
  assumes "tx_validate X u bc v tx = Inr True" and "user_originated (tx_transaction_type tx)"
  shows "tx_validate_user_originated X tx" and "tx_validate_bound tx" and "tx_to tx \<noteq> []"
    and "v \<Longrightarrow> list_all (\<lambda>s. slip_validate s u) (tx_from tx)"
  using assms
  by (auto simp: tx_validate_def user_originated_def tx_validate_against_utxoset_def split: if_splits)

text \<open>
  C1. A user-originated transaction that validates is signed by the owner of its first input
  over its current contents, carries a verified and connected routing path, spends only
  spendable slips, and, as long as neither sum of its slips exceeds 64 bits, does not create
  money: outputs plus fee equal inputs.
\<close>

theorem validated_tx_sound:
  assumes valid: "tx_validate X u bc True (tx_generate X pk i b tx) = Inr True"
    and ty: "user_originated (tx_transaction_type tx)"
    and no_overflow: "sum_list (map slip_value (tx_from tx)) < 2 ^ 64"
      "sum_list (map slip_value (tx_to tx)) < 2 ^ 64"
  shows "tx_from tx \<noteq> [] \<and>
    verify_signature X (hash X (tx_serialize_for_signature tx)) (tx_signature tx)
      (slip_public_key (hd (tx_from tx))) \<and>
    tx_validate_routing_path X (tx_generate X pk i b tx) \<and>
    (\<forall>s \<in> set (tx_from tx). slip_amount s = 0 \<or> u (slip_get_utxoset_key s) = Some True) \<and>
    sum_list (map slip_value (tx_to tx)) + unat (tx_total_fees (tx_generate X pk i b tx)) =
      sum_list (map slip_value (tx_from tx))"
proof -
  let ?g = "tx_generate X pk i b tx"
  have tyg: "user_originated (tx_transaction_type ?g)" using ty by simp
  have spv: "tx_transaction_type tx \<noteq> TT_SPV" using ty by (auto simp: user_originated_def)
  note V = tx_validate_user_True [OF valid tyg]
  from V(1) have ne: "tx_from tx \<noteq> []"
    and sig: "verify_signature X (hash X (tx_serialize_for_signature tx)) (tx_signature tx)
      (slip_public_key (tx_from ?g ! 0))"
    and path: "tx_validate_routing_path X ?g" and tot: "\<not> tx_total_out ?g > tx_total_in ?g"
    using spv ty
    by (auto simp: tx_validate_user_originated_def tx_generate_hash tx_generate_from
        user_originated_def split: if_splits)
  have "slip_public_key (tx_from ?g ! 0) = slip_public_key (hd (tx_from tx))"
    using ne by (cases "tx_from tx") (simp_all add: tx_generate_from)
  moreover have "\<forall>s \<in> set (tx_from tx). slip_amount s = 0 \<or> u (slip_get_utxoset_key s) = Some True"
    using V(4) by (auto simp: tx_generate_from list_all_iff slip_validate_iff)
  moreover have "sum_list (map slip_value (tx_to tx)) + unat (tx_total_fees ?g) =
      sum_list (map slip_value (tx_from tx))"
  proof -
    let ?h = "tx_generate_hash_for_signature X tx"
    have ft: "tx_from ?h = tx_from tx" "tx_to ?h = tx_to tx"
      by (simp_all add: tx_generate_hash_for_signature_def)
    have "unat (tx_total_fees ?g) = sum_list (map slip_value (tx_from tx)) - sum_list (map slip_value (tx_to tx))"
      using tx_generate_total_fees_totals tx_generate_total_fees_fee [of i b ?h] no_overflow
      by (auto simp: tx_generate_totals ft tx_generate_total_fees_totals sum_counted_mod
          word_less_nat_alt unat_sub word_le_nat_alt)
    moreover have "sum_list (map slip_value (tx_to tx)) \<le> sum_list (map slip_value (tx_from tx))"
      using tot no_overflow by (simp add: tx_generate_totals not_less word_le_nat_alt sum_counted_mod)
    ultimately show ?thesis by simp
  qed
  ultimately show ?thesis using ne sig path by simp
qed

section \<open>Honest payments are accepted\<close>

lemma tx_sign_result:
  assumes "crypto_laws X" and "sk_ok X sk"
  obtains stx where "tx_sign X sk tx = Inr stx"
    and "tx_from stx = tx_from tx" and "tx_path stx = tx_path tx"
    and "tx_transaction_type stx = tx_transaction_type tx"
    and "map slip_counted_amount (tx_to stx) = map slip_counted_amount (tx_to tx)"
    and "map slip_slip_type (tx_to stx) = map slip_slip_type (tx_to tx)"
    and "verify_signature X (hash X (tx_serialize_for_signature stx)) (tx_signature stx) (pk_of_sk X sk)"
proof -
  let ?tos = "map (\<lambda>(i, output). output\<lparr>slip_slip_index := of_nat i\<rparr>) (enumerate 0 (tx_to tx))"
  let ?buf = "tx_serialize_for_signature (tx\<lparr>tx_to := ?tos\<rparr>)"
  obtain sig where sig: "sign X ?buf sk = Inr sig" and ver: "verify X ?buf sig (pk_of_sk X sk)"
    using sign_Inr [OF assms] by blast
  let ?stx = "tx\<lparr>tx_to := ?tos, tx_hash_for_signature := Some (hash X ?buf), tx_signature := sig\<rparr>"
  have buf: "tx_serialize_for_signature ?stx = ?buf"
    by (simp add: tx_serialize_for_signature_def)
  show ?thesis
  proof (rule that [of ?stx])
    show "tx_sign X sk tx = Inr ?stx" using sig by (simp add: tx_sign_def Let_def)
    have "map slip_counted_amount ?tos = map slip_counted_amount (tx_to tx)"
      by (rule map_enumerate_invariant) (simp add: slip_counted_amount_def)
    then show "map slip_counted_amount (tx_to ?stx) = map slip_counted_amount (tx_to tx)"
      by simp
    have "map slip_slip_type ?tos = map slip_slip_type (tx_to tx)"
      by (rule map_enumerate_invariant) simp
    then show "map slip_slip_type (tx_to ?stx) = map slip_slip_type (tx_to tx)"
      by simp
    show "verify_signature X (hash X (tx_serialize_for_signature ?stx)) (tx_signature ?stx) (pk_of_sk X sk)"
      unfolding buf using ver by (simp add: verify_def)
  qed simp_all
qed

lemma signed_payment_validates_word:
  assumes laws: "crypto_laws X" "sk_ok X sk"
    and ty: "tx_transaction_type tx = TT_Normal" and path: "tx_path tx = []"
    and ins: "tx_from tx \<noteq> []" "length (tx_from tx) \<le> 255"
      "slip_public_key (hd (tx_from tx)) = pk_of_sk X sk"
    and outs: "tx_to tx \<noteq> []" "length (tx_to tx) \<le> 255"
    and normal: "\<not> list_ex (\<lambda>s. slip_slip_type s = ST_Bound) (tx_from tx @ tx_to tx)"
    and funds: "sum_list (map slip_counted_amount (tx_to tx)) \<le> sum_list (map slip_counted_amount (tx_from tx))"
    and spendable: "list_all (\<lambda>s. slip_validate (slip_generate_utxoset_key s) u) (tx_from tx)"
  shows "\<exists>stx. tx_sign X sk tx = Inr stx \<and> tx_validate X u bc True (tx_generate X pk i b stx) = Inr True"
proof -
  obtain stx where s: "tx_sign X sk tx = Inr stx" "tx_from stx = tx_from tx" "tx_path stx = tx_path tx"
    "tx_transaction_type stx = tx_transaction_type tx"
    "map slip_counted_amount (tx_to stx) = map slip_counted_amount (tx_to tx)"
    "map slip_slip_type (tx_to stx) = map slip_slip_type (tx_to tx)"
    "verify_signature X (hash X (tx_serialize_for_signature stx)) (tx_signature stx) (pk_of_sk X sk)"
    by (rule tx_sign_result [OF laws])
  let ?g = "tx_generate X pk i b stx"
  have len: "length (tx_to stx) = length (tx_to tx)" using s(6) by (metis length_map)
  have bound: "\<not> list_ex (\<lambda>s. slip_slip_type s = ST_Bound) (tx_to stx)"
    using normal s(6) by (simp add: list_ex_type_iff del: set_map)
  have "tx_validate_user_originated X ?g"
    using s ins funds path ty
    by (cases "tx_from tx")
      (auto simp: tx_validate_user_originated_def tx_generate_from tx_generate_hash tx_generate_totals
        tx_validate_routing_path_def)
  moreover have "tx_validate_bound ?g"
    using bound normal s(2,4) ty
    by (simp add: tx_validate_bound_def list_ex_type_iff tx_generate_types del: set_map)
  moreover have "tx_validate_against_utxoset u ?g"
    using spendable s(2) by (simp add: tx_validate_against_utxoset_def tx_generate_from list_all_iff)
  moreover have "tx_to ?g \<noteq> []" using outs len by (metis tx_generate_simps(5) length_0_conv)
  ultimately have "tx_validate X u bc True ?g = Inr True"
    using s ins(2) outs(2) len ty by (simp add: tx_validate_def)
  then show ?thesis using s(1) by blast
qed

lemma slip_value_counted: "map slip_value ss = map unat (map slip_counted_amount ss)"
  by (simp add: unat_slip_counted_amount)

text \<open>
  C2. An honest payment is accepted: a Normal transaction with spendable inputs led by one of
  the signer's, at least one output, no Bound slips, and inputs that cover the outputs
  validates once it is signed with the key of the first input and its data generated.
\<close>

theorem signed_payment_validates:
  assumes laws: "crypto_laws X" "sk_ok X sk"
    and ty: "tx_transaction_type tx = TT_Normal" and path: "tx_path tx = []"
    and ins: "tx_from tx \<noteq> []" "length (tx_from tx) \<le> 255"
      "slip_public_key (hd (tx_from tx)) = pk_of_sk X sk"
    and outs: "tx_to tx \<noteq> []" "length (tx_to tx) \<le> 255"
    and normal: "\<not> list_ex (\<lambda>s. slip_slip_type s = ST_Bound) (tx_from tx @ tx_to tx)"
    and funds: "sum_list (map slip_value (tx_to tx)) \<le> sum_list (map slip_value (tx_from tx))"
      "sum_list (map slip_value (tx_from tx)) < 2 ^ 64"
    and spendable: "list_all (\<lambda>s. slip_validate (slip_generate_utxoset_key s) u) (tx_from tx)"
  shows "\<exists>stx. tx_sign X sk tx = Inr stx \<and> tx_validate X u bc True (tx_generate X pk i b stx) = Inr True"
proof -
  have "sum_list (map slip_counted_amount (tx_to tx)) \<le> sum_list (map slip_counted_amount (tx_from tx))"
    using funds by (simp add: word_le_nat_alt sum_counted_mod)
  then show ?thesis
    by (rule signed_payment_validates_word [OF laws ty path ins outs normal _ spendable])
qed

definition demo_sk :: bytes where "demo_sk = replicate 32 7"
definition demo_coin :: slip where
  "demo_coin = slip_default\<lparr>slip_public_key := 2 # demo_sk, slip_amount := 5\<rparr>"
definition demo_payment :: transaction where
  "demo_payment = tx_default\<lparr>tx_from := [demo_coin], tx_to := [slip_default\<lparr>slip_amount := 3\<rparr>]\<rparr>"
definition demo_utxoset :: utxoset where
  "demo_utxoset = [slip_get_utxoset_key demo_coin \<mapsto> True]"
definition demo_view :: chain_view where
  "demo_view = \<lparr>cv_utxoset = demo_utxoset, cv_social_stake_requirement = 4,
     cv_latest_unlocked_stake_block_id = 0\<rparr>"

lemma demo_facts:
  "sk_ok demo_ext demo_sk" "pk_of_sk demo_ext demo_sk = 2 # demo_sk"
  "slip_wf demo_coin" "slip_validate (slip_generate_utxoset_key demo_coin) demo_utxoset"
  by (simp_all add: demo_ext_def demo_sk_def demo_coin_def slip_wf_def slip_default_def
      demo_utxoset_def slip_validate_iff)

lemma demo_payment_validates:
  "\<exists>stx. tx_sign demo_ext demo_sk demo_payment = Inr stx \<and>
     tx_validate demo_ext demo_utxoset demo_view True (tx_generate demo_ext [] 0 0 stx) = Inr True"
  by (rule signed_payment_validates_word [OF crypto_laws_demo demo_facts(1)])
    (use demo_facts in \<open>simp_all add: demo_payment_def tx_default_def demo_coin_def
      slip_counted_amount_def slip_default_def\<close>)

theorem signed_payment_validates_witness:
  "crypto_laws demo_ext \<and>
   (\<exists>stx. tx_sign demo_ext demo_sk demo_payment = Inr stx \<and>
      tx_validate demo_ext demo_utxoset demo_view True (tx_generate demo_ext [] 0 0 stx) = Inr True)"
proof -
  have "\<exists>stx. tx_sign demo_ext demo_sk demo_payment = Inr stx \<and>
      tx_validate demo_ext demo_utxoset demo_view True (tx_generate demo_ext [] 0 0 stx) = Inr True"
    by (rule signed_payment_validates [OF crypto_laws_demo demo_facts(1)])
      (use demo_facts in \<open>simp_all add: demo_payment_def tx_default_def demo_coin_def slip_value_def
        slip_default_def\<close>)
  then show ?thesis using crypto_laws_demo by blast
qed

theorem validated_tx_sound_witness:
  "\<exists>stx. tx_validate demo_ext demo_utxoset demo_view True (tx_generate demo_ext [] 0 0 stx) = Inr True \<and>
     user_originated (tx_transaction_type stx) \<and>
     verify_signature demo_ext (hash demo_ext (tx_serialize_for_signature stx)) (tx_signature stx)
       (slip_public_key (hd (tx_from stx))) \<and>
     3 + unat (tx_total_fees (tx_generate demo_ext [] 0 0 stx)) = 5"
proof -
  obtain stx where s: "tx_sign demo_ext demo_sk demo_payment = Inr stx"
    "tx_validate demo_ext demo_utxoset demo_view True (tx_generate demo_ext [] 0 0 stx) = Inr True"
    using demo_payment_validates by blast
  obtain stx' where "tx_sign demo_ext demo_sk demo_payment = Inr stx'"
    and r: "tx_from stx' = tx_from demo_payment" "tx_transaction_type stx' = tx_transaction_type demo_payment"
      "map slip_counted_amount (tx_to stx') = map slip_counted_amount (tx_to demo_payment)"
    by (rule tx_sign_result [OF crypto_laws_demo demo_facts(1), of demo_payment])
  with s(1) have eq: "stx' = stx" by simp
  have ty: "user_originated (tx_transaction_type stx)"
    using r(2) by (simp add: eq user_originated_def demo_payment_def tx_default_def)
  have to: "sum_list (map slip_value (tx_to stx)) = 3"
    using r(3) unfolding eq slip_value_counted
    by (simp only:) (simp add: demo_payment_def tx_default_def slip_counted_amount_def slip_default_def)
  have fr: "sum_list (map slip_value (tx_from stx)) = 5"
    using r(1) by (simp add: eq demo_payment_def tx_default_def demo_coin_def slip_value_def slip_default_def)
  have "sum_list (map slip_value (tx_from stx)) < 2 ^ 64" "sum_list (map slip_value (tx_to stx)) < 2 ^ 64"
    by (simp_all add: fr to)
  from validated_tx_sound [OF s(2) ty this] s(2) ty fr to show ?thesis by auto
qed

section \<open>What acceptance does not guarantee\<close>

text \<open>
  C10. The value check compares totals that wrapped modulo \<open>2 ^ 64\<close>: the owner of a spendable
  slip of 1 nolan can sign a transaction with two outputs of \<open>2 ^ 63\<close> nolan each, and it
  validates. Its outputs exceed its inputs by \<open>2 ^ 64 - 1\<close>.
\<close>

theorem overflowing_outputs_validate:
  assumes laws: "crypto_laws X" "sk_ok X sk"
    and coin: "s = slip_default\<lparr>slip_public_key := pk_of_sk X sk, slip_amount := 1\<rparr>"
      "u (slip_get_utxoset_key s) = Some True"
  shows "\<exists>stx. tx_from stx = [s] \<and>
    tx_validate X u bc True (tx_generate X pk i b stx) = Inr True \<and>
    sum_list (map slip_value (tx_from stx)) = 1 \<and> sum_list (map slip_value (tx_to stx)) = 2 ^ 64"
proof -
  let ?o = "slip_default\<lparr>slip_amount := 2 ^ 63\<rparr>"
  let ?tx = "tx_default\<lparr>tx_from := [s], tx_to := [?o, ?o]\<rparr>"
  have "\<exists>stx. tx_sign X sk ?tx = Inr stx \<and> tx_validate X u bc True (tx_generate X pk i b stx) = Inr True"
    by (rule signed_payment_validates_word [OF laws])
      (use coin in \<open>simp_all add: tx_default_def slip_counted_amount_def slip_default_def
        slip_validate_iff word_le_nat_alt\<close>)
  then obtain stx where s: "tx_sign X sk ?tx = Inr stx"
    and v: "tx_validate X u bc True (tx_generate X pk i b stx) = Inr True"
    by blast
  obtain stx' where "tx_sign X sk ?tx = Inr stx'" and r: "tx_from stx' = tx_from ?tx"
      "map slip_counted_amount (tx_to stx') = map slip_counted_amount (tx_to ?tx)"
    by (rule tx_sign_result [OF laws, of ?tx])
  with s have eq: "stx' = stx" by simp
  have "sum_list (map slip_value (tx_to stx)) = 2 ^ 64"
    using r(2) unfolding eq slip_value_counted
    by (simp only:) (simp add: slip_counted_amount_def slip_default_def)
  moreover have "tx_from stx = [s]" using r(1) by (simp add: eq)
  ultimately show ?thesis
    using v coin by (auto simp: slip_value_def slip_default_def)
qed

theorem overflowing_outputs_validate_witness:
  "\<exists>stx. tx_validate demo_ext [slip_get_utxoset_key (slip_default\<lparr>slip_public_key := 2 # demo_sk,
       slip_amount := 1\<rparr>) \<mapsto> True] demo_view True (tx_generate demo_ext [] 0 0 stx) = Inr True \<and>
     sum_list (map slip_value (tx_to stx)) = 2 ^ 64"
  using overflowing_outputs_validate [OF crypto_laws_demo demo_facts(1) refl,
      of "[slip_get_utxoset_key (slip_default\<lparr>slip_public_key := 2 # demo_sk, slip_amount := 1\<rparr>) \<mapsto> True]"
        demo_view "[]" 0 0]
  by (auto simp: demo_facts)

text \<open>
  C26. The duplicate-input test never rejects: a transaction that lists the same spendable slip
  twice validates, counts its amount twice and may pay out double what it spends.
\<close>

theorem duplicate_inputs_validate:
  assumes laws: "crypto_laws X" "sk_ok X sk"
    and coin: "slip_public_key s = pk_of_sk X sk" "slip_slip_type s = ST_Normal"
      "unat (slip_amount s) < 2 ^ 63" "u (slip_get_utxoset_key s) = Some True"
  shows "\<exists>stx. tx_from stx = [s, s] \<and>
    tx_validate X u bc True (tx_generate X pk i b stx) = Inr True \<and>
    sum_list (map slip_value (tx_to stx)) = 2 * slip_value s"
proof -
  let ?o = "slip_default\<lparr>slip_amount := slip_amount s + slip_amount s\<rparr>"
  let ?tx = "tx_default\<lparr>tx_from := [s, s], tx_to := [?o]\<rparr>"
  have "\<exists>stx. tx_sign X sk ?tx = Inr stx \<and> tx_validate X u bc True (tx_generate X pk i b stx) = Inr True"
    by (rule signed_payment_validates_word [OF laws])
      (use coin in \<open>simp_all add: tx_default_def slip_counted_amount_def slip_default_def
        slip_validate_iff word_le_nat_alt\<close>)
  then obtain stx where s: "tx_sign X sk ?tx = Inr stx"
    and v: "tx_validate X u bc True (tx_generate X pk i b stx) = Inr True"
    by blast
  obtain stx' where "tx_sign X sk ?tx = Inr stx'" and r: "tx_from stx' = tx_from ?tx"
      "map slip_counted_amount (tx_to stx') = map slip_counted_amount (tx_to ?tx)"
    by (rule tx_sign_result [OF laws, of ?tx])
  with s have eq: "stx' = stx" by simp
  have "sum_list (map slip_value (tx_to stx)) = unat (slip_amount s + slip_amount s)"
    using r(2) unfolding eq slip_value_counted
    by (simp only:) (simp add: slip_counted_amount_def slip_default_def)
  also have "\<dots> = 2 * slip_value s"
    using coin by (simp add: unat_word_ariths slip_value_def)
  finally show ?thesis
    using r(1) v by (auto simp: eq)
qed

theorem duplicate_inputs_validate_witness:
  "\<exists>stx. tx_from stx = [demo_coin, demo_coin] \<and>
     tx_validate demo_ext demo_utxoset demo_view True (tx_generate demo_ext [] 0 0 stx) = Inr True \<and>
     sum_list (map slip_value (tx_to stx)) = 2 * slip_value demo_coin"
  by (rule duplicate_inputs_validate [OF crypto_laws_demo demo_facts(1)])
    (simp_all add: demo_facts demo_coin_def slip_default_def demo_utxoset_def)

section \<open>Block-stake transactions\<close>

lemma tx_stake_inputs_ok_True:
  "tx_stake_inputs_ok bc ss = Inr True \<longleftrightarrow>
     (\<forall>s \<in> set ss. slip_utxoset_key s \<noteq> replicate UTXO_KEY_LENGTH 0 \<and>
        bc_is_slip_unlocked bc (slip_utxoset_key s) \<and>
        (\<exists>p. slip_parse_slip_from_utxokey (slip_utxoset_key s) = Inr p \<and> slip_amount p = slip_amount s))"
  by (induction ss) (auto split: sum.splits)

text \<open>
  C7. A block-stake transaction that validates spends pairwise different UTXO keys, every one
  of them spendable and past its lock period, with the amount recorded in the key; it only
  creates Normal and BlockStake outputs, and the staked outputs add up (in 64-bit
  arithmetic) to at least the required social stake.
\<close>

theorem validated_stake_sound:
  assumes "tx_validate X u bc v tx = Inr True" and "tx_transaction_type tx = TT_BlockStake"
  shows "distinct (map slip_utxoset_key (tx_from tx)) \<and>
    (\<forall>s \<in> set (tx_from tx). bc_is_slip_unlocked bc (slip_utxoset_key s) \<and>
       cv_utxoset bc (slip_utxoset_key s) = Some True \<and>
       (\<exists>p. slip_parse_slip_from_utxokey (slip_utxoset_key s) = Inr p \<and> slip_amount p = slip_amount s)) \<and>
    (\<forall>s \<in> set (tx_to tx). slip_slip_type s \<in> {ST_BlockStake, ST_Normal}) \<and>
    cv_social_stake_requirement bc \<le>
      sum_list (map slip_amount (filter (\<lambda>s. slip_slip_type s = ST_BlockStake) (tx_to tx)))"
proof -
  from assms have "tx_validate_block_stake bc tx = Inr True"
    by (auto simp: tx_validate_def split: if_splits)
  then have ins: "tx_stake_inputs_ok bc (tx_from tx) = Inr True"
    and card: "card (set (map slip_utxoset_key (tx_from tx))) = length (map slip_utxoset_key (tx_from tx))"
    and outs: "\<forall>s \<in> set (tx_to tx). slip_slip_type s \<in> {ST_BlockStake, ST_Normal}"
    and stake: "cv_social_stake_requirement bc \<le>
      sum_list (map slip_amount (filter (\<lambda>s. slip_slip_type s = ST_BlockStake) (tx_to tx)))"
    by (auto simp: tx_validate_block_stake_def Let_def list_ex_iff not_less split: if_splits)
  from card have "distinct (map slip_utxoset_key (tx_from tx))" by (rule card_distinct)
  with ins outs stake show ?thesis
    by (auto simp: tx_stake_inputs_ok_True dest: unlocked_parses)
qed

definition demo_stake :: transaction where
  "demo_stake = tx_default\<lparr>tx_transaction_type := TT_BlockStake,
     tx_from := [slip_generate_utxoset_key demo_coin],
     tx_to := [slip_default\<lparr>slip_amount := 5, slip_slip_type := ST_BlockStake\<rparr>]\<rparr>"

lemma demo_coin_type: "slip_slip_type demo_coin = ST_Normal"
  by (simp add: demo_coin_def slip_default_def)

lemma demo_coin_unlocked:
  "bc_is_slip_unlocked demo_view (slip_get_utxoset_key demo_coin)"
  "slip_get_utxoset_key demo_coin \<noteq> replicate UTXO_KEY_LENGTH 0"
proof -
  show "bc_is_slip_unlocked demo_view (slip_get_utxoset_key demo_coin)"
    by (simp add: bc_is_slip_unlocked_def parse_get_utxoset_key demo_facts demo_view_def
        demo_utxoset_def demo_coin_type)
  have "slip_get_utxoset_key demo_coin ! 0 \<noteq> replicate UTXO_KEY_LENGTH 0 ! 0"
    by (simp add: slip_get_utxoset_key_def demo_coin_def UTXO_KEY_LENGTH_def)
  then show "slip_get_utxoset_key demo_coin \<noteq> replicate UTXO_KEY_LENGTH 0" by metis
qed

theorem validated_stake_sound_witness:
  "tx_validate demo_ext demo_utxoset demo_view True demo_stake = Inr True \<and>
   distinct (map slip_utxoset_key (tx_from demo_stake)) \<and> 4 \<le> (5 :: u64)"
proof -
  have v: "tx_validate demo_ext demo_utxoset demo_view True demo_stake = Inr True"
    using demo_coin_unlocked demo_facts(3)
    by (simp add: tx_validate_def demo_stake_def tx_default_def tx_validate_block_stake_def
        demo_view_def parse_get_utxoset_key slip_default_def)
  have "tx_transaction_type demo_stake = TT_BlockStake"
    by (simp add: demo_stake_def)
  from validated_stake_sound [OF v this] v show ?thesis by simp
qed

text \<open>
  Nothing else is checked of a block-stake transaction: given any unlocked slip, whoever
  owns it, a transaction that spends it into a stake output of any sufficient amount
  validates with any signature. It need not be signed by the owner, and it may stake more
  than it spends.
\<close>

theorem stake_needs_no_signature:
  assumes "slip_wf s" and "bc_is_slip_unlocked bc (slip_get_utxoset_key s)"
    and "slip_get_utxoset_key s \<noteq> replicate UTXO_KEY_LENGTH 0"
    and "cv_social_stake_requirement bc \<le> amount"
  shows "tx_validate X u bc v (tx_default\<lparr>
     tx_transaction_type := TT_BlockStake, tx_from := [slip_generate_utxoset_key s],
     tx_to := [slip_default\<lparr>slip_slip_type := ST_BlockStake, slip_amount := amount\<rparr>],
     tx_signature := any_signature\<rparr>) = Inr True"
  using assms
  by (simp add: tx_validate_def tx_default_def tx_validate_block_stake_def parse_get_utxoset_key
      slip_default_def not_less [symmetric])

theorem stake_needs_no_signature_witness:
  "tx_validate demo_ext demo_utxoset demo_view True (tx_default\<lparr>
     tx_transaction_type := TT_BlockStake, tx_from := [slip_generate_utxoset_key demo_coin],
     tx_to := [slip_default\<lparr>slip_slip_type := ST_BlockStake, slip_amount := 1000000\<rparr>],
     tx_signature := []\<rparr>) = Inr True \<and> unat (slip_amount demo_coin) = 5"
  using stake_needs_no_signature [OF demo_facts(3) demo_coin_unlocked, of 1000000 demo_ext demo_utxoset True "[]"]
  by (simp add: demo_view_def demo_coin_def)

section \<open>NFT transfers\<close>

text \<open>
  C8. A Bound transaction that validates and is not a new NFT transfers exactly one NFT: its
  first and third inputs and outputs are the Bound slips with the same public keys (the NFT
  identity) and amounts, the third carries no value, the three inputs come from the same
  transaction of the same block at consecutive slip indices, and no other input or output is
  Bound.
\<close>

theorem validated_nft_transfer_preserves_nft:
  assumes "tx_validate X u bc v tx = Inr True" and "tx_transaction_type tx = TT_Bound"
    and "\<not> tx_is_new_nft tx"
  shows "\<exists>f0 f1 f2 fs t0 t1 t2 ts. tx_from tx = f0 # f1 # f2 # fs \<and> tx_to tx = t0 # t1 # t2 # ts \<and>
    slip_slip_type f0 = ST_Bound \<and> slip_slip_type f1 = ST_Normal \<and> slip_slip_type f2 = ST_Bound \<and>
    slip_slip_type t0 = ST_Bound \<and> slip_slip_type t1 = ST_Normal \<and> slip_slip_type t2 = ST_Bound \<and>
    list_all (\<lambda>s. slip_slip_type s = ST_Normal) (fs @ ts) \<and>
    slip_public_key t0 = slip_public_key f0 \<and> slip_amount t0 = slip_amount f0 \<and>
    slip_public_key t2 = slip_public_key f2 \<and> slip_amount t2 = 0 \<and> slip_amount f2 = 0 \<and>
    slip_block_id f1 = slip_block_id f0 \<and> slip_block_id f2 = slip_block_id f0 \<and>
    slip_tx_ordinal f1 = slip_tx_ordinal f0 \<and> slip_tx_ordinal f2 = slip_tx_ordinal f0 \<and>
    slip_slip_index f1 = slip_slip_index f0 + 1 \<and> slip_slip_index f2 = slip_slip_index f0 + 2"
proof -
  have "user_originated (tx_transaction_type tx)" using assms(2) by (simp add: user_originated_def)
  from tx_validate_user_True(2) [OF assms(1) this] assms(2,3)
  have sb: "tx_validate_send_bound tx" by (simp add: tx_validate_bound_def)
  then have "\<not> length (tx_from tx) < 3" "\<not> length (tx_to tx) < 3"
    by (simp_all add: tx_validate_send_bound_def Let_def return_false_if)
  then obtain f0 f1 f2 fs t0 t1 t2 ts
    where ft: "tx_from tx = f0 # f1 # f2 # fs" "tx_to tx = t0 # t1 # t2 # ts"
    by (metis length_ge_3D)
  from sb show ?thesis
    by (auto simp: tx_validate_send_bound_def ft list_all_iff list_ex_iff return_false_if Let_def)
qed

definition demo_nft :: "SlipType \<Rightarrow> u8 \<Rightarrow> slip" where
  "demo_nft t i = slip_default\<lparr>slip_public_key := 2 # demo_sk, slip_slip_type := t, slip_slip_index := i\<rparr>"

definition demo_transfer :: transaction where
  "demo_transfer = tx_default\<lparr>tx_transaction_type := TT_Bound,
     tx_from := [demo_nft ST_Bound 4, demo_nft ST_Normal 5, demo_nft ST_Bound 6],
     tx_to := [demo_nft ST_Bound 0, demo_nft ST_Normal 1, demo_nft ST_Bound 2],
     tx_hash_for_signature := Some (replicate 32 1), tx_signature := replicate 32 1 @ demo_sk\<rparr>"

theorem validated_nft_transfer_preserves_nft_witness:
  "tx_validate demo_ext Map.empty demo_view False demo_transfer = Inr True \<and>
   (\<exists>f0 fs t0 ts. tx_from demo_transfer = f0 # fs \<and> tx_to demo_transfer = t0 # ts \<and>
      slip_public_key t0 = slip_public_key f0)"
proof -
  have v: "tx_validate demo_ext Map.empty demo_view False demo_transfer = Inr True"
    by (simp add: tx_validate_def demo_transfer_def tx_default_def tx_validate_user_originated_def
        verify_signature_def demo_ext_def demo_nft_def demo_sk_def slip_default_def
        tx_validate_routing_path_def tx_validate_bound_def tx_is_new_nft_def tx_validate_send_bound_def)
  have t: "tx_transaction_type demo_transfer = TT_Bound" "\<not> tx_is_new_nft demo_transfer"
    by (simp_all add: demo_transfer_def tx_is_new_nft_def)
  from validated_nft_transfer_preserves_nft [OF v t] v show ?thesis by blast
qed

text \<open>
  For a new NFT the outputs after the third are not checked: appending any slips, Bound
  ones included, does not change the verdict of the minting rules (the loop meant for
  \<^verbatim>\<open>outputs[3..]\<close> runs over the inputs, of which there is one).
\<close>

theorem new_nft_extra_outputs_unchecked:
  assumes "tx_is_new_nft tx"
  shows "tx_validate_create_bound (tx\<lparr>tx_to := tx_to tx @ extra\<rparr>) = tx_validate_create_bound tx"
proof -
  have "length (tx_from tx) = 1" "\<not> length (tx_to tx) < 3"
    using assms by (simp_all add: tx_is_new_nft_def)
  moreover from this(2) obtain a b c ys where "tx_to tx = a # b # c # ys"
    by (metis length_ge_3D)
  ultimately show ?thesis
    by (simp add: tx_validate_create_bound_def)
qed

definition demo_mint :: transaction where
  "demo_mint = tx_default\<lparr>tx_transaction_type := TT_Bound, tx_from := [slip_default],
     tx_to := [slip_default\<lparr>slip_slip_type := ST_Bound\<rparr>, slip_default,
               slip_default\<lparr>slip_slip_type := ST_Bound\<rparr>]\<rparr>"

theorem new_nft_extra_outputs_unchecked_witness:
  "tx_is_new_nft demo_mint \<and>
   tx_validate_create_bound (demo_mint\<lparr>tx_to := tx_to demo_mint @
     [slip_default\<lparr>slip_slip_type := ST_Bound, slip_amount := 9\<rparr>]\<rparr>)"
proof -
  have n: "tx_is_new_nft demo_mint"
    by (simp add: tx_is_new_nft_def demo_mint_def tx_default_def slip_default_def)
  moreover have "tx_validate_create_bound demo_mint"
    by code_simp
  ultimately show ?thesis
    using new_nft_extra_outputs_unchecked [OF n] by simp
qed

end
