(* ===== verification/Burnfee.thy ===== *)
theory Burnfee
  imports Saito_Prelude Complex_Main "HOL-Library.Log_Nat"
begin

text \<open>
  The burn fee (\<^verbatim>\<open>consensus/burnfee.rs\<close>): how much routing work a block needs, as a function of
  the previous burn fee and the time elapsed. The code computes in \<^verbatim>\<open>f64\<close>; a double is modelled
  by the rational it denotes, and every operation rounds its exact result to 53 significant
  bits, ties to even (\<open>f64_round\<close>). The values involved are between \<open>2 ^ (-91)\<close> and
  \<open>2 ^ 65\<close>, far from underflow and overflow, so subnormal numbers and infinities do not occur.
\<close>

section \<open>Double-precision rounding\<close>

text \<open>\<open>2 ^ e\<close> for a possibly negative exponent.\<close>

definition pow2 :: "int \<Rightarrow> rat" where
  "pow2 e = (if e \<ge> 0 then 2 ^ nat e else 1 / 2 ^ nat (- e))"

text \<open>The exponent \<open>e\<close> with \<open>pow2 e \<le> q < pow2 (e + 1)\<close>, for positive \<open>q\<close>.\<close>

definition exponent :: "rat \<Rightarrow> int" where
  "exponent q =
     (let (a, b) = quotient_of q;
          e = int (floorlog 2 (nat a)) - int (floorlog 2 (nat b))
      in if pow2 e \<le> q then e else e - 1)"

definition round_half_even :: "rat \<Rightarrow> int" where
  "round_half_even q =
     (let n = \<lfloor>q\<rfloor>; d = q - of_int n in
      if d < 1 / 2 then n else if d > 1 / 2 then n + 1 else if even n then n else n + 1)"

definition f64_round :: "rat \<Rightarrow> rat" where
  "f64_round q =
     (if q \<le> 0 then 0
      else let u = pow2 (exponent q - 52) in of_int (round_half_even (q / u)) * u)"

definition f64_of_u64 :: "u64 \<Rightarrow> rat" where
  "f64_of_u64 w = f64_round (of_nat (unat w))"

text \<open>\<^verbatim>\<open>x.round() as u64\<close>: half away from zero, then a saturating cast.\<close>

definition f64_round_to_u64 :: "rat \<Rightarrow> u64" where
  "f64_round_to_u64 q = of_nat (min (2 ^ 64 - 1) (nat \<lfloor>q + 1 / 2\<rfloor>))"

section \<open>Routing work\<close>

definition return_routing_work_needed_to_produce_block_in_nolan ::
  "u64 \<Rightarrow> u64 \<Rightarrow> u64 \<Rightarrow> u64 \<Rightarrow> u64" where
  "return_routing_work_needed_to_produce_block_in_nolan burn_fee_previous_block
     current_block_timestamp_in_ms previous_block_timestamp_in_ms heartbeat =
     (if previous_block_timestamp_in_ms \<ge> current_block_timestamp_in_ms
      then 10000000000000000000
      else
        (let elapsed_time = max (current_block_timestamp_in_ms - previous_block_timestamp_in_ms) 1 in
         if elapsed_time \<ge> 2 * heartbeat then 0
         else
           (let elapsed_time_float = f64_of_u64 elapsed_time;
                burn_fee_previous_block_as_float =
                  f64_round (f64_of_u64 burn_fee_previous_block / 100000000);
                work_needed_float =
                  f64_round (burn_fee_previous_block_as_float / elapsed_time_float)
            in f64_round_to_u64 (f64_round (work_needed_float * 100000000)))))"

text \<open>The integer square root, and \<^verbatim>\<open>f64::sqrt\<close>: the exact root rounded to nearest, ties to even.\<close>

fun isqrt :: "nat \<Rightarrow> nat" where
  "isqrt n =
     (if n = 0 then 0
      else let r = 2 * isqrt (n div 4) in if (r + 1) * (r + 1) \<le> n then r + 1 else r)"

declare isqrt.simps [simp del]

definition round_sqrt :: "rat \<Rightarrow> int" where
  "round_sqrt y =
     (let n = int (isqrt (nat \<lfloor>y\<rfloor>)); h = (of_int n + 1 / 2) * (of_int n + 1 / 2) in
      if y < h then n else if y > h then n + 1 else if even n then n else n + 1)"

definition f64_sqrt :: "rat \<Rightarrow> rat" where
  "f64_sqrt q =
     (if q \<le> 0 then 0
      else let u = pow2 (exponent q div 2 - 52) in of_int (round_sqrt (q / (u * u))) * u)"

definition calculate_burnfee_for_block :: "u64 \<Rightarrow> u64 \<Rightarrow> u64 \<Rightarrow> u64 \<Rightarrow> u64" where
  "calculate_burnfee_for_block burn_fee_previous_block current_block_timestamp_in_ms
     previous_block_timestamp_in_ms heartbeat =
     (if previous_block_timestamp_in_ms \<ge> current_block_timestamp_in_ms
      then 10000000000000000000
      else
        (let timestamp_difference =
               max 1 (current_block_timestamp_in_ms - previous_block_timestamp_in_ms) in
         if burn_fee_previous_block = 0 then 50000000
         else
           (let burn_fee_previous_block_as_float =
                  f64_round (f64_of_u64 burn_fee_previous_block / 100000000);
                res0 = f64_round (f64_of_u64 heartbeat / f64_of_u64 timestamp_difference);
                res1 = f64_sqrt res0;
                res2 = f64_round (burn_fee_previous_block_as_float * res1)
            in f64_round_to_u64 (f64_round (res2 * 100000000)))))"

section \<open>Rounding is monotone\<close>

lemma pow2_pos [simp]: "pow2 e > 0"
  by (simp add: pow2_def)

lemma pow2_powr: "(of_rat (pow2 e) :: real) = 2 powr e"
  by (simp add: pow2_def powr_real_of_int of_rat_divide of_rat_power inverse_eq_divide)

lemma pow2_le: "pow2 a \<le> pow2 b \<longleftrightarrow> a \<le> b"
proof -
  have "pow2 a \<le> pow2 b \<longleftrightarrow> (of_rat (pow2 a) :: real) \<le> of_rat (pow2 b)"
    by (simp add: of_rat_less_eq)
  then show ?thesis by (simp add: pow2_powr)
qed

lemma pow2_add: "pow2 (a + b) = pow2 a * pow2 b"
proof -
  have "(of_rat (pow2 (a + b)) :: real) = of_rat (pow2 a * pow2 b)"
    by (simp add: of_rat_mult pow2_powr powr_add)
  then show ?thesis by (simp only: of_rat_eq_iff)
qed

lemma pow2_nat: "pow2 (int n) = 2 ^ n"
  by (simp add: pow2_def)

lemma bit_length_bounds:
  assumes "a > 0"
  shows "2 ^ (floorlog 2 a - 1) \<le> a" and "a < 2 ^ floorlog 2 a" and "floorlog 2 a > 0"
  using assms floorlog_bounds [of a 2] by (simp_all add: floorlog_def)

lemma exponent_bounds:
  assumes "q > 0"
  shows "pow2 (exponent q) \<le> q \<and> q < pow2 (exponent q + 1)"
proof -
  obtain a b where ab: "quotient_of q = (a, b)" by fastforce
  then have b: "b > 0" and q: "q = of_int a / of_int b"
    using quotient_of_denom_pos quotient_of_div by blast+
  with assms have a: "a > 0" by (simp add: zero_less_divide_iff)
  define fa fb where "fa = floorlog 2 (nat a)" and "fb = floorlog 2 (nat b)"
  have A: "2 ^ (fa - 1) \<le> nat a" "nat a < 2 ^ fa" "fa > 0"
    and B: "2 ^ (fb - 1) \<le> nat b" "nat b < 2 ^ fb" "fb > 0"
    using a b bit_length_bounds [of "nat a"] bit_length_bounds [of "nat b"] by (simp_all add: fa_def fb_def)
  have RA: "pow2 (int fa - 1) \<le> of_int a" "of_int a < pow2 (int fa)"
  proof -
    have "(of_nat (2 ^ (fa - 1)) :: rat) \<le> of_nat (nat a)" using A(1) by (simp only: of_nat_le_iff)
    moreover have "int fa - 1 = int (fa - 1)" using A(3) by simp
    ultimately show "pow2 (int fa - 1) \<le> of_int a" using a by (simp only: pow2_nat) simp
    have "(of_nat (nat a) :: rat) < of_nat (2 ^ fa)" using A(2) by (simp only: of_nat_less_iff)
    then show "of_int a < pow2 (int fa)" using a by (simp add: pow2_nat)
  qed
  have RB: "pow2 (int fb - 1) \<le> of_int b" "of_int b < pow2 (int fb)"
  proof -
    have "(of_nat (2 ^ (fb - 1)) :: rat) \<le> of_nat (nat b)" using B(1) by (simp only: of_nat_le_iff)
    moreover have "int fb - 1 = int (fb - 1)" using B(3) by simp
    ultimately show "pow2 (int fb - 1) \<le> of_int b" using b by (simp only: pow2_nat) simp
    have "(of_nat (nat b) :: rat) < of_nat (2 ^ fb)" using B(2) by (simp only: of_nat_less_iff)
    then show "of_int b < pow2 (int fb)" using b by (simp add: pow2_nat)
  qed
  have "q < pow2 (int fa - int fb + 1)"
  proof -
    have "of_int a < pow2 (int fa - int fb + 1) * pow2 (int fb - 1)"
      using RA(2) by (simp flip: pow2_add)
    also have "\<dots> \<le> pow2 (int fa - int fb + 1) * of_int b"
      using RB(1) by (intro mult_left_mono) (simp_all add: less_imp_le)
    finally show ?thesis using b unfolding q by (simp add: pos_divide_less_eq)
  qed
  moreover have "pow2 (int fa - int fb - 1) \<le> q"
  proof -
    have "pow2 (int fa - int fb - 1) * of_int b \<le> pow2 (int fa - int fb - 1) * pow2 (int fb)"
      using RB(2) by (intro mult_left_mono) (simp_all add: less_imp_le)
    also have "\<dots> \<le> of_int a" using RA(1) by (simp flip: pow2_add)
    finally show ?thesis using b unfolding q by (simp add: pos_le_divide_eq)
  qed
  ultimately show ?thesis
    by (auto simp: exponent_def ab Let_def fa_def fb_def not_le)
qed

lemma round_half_even_bounds: "\<lfloor>q\<rfloor> \<le> round_half_even q" "round_half_even q \<le> \<lfloor>q\<rfloor> + 1"
  by (simp_all add: round_half_even_def Let_def)

lemma round_half_even_int [simp]: "round_half_even (of_int n) = n"
  by (simp add: round_half_even_def)

lemma round_half_even_mono:
  assumes "x \<le> y"
  shows "round_half_even x \<le> round_half_even y"
proof (cases "\<lfloor>x\<rfloor> = \<lfloor>y\<rfloor>")
  case True
  with assms show ?thesis by (auto simp: round_half_even_def Let_def)
next
  case False
  with floor_mono [OF assms] have "\<lfloor>x\<rfloor> + 1 \<le> \<lfloor>y\<rfloor>" by simp
  with round_half_even_bounds [of x] round_half_even_bounds [of y] show ?thesis by linarith
qed

lemma f64_round_nonneg: "0 \<le> f64_round q"
proof (cases "q \<le> 0")
  case False
  then have "0 \<le> round_half_even (q / pow2 (exponent q - 52))"
    using round_half_even_mono [of 0 "q / pow2 (exponent q - 52)"] round_half_even_int [of 0]
    by (simp add: less_imp_le)
  with False show ?thesis by (simp add: f64_round_def Let_def less_imp_le)
qed (simp add: f64_round_def)

text \<open>A rounded value stays in the binade of the exact one, up to its upper end.\<close>

lemma f64_round_binade:
  assumes "q > 0"
  shows "pow2 (exponent q) \<le> f64_round q" and "f64_round q \<le> pow2 (exponent q + 1)"
proof -
  define e u where "e = exponent q" and "u = pow2 (e - 52)"
  have split: "pow2 e = of_int (2 ^ 52) * u" "pow2 (e + 1) = of_int (2 ^ 53) * u"
    using pow2_add [of 52 "e - 52"] pow2_add [of 53 "e - 52"] pow2_nat [of 52] pow2_nat [of 53]
    by (simp_all add: u_def add.commute)
  have u: "u > 0" by (simp add: u_def)
  have "of_int (2 ^ 52) \<le> q / u" "q / u \<le> of_int (2 ^ 53)"
    using exponent_bounds [OF assms] u split
    by (simp_all add: pos_le_divide_eq pos_divide_le_eq e_def [symmetric] less_imp_le)
  then have "2 ^ 52 \<le> round_half_even (q / u)" "round_half_even (q / u) \<le> 2 ^ 53"
    using round_half_even_mono round_half_even_int by metis+
  then have "of_int (2 ^ 52) \<le> (of_int (round_half_even (q / u)) :: rat)"
    "of_int (round_half_even (q / u)) \<le> (of_int (2 ^ 53) :: rat)"
    by (simp_all only: of_int_le_iff)
  moreover have "f64_round q = of_int (round_half_even (q / u)) * u"
    using assms by (simp add: f64_round_def Let_def e_def u_def)
  ultimately show "pow2 (exponent q) \<le> f64_round q" "f64_round q \<le> pow2 (exponent q + 1)"
    using u split unfolding e_def [symmetric] by simp_all
qed

lemma f64_round_mono:
  assumes "p \<le> q"
  shows "f64_round p \<le> f64_round q"
proof (cases "p \<le> 0")
  case True
  then show ?thesis using f64_round_nonneg [of q] by (simp add: f64_round_def)
next
  case False
  then have p: "p > 0" and q: "q > 0" using assms by simp_all
  have "pow2 (exponent p) < pow2 (exponent q + 1)"
    using exponent_bounds [OF p] exponent_bounds [OF q] assms by linarith
  then have le: "exponent p \<le> exponent q" by (metis not_le pow2_le zle_add1_eq_le)
  show ?thesis
  proof (cases "exponent p = exponent q")
    case True
    have "round_half_even (p / pow2 (exponent q - 52)) \<le> round_half_even (q / pow2 (exponent q - 52))"
      using assms by (intro round_half_even_mono divide_right_mono) (simp_all add: less_imp_le)
    then show ?thesis
      using p q True by (simp add: f64_round_def Let_def mult_right_mono less_imp_le)
  next
    case False
    then have "pow2 (exponent p + 1) \<le> pow2 (exponent q)" using le by (simp add: pow2_le)
    with f64_round_binade(2) [OF p] f64_round_binade(1) [OF q] show ?thesis by linarith
  qed
qed

lemma f64_round_pos: "q > 0 \<Longrightarrow> f64_round q > 0"
  using f64_round_binade(1) [of q] pow2_pos [of "exponent q"] by linarith

lemma pow2_neg: "pow2 (- int k) = 1 / 2 ^ k"
  by (simp add: pow2_def)

text \<open>A value with at most 53 significant bits is a double.\<close>

lemma f64_round_exact:
  assumes "0 \<le> n" and "n < 2 ^ 53"
  shows "f64_round (of_int n / 2 ^ k) = of_int n / 2 ^ k"
proof (cases "n = 0")
  case False
  let ?q = "of_int n / 2 ^ k :: rat"
  let ?e = "exponent ?q"
  have q: "?q > 0" using assms(1) False by simp
  have "of_int n < (of_int (2 ^ 53) :: rat)" using assms(2) by (simp only: of_int_less_iff)
  then have "?q < of_int (2 ^ 53) / 2 ^ k" by (intro divide_strict_right_mono) simp_all
  then have "?q < 2 ^ 53 * (1 / 2 ^ k)" by simp
  also have "\<dots> = pow2 (53 - int k)"
    using pow2_add [of 53 "- int k"] pow2_nat [of 53] by (simp add: pow2_neg)
  finally have "pow2 ?e < pow2 (53 - int k)" using exponent_bounds [OF q] by linarith
  then have "?e < 53 - int k" by (simp add: pow2_le not_le [symmetric])
  then obtain j where j: "52 - ?e - int k = int j" using nonneg_int_cases [of "52 - ?e - int k"] by fastforce
  have "pow2 (?e - 52) = 1 / (2 ^ k * 2 ^ j)"
  proof -
    have "?e - 52 = - int (k + j)" using j by simp
    then show ?thesis by (simp only: pow2_neg power_add)
  qed
  then have "?q / pow2 (?e - 52) = of_int (n * 2 ^ j)" by simp
  then have "of_int (round_half_even (?q / pow2 (?e - 52))) * pow2 (?e - 52) = ?q"
    by (metis nonzero_eq_divide_eq pow2_pos less_irrefl round_half_even_int)
  with q show ?thesis by (simp add: f64_round_def Let_def)
qed (simp add: f64_round_def)

lemma f64_round_nat:
  assumes "n < 2 ^ 53"
  shows "f64_round (of_nat n / 2 ^ k) = of_nat n / 2 ^ k"
proof -
  have "int n < int (2 ^ 53)" using assms by (simp only: of_nat_less_iff)
  then show ?thesis using f64_round_exact [of "int n" k] by simp
qed

lemma f64_of_u64_mono: "a \<le> b \<Longrightarrow> f64_of_u64 a \<le> f64_of_u64 b"
  unfolding f64_of_u64_def word_le_nat_alt by (intro f64_round_mono) (simp only: of_nat_le_iff)

lemma f64_of_u64_pos: "a \<noteq> 0 \<Longrightarrow> f64_of_u64 a > 0"
  unfolding f64_of_u64_def by (intro f64_round_pos) (simp only: of_nat_0_less_iff unat_gt_0 not_False_eq_True)

lemma f64_round_to_u64_mono: "p \<le> q \<Longrightarrow> f64_round_to_u64 p \<le> f64_round_to_u64 q"
proof -
  assume "p \<le> q"
  then have "nat \<lfloor>p + 1 / 2\<rfloor> \<le> nat \<lfloor>q + 1 / 2\<rfloor>" by (intro nat_mono floor_mono) simp
  then show ?thesis
    by (simp add: f64_round_to_u64_def word_le_nat_alt unat_of_nat min_less_iff_disj
        mod_less [where n = "2 ^ 64"])
qed

section \<open>The square root is monotone\<close>

lemma isqrt_bounds: "isqrt n * isqrt n \<le> n \<and> n < (isqrt n + 1) * (isqrt n + 1)"
proof (induction n rule: isqrt.induct)
  case (1 n)
  show ?case
  proof (cases "n = 0")
    case False
    define r where "r = isqrt (n div 4)"
    have "r * r \<le> n div 4" "n div 4 < (r + 1) * (r + 1)"
      using "1.IH" [OF False] by (simp_all add: r_def)
    then have "4 * (r * r) \<le> n" "n < 4 * ((r + 1) * (r + 1))" by linarith+
    then show ?thesis
      using False by (simp add: isqrt.simps [of n] Let_def r_def [symmetric] algebra_simps)
  qed (simp add: isqrt.simps)
qed

lemma isqrt_le: "m * m \<le> n \<longleftrightarrow> m \<le> isqrt n"
proof
  assume "m * m \<le> n"
  with isqrt_bounds [of n] have "m * m < (isqrt n + 1) * (isqrt n + 1)" by linarith
  then show "m \<le> isqrt n" using mult_le_mono [of "isqrt n + 1" m "isqrt n + 1" m] by linarith
next
  assume "m \<le> isqrt n"
  then show "m * m \<le> n" using mult_le_mono [of m "isqrt n" m "isqrt n"] isqrt_bounds [of n] by linarith
qed

text \<open>The rounded root reaches \<open>k + 1\<close> exactly from the square of the midpoint on.\<close>

lemma round_sqrt_floor:
  assumes "y \<ge> 0"
  shows "of_nat m * of_nat m \<le> y \<longleftrightarrow> m \<le> isqrt (nat \<lfloor>y\<rfloor>)"
proof -
  have "of_nat m * of_nat m \<le> y \<longleftrightarrow> int (m * m) \<le> \<lfloor>y\<rfloor>"
    by (simp add: le_floor_iff)
  also have "\<dots> \<longleftrightarrow> m * m \<le> nat \<lfloor>y\<rfloor>" using assms by (simp add: le_nat_iff)
  finally show ?thesis by (simp add: isqrt_le)
qed

lemma round_sqrt_mono:
  assumes "0 \<le> x" and "x \<le> y"
  shows "round_sqrt x \<le> round_sqrt y"
proof -
  define m n where "m = isqrt (nat \<lfloor>x\<rfloor>)" and "n = isqrt (nat \<lfloor>y\<rfloor>)"
  have "of_nat m * of_nat m \<le> x" using round_sqrt_floor [OF assms(1), of m] by (simp add: m_def)
  then have "of_nat m * of_nat m \<le> y" using assms(2) by linarith
  then have "m \<le> n" using round_sqrt_floor [of y m] assms by (simp add: n_def)
  show ?thesis
  proof (cases "m = n")
    case True
    with assms(2) show ?thesis
      by (auto simp: round_sqrt_def Let_def m_def [symmetric] n_def [symmetric])
  next
    case False
    have "round_sqrt x \<le> int m + 1" "int n \<le> round_sqrt y"
      by (simp_all add: round_sqrt_def Let_def m_def n_def)
    with False \<open>m \<le> n\<close> show ?thesis by linarith
  qed
qed

lemma round_sqrt_square: "round_sqrt (of_nat k * of_nat k) = int k"
proof -
  have "isqrt (k * k) = k"
    using isqrt_le [of k "k * k"] isqrt_le [of "k + 1" "k * k"] by simp
  moreover have "nat \<lfloor>of_nat k * of_nat k :: rat\<rfloor> = k * k"
    by (metis floor_of_nat nat_int of_nat_mult)
  moreover have "(of_nat k * of_nat k :: rat) < (of_nat k + 1 / 2) * (of_nat k + 1 / 2)"
    by (simp add: algebra_simps)
  ultimately show ?thesis by (simp add: round_sqrt_def Let_def)
qed

lemma exponent_half:
  assumes "q > 0"
  shows "pow2 (exponent q div 2) * pow2 (exponent q div 2) \<le> q"
    and "q < pow2 (exponent q div 2 + 1) * pow2 (exponent q div 2 + 1)"
proof -
  let ?e = "exponent q"
  have "pow2 (?e div 2 + ?e div 2) \<le> pow2 ?e" "pow2 (?e + 1) \<le> pow2 (?e div 2 + 1 + (?e div 2 + 1))"
    unfolding pow2_le by linarith+
  with exponent_bounds [OF assms]
  show "pow2 (?e div 2) * pow2 (?e div 2) \<le> q" "q < pow2 (?e div 2 + 1) * pow2 (?e div 2 + 1)"
    unfolding pow2_add [symmetric] by linarith+
qed

lemma f64_sqrt_binade:
  assumes "q > 0"
  shows "pow2 (exponent q div 2) \<le> f64_sqrt q" and "f64_sqrt q \<le> pow2 (exponent q div 2 + 1)"
proof -
  define s u where "s = exponent q div 2" and "u = pow2 (s - 52)"
  have split: "pow2 s = of_nat (2 ^ 52) * u" "pow2 (s + 1) = of_nat (2 ^ 53) * u"
    using pow2_add [of 52 "s - 52"] pow2_add [of 53 "s - 52"] pow2_nat [of 52] pow2_nat [of 53]
    by (simp_all add: u_def add.commute)
  have u: "u > 0" "u * u > 0" by (simp_all add: u_def)
  have "of_nat (2 ^ 52) * of_nat (2 ^ 52) * (u * u) \<le> q"
    "q \<le> of_nat (2 ^ 53) * of_nat (2 ^ 53) * (u * u)"
    using exponent_half [OF assms] unfolding s_def [symmetric] split by (simp_all add: mult_ac)
  then have bounds: "of_nat (2 ^ 52) * of_nat (2 ^ 52) \<le> q / (u * u)"
    "q / (u * u) \<le> of_nat (2 ^ 53) * of_nat (2 ^ 53)"
    using u by (simp_all only: pos_le_divide_eq pos_divide_le_eq)
  have "int (2 ^ 52) \<le> round_sqrt (q / (u * u))"
    using round_sqrt_mono [OF _ bounds(1)] by (simp only: round_sqrt_square) simp
  moreover have "round_sqrt (q / (u * u)) \<le> int (2 ^ 53)"
    using round_sqrt_mono [OF _ bounds(2)] assms u by (simp only: round_sqrt_square) simp
  ultimately have "(of_nat (2 ^ 52) :: rat) \<le> of_int (round_sqrt (q / (u * u)))"
    "of_int (round_sqrt (q / (u * u))) \<le> (of_nat (2 ^ 53) :: rat)"
    by (metis of_int_le_iff of_int_of_nat_eq)+
  moreover have "f64_sqrt q = of_int (round_sqrt (q / (u * u))) * u"
    using assms by (simp add: f64_sqrt_def Let_def s_def u_def)
  ultimately show "pow2 (exponent q div 2) \<le> f64_sqrt q" "f64_sqrt q \<le> pow2 (exponent q div 2 + 1)"
    using u split unfolding s_def [symmetric] by (simp_all add: mult_right_mono)
qed

lemma f64_sqrt_nonneg: "0 \<le> f64_sqrt q"
  using f64_sqrt_binade(1) [of q] pow2_pos [of "exponent q div 2"]
  by (cases "q > 0") (linarith, simp add: f64_sqrt_def)

lemma f64_sqrt_mono:
  assumes "p \<le> q"
  shows "f64_sqrt p \<le> f64_sqrt q"
proof (cases "p \<le> 0")
  case True
  then show ?thesis using f64_sqrt_nonneg [of q] by (simp add: f64_sqrt_def)
next
  case False
  then have p: "p > 0" and q: "q > 0" using assms by simp_all
  have "pow2 (exponent p) < pow2 (exponent q + 1)"
    using exponent_bounds [OF p] exponent_bounds [OF q] assms by linarith
  then have "exponent p \<le> exponent q" by (metis not_le pow2_le zle_add1_eq_le)
  then have le: "exponent p div 2 \<le> exponent q div 2" by (rule zdiv_mono1) simp
  show ?thesis
  proof (cases "exponent p div 2 = exponent q div 2")
    case True
    let ?u = "pow2 (exponent q div 2 - 52)"
    have "round_sqrt (p / (?u * ?u)) \<le> round_sqrt (q / (?u * ?u))"
      using assms p by (intro round_sqrt_mono divide_right_mono) (simp_all add: less_imp_le)
    then show ?thesis
      using p q True by (simp add: f64_sqrt_def Let_def mult_right_mono less_imp_le)
  next
    case False
    then have "pow2 (exponent p div 2 + 1) \<le> pow2 (exponent q div 2)" using le by (simp add: pow2_le)
    with f64_sqrt_binade(2) [OF p] f64_sqrt_binade(1) [OF q] show ?thesis by linarith
  qed
qed

section \<open>The required work falls with time\<close>

text \<open>
  For a given previous block, the routing work a block needs never grows as time passes, in
  spite of the rounding of the floating-point steps: the later of two timestamps after the
  previous block needs at most as much work, and none at all after two heartbeats.
\<close>

theorem routing_work_needed_decreases:
  assumes "prev < t" and "t \<le> t'"
  shows "return_routing_work_needed_to_produce_block_in_nolan bf t' prev hb
       \<le> return_routing_work_needed_to_produce_block_in_nolan bf t prev hb \<and>
    (2 * hb \<le> t - prev \<longrightarrow> return_routing_work_needed_to_produce_block_in_nolan bf t prev hb = 0)"
proof -
  define x where "x = f64_round (f64_of_u64 bf / 100000000)"
  define work where "work d = f64_round_to_u64 (f64_round (f64_round (x / f64_of_u64 d) * 100000000))"
    for d
  have eq: "return_routing_work_needed_to_produce_block_in_nolan bf s prev hb =
      (if 2 * hb \<le> s - prev then 0 else work (s - prev))" if "prev < s" for s
  proof -
    have "s - prev \<noteq> 0" using that by auto
    then have "unat (s - prev) > 0" by (simp only: unat_gt_0 not_False_eq_True)
    then have "1 \<le> s - prev" unfolding word_le_nat_alt by simp
    then have "max (s - prev) 1 = s - prev" by (rule max_absorb1)
    then show ?thesis
      using that by (simp add: return_routing_work_needed_to_produce_block_in_nolan_def Let_def
          work_def x_def not_le [symmetric])
  qed
  have mono: "work d' \<le> work d" if "d \<noteq> 0" "d \<le> d'" for d d'
    unfolding work_def
    using f64_of_u64_pos [OF that(1)] f64_of_u64_mono [OF that(2)]
    by (intro f64_round_to_u64_mono f64_round_mono mult_right_mono divide_left_mono)
      (simp_all add: x_def f64_round_nonneg)
  have lt': "prev < t'" using assms by simp
  have d: "t - prev \<noteq> 0" "t - prev \<le> t' - prev"
    using assms by (auto simp: word_le_nat_alt word_less_nat_alt unat_sub)
  then show ?thesis
    using mono [OF d] unfolding eq [OF assms(1)] eq [OF lt'] by auto
qed

theorem routing_work_needed_decreases_witness:
  "(0 :: u64) < 10 \<and> (10 :: u64) \<le> 20 \<and>
   return_routing_work_needed_to_produce_block_in_nolan 1000 20 0 100
     \<le> return_routing_work_needed_to_produce_block_in_nolan 1000 10 0 100"
  using routing_work_needed_decreases [of 0 10 20 1000 100] by simp

text \<open>
  A block that arrives later after the same previous block has a burn fee at most as high,
  again in spite of rounding.
\<close>

theorem burnfee_decreases:
  assumes "prev < t" and "t \<le> t'"
  shows "calculate_burnfee_for_block bf t' prev hb \<le> calculate_burnfee_for_block bf t prev hb"
proof (cases "bf = 0")
  case True
  with assms show ?thesis by (simp add: calculate_burnfee_for_block_def Let_def not_le)
next
  case False
  have "max 1 a \<le> max 1 b" if "a \<le> b" for a b :: u64
    using that by (rule max.mono [OF order_refl])
  moreover have "t - prev \<le> t' - prev"
    using assms by (auto simp: word_le_nat_alt word_less_nat_alt unat_sub)
  ultimately have d: "max 1 (t - prev) \<le> max 1 (t' - prev)" by blast
  have "(1 :: u64) \<le> max 1 (t - prev)" by (rule max.cobounded1)
  then have "max 1 (t - prev) \<noteq> 0" by (metis not_one_le_zero word_le_0_iff zero_neq_one)
  from f64_of_u64_pos [OF this] f64_of_u64_mono [OF d]
  have "f64_round_to_u64 (f64_round (f64_round (x * f64_sqrt (f64_round
        (f64_of_u64 hb / f64_of_u64 (max 1 (t' - prev))))) * 100000000))
      \<le> f64_round_to_u64 (f64_round (f64_round (x * f64_sqrt (f64_round
        (f64_of_u64 hb / f64_of_u64 (max 1 (t - prev))))) * 100000000))" if "x \<ge> 0" for x
    using that by (intro f64_round_to_u64_mono f64_round_mono mult_right_mono mult_left_mono
        f64_sqrt_mono divide_left_mono) (simp_all add: f64_of_u64_def f64_round_nonneg)
  moreover have "\<not> t' \<le> prev" using assms by (simp add: not_le)
  ultimately show ?thesis
    using f64_round_nonneg [of "f64_of_u64 bf / 100000000"] assms False
    by (simp add: calculate_burnfee_for_block_def Let_def not_le [symmetric])
qed

theorem burnfee_decreases_witness:
  "(0 :: u64) < 10 \<and> (10 :: u64) \<le> 20 \<and>
   calculate_burnfee_for_block 1000 20 0 100 \<le> calculate_burnfee_for_block 1000 10 0 100"
  using burnfee_decreases [of 0 10 20 1000 100] by simp

end
