(* ===== verification/Block.thy ===== *)
theory Block
  imports Merkle Transaction_Ledger Transaction_Codec Transaction_Validate Burnfee
    "HOL-Library.AList"
begin

text \<open>
  Blocks (\<^verbatim>\<open>consensus/block.rs\<close>): the header with the consensus values and the values derived
  from the transactions, the wire format, hashing and signing, \<^verbatim>\<open>generate\<close>, the light block, the
  choice of the winning router, the effect on the UTXO set and \<^verbatim>\<open>validate\<close>. The consensus values
  a block is compared with are an argument of \<open>block_validate\<close>: the record \<open>ConsensusValues\<close>
  that \<^verbatim>\<open>generate_consensus_values\<close> returns, whose computation is not part of this theory. The
  field \<^verbatim>\<open>cv\<close> of the Rust struct, a copy of that record kept for display, is left out.
\<close>

section \<open>Data\<close>

datatype BlockType = BT_Ghost | BT_Header | BT_Pruned | BT_Full

text \<open>The values that travel in the header of a block.\<close>

record block_header =
  b_id :: u64
  b_timestamp :: u64
  b_previous_block_hash :: bytes
  b_creator :: bytes
  b_merkle_root :: bytes
  b_signature :: bytes
  b_graveyard :: u64
  b_treasury :: u64
  b_total_fees :: u64
  b_total_fees_new :: u64
  b_total_fees_atr :: u64
  b_total_fees_cumulative :: u64
  b_avg_total_fees :: u64
  b_avg_total_fees_new :: u64
  b_avg_total_fees_atr :: u64
  b_total_payout_routing :: u64
  b_total_payout_mining :: u64
  b_total_payout_treasury :: u64
  b_total_payout_graveyard :: u64
  b_total_payout_atr :: u64
  b_avg_payout_routing :: u64
  b_avg_payout_mining :: u64
  b_avg_payout_treasury :: u64
  b_avg_payout_graveyard :: u64
  b_avg_payout_atr :: u64
  b_avg_fee_per_byte :: u64
  b_fee_per_byte :: u64
  b_avg_nolan_rebroadcast_per_block :: u64
  b_burnfee :: u64
  b_difficulty :: u64
  b_previous_block_unpaid :: u64

text \<open>The block: header, transactions and the values derived from them.\<close>

record block = block_header +
  b_transactions :: "transaction list"
  b_pre_hash :: bytes
  b_hash :: bytes
  b_total_work :: u64
  b_in_longest_chain :: bool
  b_has_golden_ticket :: bool
  b_has_issuance_transaction :: bool
  b_issuance_transaction_index :: u64
  b_has_fee_transaction :: bool
  b_has_staking_transaction :: bool
  b_golden_ticket_index :: u64
  b_fee_transaction_index :: u64
  b_total_rebroadcast_slips :: u64
  b_total_rebroadcast_nolan :: u64
  b_rebroadcast_hash :: bytes
  b_block_type :: BlockType
  b_slips_spent_this_block :: "(bytes \<times> u64) list"
  b_created_hashmap_of_slips_spent_this_block :: bool
  b_routed_from_peer :: "u64 option"
  b_transaction_map :: "(bytes \<times> bool) list"
  b_force_loaded :: bool
  b_safe_to_prune_transactions :: bool
  b_has_checkpoint :: bool

definition BLOCK_HEADER_SIZE :: nat where "BLOCK_HEADER_SIZE = 389"

definition block_new :: block where
  "block_new = \<lparr>
     b_id = 0, b_timestamp = 0, b_previous_block_hash = replicate 32 0,
     b_creator = replicate 33 0, b_merkle_root = replicate 32 0, b_signature = replicate 64 0,
     b_graveyard = 0, b_treasury = 0, b_total_fees = 0, b_total_fees_new = 0,
     b_total_fees_atr = 0, b_total_fees_cumulative = 0, b_avg_total_fees = 0,
     b_avg_total_fees_new = 0, b_avg_total_fees_atr = 0, b_total_payout_routing = 0,
     b_total_payout_mining = 0, b_total_payout_treasury = 0, b_total_payout_graveyard = 0,
     b_total_payout_atr = 0, b_avg_payout_routing = 0, b_avg_payout_mining = 0,
     b_avg_payout_treasury = 0, b_avg_payout_graveyard = 0, b_avg_payout_atr = 0,
     b_avg_fee_per_byte = 0, b_fee_per_byte = 0, b_avg_nolan_rebroadcast_per_block = 0,
     b_burnfee = 0, b_difficulty = 0, b_previous_block_unpaid = 0, b_transactions = [],
     b_pre_hash = replicate 32 0, b_hash = replicate 32 0, b_total_work = 0,
     b_in_longest_chain = False, b_has_golden_ticket = False,
     b_has_issuance_transaction = False, b_issuance_transaction_index = 0,
     b_has_fee_transaction = False, b_has_staking_transaction = False,
     b_golden_ticket_index = 0, b_fee_transaction_index = 0, b_total_rebroadcast_slips = 0,
     b_total_rebroadcast_nolan = 0, b_rebroadcast_hash = replicate 32 0, b_block_type = BT_Full,
     b_slips_spent_this_block = [], b_created_hashmap_of_slips_spent_this_block = False,
     b_routed_from_peer = None, b_transaction_map = [], b_force_loaded = False,
     b_safe_to_prune_transactions = False, b_has_checkpoint = False \<rparr>"

definition block_add_transaction :: "transaction \<Rightarrow> block \<Rightarrow> block" where
  "block_add_transaction tx b = b\<lparr>b_transactions := b_transactions b @ [tx]\<rparr>"

section \<open>The wire format\<close>

definition block_serialize_for_net :: "BlockType \<Rightarrow> block \<Rightarrow> bytes" where
  "block_serialize_for_net block_type b =
     (let tx_len_buffer =
            (if block_type = BT_Header then to_be (0 :: u32)
             else to_be (of_nat (length (b_transactions b)) :: u32));
          tx_buf =
            (if block_type \<noteq> BT_Header
             then concat (map tx_serialize_for_net (b_transactions b)) else [])
      in tx_len_buffer @
         to_be (b_id b) @ to_be (b_timestamp b) @ b_previous_block_hash b @ b_creator b @
         b_merkle_root b @ b_signature b @
         to_be (b_graveyard b) @ to_be (b_treasury b) @ to_be (b_burnfee b) @
         to_be (b_difficulty b) @ to_be (b_avg_total_fees b) @ to_be (b_avg_fee_per_byte b) @
         to_be (b_avg_nolan_rebroadcast_per_block b) @ to_be (b_previous_block_unpaid b) @
         to_be (b_avg_total_fees b) @ to_be (b_avg_total_fees_new b) @
         to_be (b_avg_total_fees_atr b) @ to_be (b_avg_payout_routing b) @
         to_be (b_avg_payout_mining b) @ to_be (b_avg_payout_treasury b) @
         to_be (b_avg_payout_graveyard b) @ to_be (b_avg_payout_atr b) @
         to_be (b_total_payout_routing b) @ to_be (b_total_payout_mining b) @
         to_be (b_total_payout_treasury b) @ to_be (b_total_payout_graveyard b) @
         to_be (b_total_payout_atr b) @ to_be (b_total_fees b) @ to_be (b_total_fees_new b) @
         to_be (b_total_fees_atr b) @ to_be (b_fee_per_byte b) @
         to_be (b_total_fees_cumulative b) @
         tx_buf)"

text \<open>\<^verbatim>\<open>u64::from_be_bytes(bytes[k..k + 8])\<close>, inside the header.\<close>

definition u64_at :: "bytes \<Rightarrow> nat \<Rightarrow> u64" where
  "u64_at bs k = from_be (subslice k (k + 8) bs)"

definition u32_at :: "bytes \<Rightarrow> nat \<Rightarrow> u32" where
  "u32_at bs k = from_be (subslice k (k + 4) bs)"

text \<open>The loop that reads the transactions after the header.\<close>

fun block_read_transactions :: "bytes \<Rightarrow> nat \<Rightarrow> nat \<Rightarrow> transaction list res" where
  "block_read_transactions bs start_of_transaction_data 0 = Inr []"
| "block_read_transactions bs start_of_transaction_data (Suc n) =
     (if length bs < start_of_transaction_data + 16 then Inl InvalidData
      else
        (let inputs_len = u32_at bs start_of_transaction_data;
             outputs_len = u32_at bs (start_of_transaction_data + 4);
             message_len = unat (u32_at bs (start_of_transaction_data + 8));
             path_len = unat (u32_at bs (start_of_transaction_data + 12))
         in if unat inputs_len + unat outputs_len \<ge> 2 ^ 32 then Inl InvalidData
         else
           (let total_len = inputs_len + outputs_len;
                end_of_transaction_data = start_of_transaction_data + TRANSACTION_SIZE +
                  unat total_len * SLIP_SIZE + message_len + path_len * HOP_SIZE
            in if length bs < end_of_transaction_data then Inl InvalidData
            else rbind (tx_deserialize_from_net
                         (subslice start_of_transaction_data end_of_transaction_data bs)) (\<lambda>tx.
                 rbind (block_read_transactions bs end_of_transaction_data n) (\<lambda>txs.
                   Inr (tx # txs))))))"

definition block_deserialize_from_net :: "bytes \<Rightarrow> block res" where
  "block_deserialize_from_net bs =
     (if length bs < BLOCK_HEADER_SIZE then Inl InvalidData
      else
        (let transactions_len = u32_at bs 0 in
         rbind (block_read_transactions bs BLOCK_HEADER_SIZE (unat transactions_len)) (\<lambda>txs.
           (let block = block_new\<lparr>
              b_id := u64_at bs 4, b_timestamp := u64_at bs 12,
              b_previous_block_hash := subslice 20 52 bs, b_creator := subslice 52 85 bs,
              b_merkle_root := subslice 85 117 bs, b_signature := subslice 117 181 bs,
              b_graveyard := u64_at bs 181, b_treasury := u64_at bs 189,
              b_burnfee := u64_at bs 197, b_difficulty := u64_at bs 205,
              b_avg_total_fees := u64_at bs 245, b_avg_fee_per_byte := u64_at bs 221,
              b_avg_nolan_rebroadcast_per_block := u64_at bs 229,
              b_previous_block_unpaid := u64_at bs 237, b_avg_total_fees_new := u64_at bs 253,
              b_avg_total_fees_atr := u64_at bs 261, b_avg_payout_routing := u64_at bs 269,
              b_avg_payout_mining := u64_at bs 277, b_avg_payout_treasury := u64_at bs 285,
              b_avg_payout_graveyard := u64_at bs 293, b_avg_payout_atr := u64_at bs 301,
              b_total_payout_routing := u64_at bs 309, b_total_payout_mining := u64_at bs 317,
              b_total_payout_treasury := u64_at bs 325,
              b_total_payout_graveyard := u64_at bs 333, b_total_payout_atr := u64_at bs 341,
              b_total_fees := u64_at bs 349, b_total_fees_new := u64_at bs 357,
              b_total_fees_atr := u64_at bs 365, b_fee_per_byte := u64_at bs 373,
              b_total_fees_cumulative := u64_at bs 381,
              b_transactions := txs\<rparr>
            in Inr (if transactions_len = 0 \<and>
                   \<not> (b_id block = 1 \<and> b_previous_block_hash block = replicate 32 0)
                 then block\<lparr>b_block_type := BT_Header\<rparr> else block)))))"

section \<open>Hashing and signing\<close>

definition block_serialize_for_signature :: "block \<Rightarrow> bytes" where
  "block_serialize_for_signature b =
     to_be (b_id b) @ to_be (b_timestamp b) @ b_previous_block_hash b @ b_creator b @
     b_merkle_root b @
     to_be (b_graveyard b) @ to_be (b_treasury b) @ to_be (b_burnfee b) @
     to_be (b_difficulty b) @ to_be (b_avg_fee_per_byte b) @
     to_be (b_avg_nolan_rebroadcast_per_block b) @ to_be (b_previous_block_unpaid b) @
     to_be (b_avg_total_fees b) @ to_be (b_avg_total_fees_new b) @
     to_be (b_avg_total_fees_atr b) @ to_be (b_avg_payout_routing b) @
     to_be (b_avg_payout_mining b)"

definition block_serialize_for_hash :: "block \<Rightarrow> bytes" where
  "block_serialize_for_hash b = b_previous_block_hash b @ b_pre_hash b"

definition block_generate_pre_hash :: "ext \<Rightarrow> block \<Rightarrow> block" where
  "block_generate_pre_hash X b = b\<lparr>b_pre_hash := hash X (block_serialize_for_signature b)\<rparr>"

definition block_generate_hash :: "ext \<Rightarrow> block \<Rightarrow> block" where
  "block_generate_hash X b = b\<lparr>b_hash := hash X (block_serialize_for_hash b)\<rparr>"

definition block_sign :: "ext \<Rightarrow> bytes \<Rightarrow> block \<Rightarrow> block res" where
  "block_sign X private_key b =
     rbind (sign X (block_serialize_for_signature b) private_key) (\<lambda>sig.
       Inr (b\<lparr>b_signature := sig\<rparr>))"

section \<open>Values derived from the transactions\<close>

definition block_generate_merkle_root :: "ext \<Rightarrow> bool \<Rightarrow> bool \<Rightarrow> block \<Rightarrow> bytes res" where
  "block_generate_merkle_root X is_browser is_spv b =
     (if b_transactions b = [] \<and> (is_browser \<or> is_spv) then Inr (b_merkle_root b)
      else rbind (merkle_generate X (b_transactions b)) (\<lambda>tree.
        case tree of Some t \<Rightarrow> get_root_hash t | None \<Rightarrow> Inr (replicate 32 0)))"

definition block_generate_transaction_hashmap :: "block \<Rightarrow> block" where
  "block_generate_transaction_hashmap b =
     (if b_transaction_map b \<noteq> [] then b
      else b\<lparr>b_transaction_map :=
        fold (\<lambda>tx m.
            fold (\<lambda>s. AList.update (slip_public_key s) True) (tx_to tx)
              (fold (\<lambda>s. AList.update (slip_public_key s) True) (tx_from tx) m))
          (b_transactions b) []\<rparr>)"

definition block_has_keylist_txs :: "bytes list \<Rightarrow> block \<Rightarrow> bool" where
  "block_has_keylist_txs keylist b =
     list_ex (\<lambda>key. map_of (b_transaction_map b) key \<noteq> None) keylist"

text \<open>The transactions generate themselves; a placeholder takes as many ordinals as it replaces.\<close>

fun block_generate_txs :: "ext \<Rightarrow> bytes \<Rightarrow> u64 \<Rightarrow> u64 \<Rightarrow> transaction list \<Rightarrow> transaction list" where
  "block_generate_txs X creator block_id tx_index [] = []"
| "block_generate_txs X creator block_id tx_index (tx # txs) =
     tx_generate X creator tx_index block_id tx #
     block_generate_txs X creator block_id
       (if tx_transaction_type tx = TT_SPV then tx_index + ucast (tx_txs_replacements tx)
        else tx_index + 1) txs"

text \<open>Recording the inputs of a transaction; a key seen before is a double spend.\<close>

fun spend_inputs :: "slip list \<Rightarrow> (bytes \<times> u64) list \<Rightarrow> (bytes \<times> u64) list res" where
  "spend_inputs [] spent = Inr spent"
| "spend_inputs (input # inputs) spent =
     (if slip_amount input = 0 then spend_inputs inputs spent
      else
        (let key = slip_get_utxoset_key input;
             v = (case map_of spent key of Some e \<Rightarrow> e + 1 | None \<Rightarrow> 1);
             spent' = AList.update key v spent
         in if v > 1 \<and> slip_amount input > 0 then Inl InvalidData
            else spend_inputs inputs spent'))"

text \<open>The local variables of the sweep.\<close>

record generate_locals =
  gl_cumulative_fees :: u64
  gl_total_work :: u64
  gl_has_golden_ticket :: bool
  gl_has_fee_transaction :: bool
  gl_has_issuance_transaction :: bool
  gl_issuance_transaction_index :: u64
  gl_golden_ticket_index :: u64
  gl_fee_transaction_index :: u64

definition block_note_type ::
  "ext \<Rightarrow> nat \<Rightarrow> transaction \<Rightarrow> generate_locals \<times> block \<Rightarrow> generate_locals \<times> block" where
  "block_note_type X i tx = (\<lambda>(l, b).
     case tx_transaction_type tx of
       TT_Issuance \<Rightarrow>
         (l\<lparr>gl_has_issuance_transaction := True, gl_issuance_transaction_index := of_nat i\<rparr>, b)
     | TT_Fee \<Rightarrow> (l\<lparr>gl_has_fee_transaction := True, gl_fee_transaction_index := of_nat i\<rparr>, b)
     | TT_GoldenTicket \<Rightarrow>
         (l\<lparr>gl_has_golden_ticket := True, gl_golden_ticket_index := of_nat i\<rparr>, b)
     | TT_ATR \<Rightarrow>
         (l, b\<lparr>b_rebroadcast_hash := hash X (b_rebroadcast_hash b @ tx_serialize_for_signature tx),
               b_total_rebroadcast_slips := b_total_rebroadcast_slips b +
                 of_nat (length (filter (\<lambda>s. slip_slip_type s = ST_ATR) (tx_to tx)))\<rparr>)
     | TT_BlockStake \<Rightarrow> (l, b\<lparr>b_has_staking_transaction := True\<rparr>)
     | _ \<Rightarrow> (l, b))"

text \<open>
  The sweep over the transactions from index \<open>i\<close> on. The flag
  \<^verbatim>\<open>created_hashmap_of_slips_spent_this_block\<close> is set inside the loop, after the first
  transaction whose inputs are recorded, as in the source.
\<close>

fun block_sweep :: "ext \<Rightarrow> nat \<Rightarrow> transaction list \<Rightarrow> generate_locals \<Rightarrow> block \<Rightarrow>
  (transaction list \<times> generate_locals \<times> block) res" where
  "block_sweep X i [] l b = Inr ([], l, b)"
| "block_sweep X i (tx0 # txs) l b =
     (let (c, tx) = tx_generate_cumulative_fees (gl_cumulative_fees l) tx0;
          l1 = l\<lparr>gl_cumulative_fees := c,
                 gl_total_work := gl_total_work l + tx_total_work_for_me tx\<rparr>
      in rbind (if \<not> b_created_hashmap_of_slips_spent_this_block b \<and> tx_transaction_type tx \<noteq> TT_Fee
                then rbind (spend_inputs (tx_from tx) (b_slips_spent_this_block b)) (\<lambda>spent.
                  Inr (b\<lparr>b_slips_spent_this_block := spent,
                         b_created_hashmap_of_slips_spent_this_block := True\<rparr>))
                else Inr b) (\<lambda>b1.
         let (l2, b2) = block_note_type X i tx (l1, b1) in
         rbind (block_sweep X (i + 1) txs l2 b2) (\<lambda>(txs', l', b'). Inr (tx # txs', l', b'))))"

definition generate_locals_init :: generate_locals where
  "generate_locals_init = \<lparr>gl_cumulative_fees = 0, gl_total_work = 0, gl_has_golden_ticket = False,
     gl_has_fee_transaction = False, gl_has_issuance_transaction = False,
     gl_issuance_transaction_index = 0, gl_golden_ticket_index = 0, gl_fee_transaction_index = 0\<rparr>"

definition block_generate :: "ext \<Rightarrow> block \<Rightarrow> block res" where
  "block_generate X b =
     (let b1 = b\<lparr>b_total_rebroadcast_slips := 0, b_rebroadcast_hash := replicate 32 0,
                 b_transactions :=
                   block_generate_txs X (b_creator b) (b_id b) 0 (b_transactions b)\<rparr>;
          b2 = block_generate_transaction_hashmap b1
      in rbind (if b_merkle_root b2 = replicate 32 0
                then rbind (block_generate_merkle_root X False False b2) (\<lambda>r.
                  Inr (b2\<lparr>b_merkle_root := r\<rparr>))
                else Inr b2) (\<lambda>b3.
         let b4 = block_generate_hash X (block_generate_pre_hash X b3) in
         rbind (block_sweep X 0 (b_transactions b4) generate_locals_init b4) (\<lambda>(txs, l, b5).
           Inr (b5\<lparr>b_transactions := txs,
                   b_has_fee_transaction := gl_has_fee_transaction l,
                   b_has_golden_ticket := gl_has_golden_ticket l,
                   b_has_issuance_transaction := gl_has_issuance_transaction l,
                   b_fee_transaction_index := gl_fee_transaction_index l,
                   b_golden_ticket_index := gl_golden_ticket_index l,
                   b_issuance_transaction_index := gl_issuance_transaction_index l,
                   b_total_work := gl_total_work l\<rparr>))))"

section \<open>Light blocks, pruning, reorganisation\<close>

definition lite_tx :: "bytes list \<Rightarrow> transaction \<Rightarrow> transaction" where
  "lite_tx keylist tx =
     (if list_ex (\<lambda>s. slip_public_key s \<in> set keylist) (tx_from tx) \<or>
         list_ex (\<lambda>s. slip_public_key s \<in> set keylist) (tx_to tx) \<or> tx_is_golden_ticket tx
      then tx
      else \<lparr>tx_timestamp = tx_timestamp tx, tx_from = [], tx_to = [], tx_data = [],
             tx_transaction_type = TT_SPV, tx_txs_replacements = 1,
             tx_signature = tx_signature tx, tx_path = [],
             tx_hash_for_signature = tx_hash_for_signature tx, tx_total_in = 0, tx_total_out = 0,
             tx_total_fees = 0, tx_total_work_for_me = 0, tx_cumulative_fees = 0\<rparr>)"

function lite_merge :: "ext \<Rightarrow> nat \<Rightarrow> transaction list \<Rightarrow> transaction list res" where
  "lite_merge X i txs =
     (if i + 1 < length txs then
        (let a = txs ! i; b = txs ! (i + 1) in
         if tx_transaction_type a = TT_SPV \<and> tx_transaction_type b = TT_SPV \<and>
            tx_txs_replacements a = tx_txs_replacements b
         then rbind (ok_or Panic (tx_hash_for_signature a)) (\<lambda>ha.
              rbind (ok_or Panic (tx_hash_for_signature b)) (\<lambda>hb.
                lite_merge X i
                  (take i txs @
                   a\<lparr>tx_txs_replacements := tx_txs_replacements a * 2,
                     tx_hash_for_signature := Some (hash X (ha @ hb))\<rparr> # drop (i + 2) txs)))
         else lite_merge X (i + 2) txs)
      else Inr txs)"
  by pat_completeness auto
termination
  by (relation "measure (\<lambda>(X, i, txs). 2 * length txs - i)") auto

declare lite_merge.simps [simp del]

definition block_generate_lite_block :: "ext \<Rightarrow> bytes list \<Rightarrow> block \<Rightarrow> block res" where
  "block_generate_lite_block X keylist b =
     rbind (lite_merge X 0 (map (lite_tx keylist) (b_transactions b))) (\<lambda>pruned_txs.
     rbind (block_generate_merkle_root X True True b) (\<lambda>root.
       Inr (block_new\<lparr>b_transactions := pruned_txs,
         b_id := b_id b, b_timestamp := b_timestamp b,
         b_previous_block_hash := b_previous_block_hash b, b_creator := b_creator b,
         b_burnfee := b_burnfee b, b_difficulty := b_difficulty b, b_graveyard := b_graveyard b,
         b_treasury := b_treasury b, b_signature := b_signature b,
         b_avg_fee_per_byte := b_avg_fee_per_byte b,
         b_avg_nolan_rebroadcast_per_block := b_avg_nolan_rebroadcast_per_block b,
         b_previous_block_unpaid := b_previous_block_unpaid b,
         b_avg_total_fees := b_avg_total_fees b, b_avg_total_fees_new := b_avg_total_fees_new b,
         b_avg_total_fees_atr := b_avg_total_fees_atr b,
         b_avg_payout_routing := b_avg_payout_routing b,
         b_avg_payout_mining := b_avg_payout_mining b,
         b_avg_payout_treasury := b_avg_payout_treasury b,
         b_avg_payout_graveyard := b_avg_payout_graveyard b,
         b_avg_payout_atr := b_avg_payout_atr b,
         b_total_payout_routing := b_total_payout_routing b,
         b_total_payout_mining := b_total_payout_mining b,
         b_total_payout_treasury := b_total_payout_treasury b,
         b_total_payout_graveyard := b_total_payout_graveyard b,
         b_total_payout_atr := b_total_payout_atr b, b_total_fees := b_total_fees b,
         b_total_fees_new := b_total_fees_new b, b_total_fees_atr := b_total_fees_atr b,
         b_fee_per_byte := b_fee_per_byte b, b_hash := b_hash b,
         b_total_fees_cumulative := b_total_fees_cumulative b,
         b_merkle_root := root\<rparr>)))"

definition block_downgrade_block_to_block_type :: "BlockType \<Rightarrow> block \<Rightarrow> bool \<times> block" where
  "block_downgrade_block_to_block_type ty b =
     (if b_block_type b = ty then (True, b)
      else if ty = BT_Pruned then (True, b\<lparr>b_transactions := [], b_block_type := BT_Pruned\<rparr>)
      else (False, b))"

definition block_on_chain_reorganization :: "utxoset \<Rightarrow> bool \<Rightarrow> block \<Rightarrow> utxoset \<times> block" where
  "block_on_chain_reorganization utxoset longest_chain b =
     (fold (\<lambda>tx u. tx_on_chain_reorganization tx u longest_chain) (b_transactions b) utxoset,
      b\<lparr>b_in_longest_chain := longest_chain\<rparr>)"

definition block_delete :: "utxoset \<Rightarrow> block \<Rightarrow> bool \<times> utxoset" where
  "block_delete utxoset b =
     (True, fold (\<lambda>tx u. snd (tx_delete tx u)) (b_transactions b) utxoset)"

section \<open>The winning router\<close>

definition block_find_winning_router :: "ext \<Rightarrow> bytes \<Rightarrow> block \<Rightarrow> bytes res" where
  "block_find_winning_router X random_number b =
     (if b_total_fees b = 0 then Inr (replicate 33 0)
      else
        (let winning_nolan =
               max (u256_rem_low_u64 X random_number (to_be (b_total_fees b))) 1
         in case find (\<lambda>tx. tx_cumulative_fees tx \<ge> winning_nolan) (b_transactions b) of
              None \<Rightarrow> Inr (replicate 33 0)
            | Some tx \<Rightarrow>
                rbind (if tx_transaction_type tx = TT_ATR
                       then (case tx_deserialize_from_net (tx_data tx) of
                               Inr inner \<Rightarrow> Inr inner | Inl _ \<Rightarrow> Inl Panic)
                       else if tx_cumulative_fees tx = 0 then Inl Panic else Inr tx) (\<lambda>winning_tx.
                  tx_get_winning_routing_node X (hash X random_number) winning_tx)))"

section \<open>Validation\<close>

text \<open>What \<^verbatim>\<open>generate_consensus_values\<close> returns.\<close>

record ConsensusValues =
  c_fee_transaction :: "transaction option"
  c_st_num :: u8
  c_st_index :: "nat option"
  c_it_num :: u8
  c_it_index :: "nat option"
  c_ft_num :: u8
  c_ft_index :: "nat option"
  c_gt_num :: u8
  c_gt_index :: "nat option"
  c_total_fees :: u64
  c_total_fees_new :: u64
  c_total_fees_atr :: u64
  c_total_fees_cumulative :: u64
  c_avg_total_fees :: u64
  c_avg_total_fees_new :: u64
  c_avg_total_fees_atr :: u64
  c_total_bytes_new :: u64
  c_total_payout_routing :: u64
  c_total_payout_mining :: u64
  c_total_payout_treasury :: u64
  c_total_payout_graveyard :: u64
  c_total_payout_atr :: u64
  c_avg_payout_routing :: u64
  c_avg_payout_mining :: u64
  c_avg_payout_treasury :: u64
  c_avg_payout_graveyard :: u64
  c_avg_payout_atr :: u64
  c_avg_fee_per_byte :: u64
  c_fee_per_byte :: u64
  c_burnfee :: u64
  c_difficulty :: u64
  c_total_rebroadcast_slips :: u64
  c_total_rebroadcast_nolan :: u64
  c_rebroadcasts :: "transaction list"
  c_rebroadcast_hash :: bytes
  c_avg_nolan_rebroadcast_per_block :: u64
  c_total_rebroadcast_fees_nolan :: u64
  c_total_rebroadcast_staking_payouts_nolan :: u64
  c_total_fees_paid_by_nonrebroadcast_atr_transactions :: u64
  c_expected_difficulty :: u64

text \<open>The part of the configuration consensus reads, and what \<^verbatim>\<open>validate\<close> reads of the blockchain.\<close>

record node_config =
  cfg_is_spv_mode :: bool
  cfg_is_browser :: bool
  cfg_heartbeat_interval :: u64
  cfg_genesis_period :: u64
  cfg_prune_after_blocks :: u64
  cfg_max_staker_recursions :: u64
  cfg_issuance_writing_block_interval :: u64
  cfg_initial_loading_completed :: bool

record block_context =
  bx_blocks :: "(bytes \<times> block) list"
  bx_view :: chain_view

definition block_matches_cv :: "ConsensusValues \<Rightarrow> block \<Rightarrow> bool" where
  "block_matches_cv cv b \<longleftrightarrow>
     c_total_fees cv = b_total_fees b \<and>
     c_total_fees_new cv = b_total_fees_new b \<and>
     c_total_fees_atr cv = b_total_fees_atr b \<and>
     c_total_fees_cumulative cv = b_total_fees_cumulative b \<and>
     c_avg_total_fees cv = b_avg_total_fees b \<and>
     c_avg_total_fees_new cv = b_avg_total_fees_new b \<and>
     c_avg_total_fees_atr cv = b_avg_total_fees_atr b \<and>
     c_total_payout_routing cv = b_total_payout_routing b \<and>
     c_total_payout_mining cv = b_total_payout_mining b \<and>
     c_total_payout_treasury cv = b_total_payout_treasury b \<and>
     c_total_payout_graveyard cv = b_total_payout_graveyard b \<and>
     c_total_payout_atr cv = b_total_payout_atr b \<and>
     c_avg_payout_routing cv = b_avg_payout_routing b \<and>
     c_avg_payout_mining cv = b_avg_payout_mining b \<and>
     c_avg_payout_treasury cv = b_avg_payout_treasury b \<and>
     c_avg_payout_graveyard cv = b_avg_payout_graveyard b \<and>
     c_avg_payout_atr cv = b_avg_payout_atr b \<and>
     c_avg_fee_per_byte cv = b_avg_fee_per_byte b \<and>
     c_fee_per_byte cv = b_fee_per_byte b \<and>
     c_avg_nolan_rebroadcast_per_block cv = b_avg_nolan_rebroadcast_per_block b"

text \<open>The part of the check that needs the previous block; \<open>None\<close> is a return with true.\<close>

definition block_validate_previous ::
  "ext \<Rightarrow> node_config \<Rightarrow> ConsensusValues \<Rightarrow> bool \<Rightarrow> block \<Rightarrow> block \<Rightarrow> bool option res" where
  "block_validate_previous X conf cv validate_against_utxo previous_block b =
     (if b_block_type previous_block = BT_Ghost then Inr None
      else if validate_against_utxo \<and>
        b_treasury b \<noteq> b_treasury previous_block + c_total_payout_treasury cv - c_total_payout_atr cv
        then Inr (Some False)
      else if validate_against_utxo \<and>
        b_graveyard b \<noteq> b_graveyard previous_block + c_total_payout_graveyard cv
        then Inr (Some False)
      else if b_total_work b < return_routing_work_needed_to_produce_block_in_nolan
          (b_burnfee previous_block) (b_timestamp b) (b_timestamp previous_block)
          (cfg_heartbeat_interval conf)
        then Inr (Some False)
      else case c_gt_index cv of
        Some gt_index \<Rightarrow>
          rbind (index_r (b_transactions b) gt_index) (\<lambda>tx.
          rbind (gt_deserialize_from_net (tx_data tx)) (\<lambda>golden_ticket.
            let gt = gt_create (b_hash previous_block) (gt_random golden_ticket)
                       (gt_public_key golden_ticket) in
            if b_previous_block_unpaid b \<noteq> 0 then Inr (Some False)
            else Inr (Some (gt_validate X gt (b_difficulty previous_block)))))
      | None \<Rightarrow> Inr (Some (b_previous_block_unpaid b = b_total_fees previous_block)))"

definition block_validate_fee_transaction :: "ext \<Rightarrow> ConsensusValues \<Rightarrow> bool \<Rightarrow> block \<Rightarrow> bool res" where
  "block_validate_fee_transaction X cv validate_against_utxo b =
     (if c_ft_num cv > 0 then
        (case (c_ft_index cv, c_fee_transaction cv) of
           (Some ft_index, Some fee_transaction_expected) \<Rightarrow>
             if c_gt_index cv = None then Inr False
             else rbind (index_r (b_transactions b) ft_index) (\<lambda>fee_transaction_in_block.
               Inr (\<not> (validate_against_utxo \<and>
                 hash X (tx_serialize_for_signature fee_transaction_expected) \<noteq>
                 hash X (tx_serialize_for_signature fee_transaction_in_block))))
         | _ \<Rightarrow> Inr True)
      else Inr True)"

text \<open>The inputs of one transaction against the keys spent so far; \<open>None\<close> is a double spend.\<close>

fun block_spend_keys :: "slip list \<Rightarrow> bytes list \<Rightarrow> bytes list option" where
  "block_spend_keys [] keys = Some keys"
| "block_spend_keys (input # inputs) keys =
     (if slip_amount input = 0 \<or> slip_slip_type input = ST_Bound then block_spend_keys inputs keys
      else if slip_get_utxoset_key input \<in> set keys then None
      else block_spend_keys inputs (slip_get_utxoset_key input # keys))"

text \<open>The loop over the transactions: the closure returns true for an invalid transaction.\<close>

fun block_transactions_valid ::
  "ext \<Rightarrow> utxoset \<Rightarrow> chain_view \<Rightarrow> bool \<Rightarrow> transaction list \<Rightarrow> bytes list \<Rightarrow> bool res" where
  "block_transactions_valid X utxoset bc validate_against_utxo [] keys = Inr True"
| "block_transactions_valid X utxoset bc validate_against_utxo (tx # txs) keys =
     rbind (tx_validate X utxoset bc validate_against_utxo tx) (\<lambda>valid_tx.
       if valid_tx \<and> tx_transaction_type tx \<noteq> TT_Fee
       then (case block_spend_keys (tx_from tx) keys of
               None \<Rightarrow> Inr False
             | Some keys' \<Rightarrow>
                 block_transactions_valid X utxoset bc validate_against_utxo txs keys')
       else block_transactions_valid X utxoset bc validate_against_utxo txs keys)"

text \<open>The rules on the header before the previous block is looked up; each is a return with false.\<close>

definition block_validate_header ::
  "ext \<Rightarrow> block_context \<Rightarrow> ConsensusValues \<Rightarrow> bool \<Rightarrow> block \<Rightarrow> bool" where
  "block_validate_header X bx cv validate_against_utxo b \<longleftrightarrow>
     \<not> (b_transactions b = [] \<and> b_id b \<noteq> 1 \<and> bx_blocks bx \<noteq> []) \<and>
     verify_signature X (b_pre_hash b) (b_signature b) (b_creator b) \<and>
     (validate_against_utxo \<longrightarrow> block_matches_cv cv b) \<and>
     c_burnfee cv = b_burnfee b \<and>
     c_difficulty cv = b_difficulty b \<and>
     \<not> (c_it_num cv > 0 \<and> b_id b > 1) \<and>
     \<not> (cv_social_stake_requirement (bx_view bx) \<noteq> 0 \<and> c_st_num cv \<noteq> 1 \<and> b_id b > 1)"

text \<open>The rules after it: rebroadcasts, Merkle root, fee transaction, transactions.\<close>

definition block_validate_contents ::
  "ext \<Rightarrow> node_config \<Rightarrow> block_context \<Rightarrow> utxoset \<Rightarrow> ConsensusValues \<Rightarrow> bool \<Rightarrow> block \<Rightarrow> bool res" where
  "block_validate_contents X conf bx utxoset cv validate_against_utxo b =
     (if validate_against_utxo \<and> c_total_rebroadcast_slips cv \<noteq> b_total_rebroadcast_slips b
        then Inr False
      else if validate_against_utxo \<and> c_rebroadcast_hash cv \<noteq> b_rebroadcast_hash b
        then Inr False
      else rbind (if b_merkle_root b = replicate 32 0
                  then rbind (block_generate_merkle_root X (cfg_is_browser conf)
                               (cfg_is_spv_mode conf) b) (\<lambda>r. Inr (b_merkle_root b = r))
                  else Inr True) (\<lambda>root_ok.
        if \<not> root_ok then Inr False
        else rbind (block_validate_fee_transaction X cv validate_against_utxo b) (\<lambda>fee_ok.
          if \<not> fee_ok then Inr False
          else block_transactions_valid X utxoset (bx_view bx) validate_against_utxo
                 (b_transactions b) [])))"

definition block_validate ::
  "ext \<Rightarrow> node_config \<Rightarrow> block_context \<Rightarrow> utxoset \<Rightarrow> ConsensusValues \<Rightarrow> bool \<Rightarrow> block \<Rightarrow> bool res" where
  "block_validate X conf bx utxoset cv validate_against_utxo b =
     (if b_id b = 0 then Inl Panic
      else if cfg_is_spv_mode conf then Inr True
      else if b_block_type b = BT_Ghost then Inr True
      else if \<not> block_validate_header X bx cv validate_against_utxo b then Inr False
      else rbind (case map_of (bx_blocks bx) (b_previous_block_hash b) of
                    Some previous_block \<Rightarrow>
                      block_validate_previous X conf cv validate_against_utxo previous_block b
                  | None \<Rightarrow> Inr (Some True)) (\<lambda>prev.
        case prev of
          None \<Rightarrow> Inr True
        | Some False \<Rightarrow> Inr False
        | Some True \<Rightarrow> block_validate_contents X conf bx utxoset cv validate_against_utxo b))"

end
