(* ===== verification/Wallet.thy ===== *)
theory Wallet
  imports Block
begin

text \<open>
  The wallet (\<^verbatim>\<open>consensus/wallet.rs\<close>): the slips of the node's own key, which of them are unspent
  or staked, the balance, pending transactions and NFTs; its reaction to blocks that are wound and
  unwound, the choice of slips for a payment or a stake, and the transactions it builds. The hash
  map of slips is an association list; a hash set is the list of its elements in the order it is
  iterated, which the theorems leave arbitrary. The fields \<^verbatim>\<open>wallet_version\<close> and \<^verbatim>\<open>core_version\<close>,
  which no operation here reads, and the notifications to the user interface are left out.
\<close>

section \<open>Data\<close>

record WalletSlip =
  ws_utxokey :: bytes
  ws_amount :: u64
  ws_block_id :: u64
  ws_tx_ordinal :: u64
  ws_lc :: bool
  ws_slip_index :: u8
  ws_spent :: bool
  ws_slip_type :: SlipType

definition ws_new :: WalletSlip where
  "ws_new = \<lparr>ws_utxokey = replicate UTXO_KEY_LENGTH 0, ws_amount = 0, ws_block_id = 0,
     ws_tx_ordinal = 0, ws_lc = True, ws_slip_index = 0, ws_spent = False,
     ws_slip_type = ST_Normal\<rparr>"

definition ws_is_staking_slip_unlocked :: "u64 \<Rightarrow> WalletSlip \<Rightarrow> bool" where
  "ws_is_staking_slip_unlocked latest_unlocked_block_id ws \<longleftrightarrow>
     ws_slip_type ws = ST_BlockStake \<and> ws_block_id ws \<le> latest_unlocked_block_id"

definition ws_to_slip :: "WalletSlip \<Rightarrow> slip res" where
  "ws_to_slip ws = unwrap_r (slip_parse_slip_from_utxokey (ws_utxokey ws))"

record NFT =
  nft_slip1 :: bytes
  nft_slip2 :: bytes
  nft_slip3 :: bytes
  nft_id :: bytes
  nft_tx_sig :: bytes

record Wallet =
  w_public_key :: bytes
  w_private_key :: bytes
  w_slips :: "(bytes \<times> WalletSlip) list"
  w_unspent_slips :: "bytes list"
  w_staking_slips :: "bytes list"
  w_filename :: string
  w_filepass :: string
  w_available_balance :: u64
  w_pending_txs :: "(bytes \<times> transaction) list"
  w_key_list :: "bytes list"
  w_nfts :: "NFT list"

definition wallet_new :: "bytes \<Rightarrow> bytes \<Rightarrow> Wallet" where
  "wallet_new private_key public_key = \<lparr>w_public_key = public_key, w_private_key = private_key,
     w_slips = [], w_unspent_slips = [], w_staking_slips = [], w_filename = ''default'',
     w_filepass = ''password'', w_available_balance = 0, w_pending_txs = [], w_key_list = [],
     w_nfts = []\<rparr>"

text \<open>The key pair drawn when the keys are not kept is an argument.\<close>

definition wallet_reset :: "bytes \<times> bytes \<Rightarrow> bool \<Rightarrow> Wallet \<Rightarrow> Wallet" where
  "wallet_reset new_keys keep_keys w =
     (let w1 = (if keep_keys then w
                else w\<lparr>w_public_key := fst new_keys, w_private_key := snd new_keys\<rparr>)
      in w1\<lparr>w_pending_txs := [], w_available_balance := 0, w_slips := [], w_unspent_slips := [],
            w_staking_slips := []\<rparr>)"

definition wallet_serialize_for_disk :: "Wallet \<Rightarrow> bytes" where
  "wallet_serialize_for_disk w = w_private_key w @ w_public_key w"

definition wallet_deserialize_from_disk :: "bytes \<Rightarrow> Wallet \<Rightarrow> Wallet res" where
  "wallet_deserialize_from_disk bs w =
     rbind (slice_r 0 32 bs) (\<lambda>private_key.
     rbind (slice_r 32 65 bs) (\<lambda>public_key.
       Inr (w\<lparr>w_private_key := private_key, w_public_key := public_key\<rparr>)))"

section \<open>Slips\<close>

definition set_add :: "'a \<Rightarrow> 'a list \<Rightarrow> 'a list" where
  "set_add x xs = (if x \<in> set xs then xs else xs @ [x])"

definition wallet_add_slip :: "u64 \<Rightarrow> u64 \<Rightarrow> slip \<Rightarrow> bool \<Rightarrow> Wallet \<Rightarrow> Wallet res" where
  "wallet_add_slip block_id tx_index s lc w =
     (let key = slip_get_utxoset_key s in
      if map_of (w_slips w) key \<noteq> None then Inr w
      else if block_id = 0 then Inl Panic
      else
        (let ws = ws_new\<lparr>ws_utxokey := key, ws_amount := slip_amount s,
               ws_slip_index := slip_slip_index s, ws_block_id := block_id,
               ws_tx_ordinal := tx_index, ws_lc := lc, ws_slip_type := slip_slip_type s\<rparr>;
             w1 = (if slip_slip_type s = ST_BlockStake
                   then w\<lparr>w_staking_slips := set_add key (w_staking_slips w)\<rparr>
                   else if slip_slip_type s = ST_Bound then w
                   else w\<lparr>w_available_balance := w_available_balance w + slip_amount s,
                          w_unspent_slips := set_add key (w_unspent_slips w)\<rparr>)
         in Inr (w1\<lparr>w_slips := AList.update key ws (w_slips w1)\<rparr>)))"

definition wallet_delete_slip :: "slip \<Rightarrow> Wallet \<Rightarrow> Wallet" where
  "wallet_delete_slip s w =
     (let key = slip_utxoset_key s in
      case map_of (w_slips w) key of
        None \<Rightarrow> w
      | Some removed_slip \<Rightarrow>
          (let w1 = w\<lparr>w_slips := AList.delete key (w_slips w)\<rparr> in
           if key \<in> set (w_unspent_slips w1)
           then w1\<lparr>w_unspent_slips := removeAll key (w_unspent_slips w1),
                   w_available_balance := w_available_balance w1 - ws_amount removed_slip\<rparr>
           else w1\<lparr>w_staking_slips := removeAll key (w_staking_slips w1)\<rparr>))"

definition wallet_get_available_balance :: "Wallet \<Rightarrow> u64" where
  "wallet_get_available_balance w = w_available_balance w"

definition wallet_get_unspent_slip_count :: "Wallet \<Rightarrow> u64" where
  "wallet_get_unspent_slip_count w = of_nat (length (w_unspent_slips w))"

fun delete_old_keys :: "bytes list \<Rightarrow> Wallet \<Rightarrow> Wallet res" where
  "delete_old_keys [] w = Inr w"
| "delete_old_keys (key # ks) w =
     rbind (unwrap_r (slip_parse_slip_from_utxokey key)) (\<lambda>s.
       delete_old_keys ks (wallet_delete_slip s w))"

definition wallet_remove_old_slips :: "u64 \<Rightarrow> Wallet \<Rightarrow> Wallet res" where
  "wallet_remove_old_slips block_id w =
     delete_old_keys (map fst (filter (\<lambda>(key, ws). ws_block_id ws < block_id) (w_slips w))) w"

definition wallet_add_to_pending :: "transaction \<Rightarrow> Wallet \<Rightarrow> Wallet res" where
  "wallet_add_to_pending tx w =
     (if tx_from tx = [] then Inl Panic
      else if slip_public_key (hd (tx_from tx)) \<noteq> w_public_key w then Inl Panic
      else if tx_transaction_type tx = TT_GoldenTicket then Inl Panic
      else rbind (ok_or Panic (tx_hash_for_signature tx)) (\<lambda>h.
        Inr (w\<lparr>w_pending_txs := AList.update h tx (w_pending_txs w)\<rparr>)))"

definition wallet_delete_pending_transaction :: "transaction \<Rightarrow> Wallet \<Rightarrow> (bool \<times> Wallet) res" where
  "wallet_delete_pending_transaction tx w =
     rbind (ok_or Panic (tx_hash_for_signature tx)) (\<lambda>h.
       Inr (map_of (w_pending_txs w) h \<noteq> None,
            w\<lparr>w_pending_txs := AList.delete h (w_pending_txs w)\<rparr>))"

section \<open>Blocks\<close>

text \<open>The loops over slips take three at a time where an NFT starts and one otherwise.\<close>

datatype slip_group = NFT_Group slip slip slip | Single slip

function slip_groups :: "slip list \<Rightarrow> slip_group list" where
  "slip_groups [] = []"
| "slip_groups (s # ss) =
     (if tx_is_nft (s # ss) 0 then NFT_Group s (ss ! 0) (ss ! 1) # slip_groups (drop 2 ss)
      else Single s # slip_groups ss)"
  by pat_completeness auto
termination by (relation "measure length") auto

definition nft_of :: "bytes \<Rightarrow> slip \<Rightarrow> slip \<Rightarrow> slip \<Rightarrow> NFT" where
  "nft_of sig s1 s2 s3 = \<lparr>nft_slip1 = slip_utxoset_key s1, nft_slip2 = slip_utxoset_key s2,
     nft_slip3 = slip_utxoset_key s3, nft_id = slip_utxoset_key s2, nft_tx_sig = sig\<rparr>"

text \<open>\<^verbatim>\<open>position\<close> and \<^verbatim>\<open>remove\<close>: the first NFT with the id.\<close>

fun remove_nft :: "bytes \<Rightarrow> NFT list \<Rightarrow> NFT list" where
  "remove_nft i [] = []"
| "remove_nft i (n # ns) = (if nft_id n = i then ns else n # remove_nft i ns)"

fun wallet_wind_outputs ::
  "u64 \<Rightarrow> u64 \<Rightarrow> bytes \<Rightarrow> slip_group list \<Rightarrow> Wallet \<times> bool \<Rightarrow> (Wallet \<times> bool) res" where
  "wallet_wind_outputs block_id tx_index sig [] (w, changed) = Inr (w, changed)"
| "wallet_wind_outputs block_id tx_index sig (NFT_Group s1 s2 s3 # gs) (w, changed) =
     wallet_wind_outputs block_id tx_index sig gs
       (w\<lparr>w_nfts := w_nfts w @ [nft_of sig s1 s2 s3]\<rparr>, changed)"
| "wallet_wind_outputs block_id tx_index sig (Single s # gs) (w, changed) =
     (if slip_amount s > 0 \<and> slip_public_key s = w_public_key w
      then rbind (wallet_add_slip block_id tx_index s True w) (\<lambda>w'.
             wallet_wind_outputs block_id tx_index sig gs (w', True))
      else wallet_wind_outputs block_id tx_index sig gs (w, changed))"

text \<open>
  An NFT among the inputs is looked up only at the first position, by the key of the third slip.
\<close>

fun wallet_wind_inputs ::
  "transaction \<Rightarrow> bool \<Rightarrow> slip_group list \<Rightarrow> Wallet \<times> bool \<Rightarrow> (Wallet \<times> bool) res" where
  "wallet_wind_inputs tx first [] (w, changed) = Inr (w, changed)"
| "wallet_wind_inputs tx first (NFT_Group s1 s2 s3 # gs) (w, changed) =
     wallet_wind_inputs tx False gs
       (if first then w\<lparr>w_nfts := remove_nft (slip_utxoset_key s3) (w_nfts w)\<rparr> else w, changed)"
| "wallet_wind_inputs tx first (Single s # gs) (w, changed) =
     (if slip_public_key s = w_public_key w then
        (let (w1, changed1) =
               (if slip_amount s > 0 then (wallet_delete_slip s w, True) else (w, changed))
         in rbind (wallet_delete_pending_transaction tx w1) (\<lambda>(found, w2).
              wallet_wind_inputs tx False gs (w2, changed1 \<or> found)))
      else wallet_wind_inputs tx False gs (w, changed))"

fun wallet_unwind_outputs :: "slip_group list \<Rightarrow> Wallet \<times> bool \<Rightarrow> Wallet \<times> bool" where
  "wallet_unwind_outputs [] (w, changed) = (w, changed)"
| "wallet_unwind_outputs (NFT_Group s1 s2 s3 # gs) (w, changed) =
     wallet_unwind_outputs gs
       (w\<lparr>w_nfts := remove_nft (slip_utxoset_key s2) (w_nfts w)\<rparr>, changed)"
| "wallet_unwind_outputs (Single s # gs) (w, changed) =
     (if slip_amount s > 0 \<and> slip_public_key s = w_public_key w
      then wallet_unwind_outputs gs (wallet_delete_slip s w, True)
      else wallet_unwind_outputs gs (w, changed))"

text \<open>Re-adding the inputs of an unwound transaction is the loop that adds outputs.\<close>

definition wallet_unwind_inputs ::
  "u64 \<Rightarrow> u64 \<Rightarrow> bytes \<Rightarrow> slip_group list \<Rightarrow> Wallet \<times> bool \<Rightarrow> (Wallet \<times> bool) res" where
  "wallet_unwind_inputs = wallet_wind_outputs"

definition next_tx_index :: "transaction \<Rightarrow> u64 \<Rightarrow> u64" where
  "next_tx_index tx tx_index =
     (if tx_transaction_type tx = TT_SPV then tx_index + ucast (tx_txs_replacements tx)
      else tx_index + 1)"

fun wallet_wind_txs ::
  "u64 \<Rightarrow> u64 \<Rightarrow> u64 \<Rightarrow> transaction list \<Rightarrow> Wallet \<times> bool \<Rightarrow> (Wallet \<times> bool) res" where
  "wallet_wind_txs block_id genesis_period tx_index [] st = Inr st"
| "wallet_wind_txs block_id genesis_period tx_index (tx # txs) st =
     rbind (wallet_wind_outputs block_id tx_index (tx_signature tx) (slip_groups (tx_to tx)) st) (\<lambda>st1.
     rbind (wallet_wind_inputs tx True (slip_groups (tx_from tx)) st1) (\<lambda>(w2, changed).
     rbind (if block_id > genesis_period
            then wallet_remove_old_slips (block_id - genesis_period) w2 else Inr w2) (\<lambda>w3.
       wallet_wind_txs block_id genesis_period (next_tx_index tx tx_index) txs (w3, changed))))"

fun wallet_unwind_txs ::
  "u64 \<Rightarrow> u64 \<Rightarrow> transaction list \<Rightarrow> Wallet \<times> bool \<Rightarrow> (Wallet \<times> bool) res" where
  "wallet_unwind_txs block_id tx_index [] st = Inr st"
| "wallet_unwind_txs block_id tx_index (tx # txs) st =
     rbind (wallet_unwind_inputs block_id tx_index (tx_signature tx) (slip_groups (tx_from tx))
              (wallet_unwind_outputs (slip_groups (tx_to tx)) st)) (\<lambda>st'.
       wallet_unwind_txs block_id (next_tx_index tx tx_index) txs st')"

definition wallet_on_chain_reorganization ::
  "block \<Rightarrow> bool \<Rightarrow> u64 \<Rightarrow> Wallet \<Rightarrow> (Wallet \<times> bool) res" where
  "wallet_on_chain_reorganization b lc genesis_period w =
     (if lc then wallet_wind_txs (b_id b) genesis_period 0 (b_transactions b) (w, False)
      else wallet_unwind_txs (b_id b) 0 (b_transactions b) (w, False))"

definition wallet_delete_tx :: "transaction \<Rightarrow> Wallet \<times> bool \<Rightarrow> Wallet \<times> bool" where
  "wallet_delete_tx tx = (\<lambda>(w, changed).
     let (w1, changed1) =
           fold (\<lambda>input (w, changed).
             (wallet_delete_slip input w, changed \<or> slip_public_key input = w_public_key w))
             (tx_from tx) (w, changed)
     in (fold (\<lambda>output w. if slip_amount output > 0 then wallet_delete_slip output w else w)
           (tx_to tx) w1, changed1))"

definition wallet_delete_block :: "block \<Rightarrow> Wallet \<Rightarrow> Wallet \<times> bool" where
  "wallet_delete_block b w = fold wallet_delete_tx (b_transactions b) (w, False)"

text \<open>The slips of a balance snapshot replace the slips of the wallet.\<close>

fun snapshot_slips :: "slip list \<Rightarrow> Wallet \<Rightarrow> Wallet res" where
  "snapshot_slips [] w = Inr w"
| "snapshot_slips (s # ss) w =
     (let key = slip_utxoset_key s in
      if key = replicate UTXO_KEY_LENGTH 0 then Inl Panic
      else
        (let ws = \<lparr>ws_utxokey = key, ws_amount = slip_amount s, ws_block_id = slip_block_id s,
               ws_tx_ordinal = slip_tx_ordinal s, ws_lc = True, ws_slip_index = slip_slip_index s,
               ws_spent = False, ws_slip_type = slip_slip_type s\<rparr>;
             w1 = w\<lparr>w_slips := AList.update key ws (w_slips w)\<rparr>
         in snapshot_slips ss
              (if map_of (w_slips w) key = None
               then w1\<lparr>w_unspent_slips := set_add key (w_unspent_slips w1),
                       w_available_balance := w_available_balance w1 + slip_amount s\<rparr>
               else w1)))"

definition wallet_update_from_balance_snapshot :: "slip list \<Rightarrow> Wallet \<Rightarrow> Wallet res" where
  "wallet_update_from_balance_snapshot slips w =
     snapshot_slips slips (w\<lparr>w_unspent_slips := [], w_slips := [], w_available_balance := 0\<rparr>)"

definition wallet_set_key_list :: "bytes list \<Rightarrow> Wallet \<Rightarrow> Wallet" where
  "wallet_set_key_list key_list w = w\<lparr>w_key_list := key_list\<rparr>"

section \<open>Choosing slips\<close>

text \<open>Local variables of the loop over the unspent slips: inputs, \<^verbatim>\<open>nolan_in\<close>, \<^verbatim>\<open>keys_to_remove\<close>.\<close>

fun generate_slips_loop ::
  "u64 \<Rightarrow> u64 \<Rightarrow> bytes list \<Rightarrow> slip list \<times> u64 \<times> bytes list \<Rightarrow> Wallet \<Rightarrow>
   ((slip list \<times> u64 \<times> bytes list) \<times> Wallet) res" where
  "generate_slips_loop requested limit [] st w = Inr (st, w)"
| "generate_slips_loop requested limit (key # ks) (inputs, nolan_in, keys) w =
     rbind (ok_or Panic (map_of (w_slips w) key)) (\<lambda>ws.
       if ws_block_id ws \<le> limit then generate_slips_loop requested limit ks (inputs, nolan_in, keys) w
       else if nolan_in \<ge> requested then Inr ((inputs, nolan_in, keys), w)
       else
         (let input = slip_default\<lparr>slip_public_key := w_public_key w, slip_amount := ws_amount ws,
                slip_block_id := ws_block_id ws, slip_tx_ordinal := ws_tx_ordinal ws,
                slip_slip_index := ws_slip_index ws, slip_slip_type := ws_slip_type ws\<rparr>
          in generate_slips_loop requested limit ks
               (inputs @ [input], nolan_in + ws_amount ws, keys @ [ws_utxokey ws])
               (w\<lparr>w_slips := AList.update key (ws\<lparr>ws_spent := True\<rparr>) (w_slips w),
                  w_available_balance := w_available_balance w - ws_amount ws\<rparr>)))"

text \<open>\<^verbatim>\<open>latest_block_id.saturating_sub(genesis_period - 1)\<close>; the inner subtraction wraps.\<close>

definition oldest_spendable :: "u64 \<Rightarrow> u64 \<Rightarrow> u64" where
  "oldest_spendable latest_block_id genesis_period =
     (if latest_block_id \<ge> genesis_period - 1 then latest_block_id - (genesis_period - 1) else 0)"

definition wallet_generate_slips ::
  "u64 \<Rightarrow> u64 \<Rightarrow> u64 \<Rightarrow> Wallet \<Rightarrow> ((slip list \<times> slip list) \<times> Wallet) res" where
  "wallet_generate_slips nolan_requested latest_block_id genesis_period w =
     rbind (generate_slips_loop nolan_requested (oldest_spendable latest_block_id genesis_period)
              (w_unspent_slips w) ([], 0, []) w) (\<lambda>((inputs, nolan_in, keys), w1).
       let w2 = w1\<lparr>w_unspent_slips := filter (\<lambda>k. k \<notin> set keys) (w_unspent_slips w1)\<rparr>;
           nolan_out = (if nolan_in > nolan_requested then nolan_in - nolan_requested else 0);
           me = slip_default\<lparr>slip_public_key := w_public_key w\<rparr>;
           outputs = [me\<lparr>slip_amount := nolan_out\<rparr>]
       in Inr ((if inputs = [] then [me] else inputs, outputs), w2))"

text \<open>Collecting keys until the amount is reached: the selected slips, keys and amount.\<close>

fun staking_loop ::
  "Wallet \<Rightarrow> u64 \<Rightarrow> u64 \<Rightarrow> u64 \<Rightarrow> bytes list \<Rightarrow> slip list \<times> bytes list \<times> u64 \<Rightarrow>
   (slip list \<times> bytes list \<times> u64) res" where
  "staking_loop w unlocked oldest amount [] st = Inr st"
| "staking_loop w unlocked oldest amount (key # ks) (slips, keys, collected) =
     rbind (ok_or Panic (map_of (w_slips w) key)) (\<lambda>ws.
       if \<not> ws_is_staking_slip_unlocked unlocked ws \<or> ws_block_id ws < oldest
       then staking_loop w unlocked oldest amount ks (slips, keys, collected)
       else rbind (ws_to_slip ws) (\<lambda>s.
         let st' = (slips @ [s], keys @ [key], collected + ws_amount ws) in
         if collected + ws_amount ws \<ge> amount then Inr st'
         else staking_loop w unlocked oldest amount ks st'))"

fun unspent_loop ::
  "Wallet \<Rightarrow> u64 \<Rightarrow> bytes list \<Rightarrow> slip list \<times> bytes list \<times> u64 \<Rightarrow>
   (slip list \<times> bytes list \<times> u64) res" where
  "unspent_loop w amount [] st = Inr st"
| "unspent_loop w amount (key # ks) (slips, keys, collected) =
     rbind (ok_or Panic (map_of (w_slips w) key)) (\<lambda>ws.
     rbind (ws_to_slip ws) (\<lambda>s.
       let st' = (slips @ [s], keys @ [key], collected + ws_amount ws) in
       if collected + ws_amount ws \<ge> amount then Inr st' else unspent_loop w amount ks st'))"

text \<open>The unspent slips by decreasing amount, the amount read out of the key.\<close>

definition key_amount :: "bytes \<Rightarrow> nat" where
  "key_amount key = (case slip_parse_slip_from_utxokey key of Inr s \<Rightarrow> unat (slip_amount s) | Inl _ \<Rightarrow> 0)"

definition by_amount_desc :: "bytes list \<Rightarrow> bytes list" where
  "by_amount_desc ks = sort_key (\<lambda>k. 2 ^ 64 - key_amount k) ks"

definition staking_outputs :: "bytes \<Rightarrow> u64 \<Rightarrow> u64 \<Rightarrow> bool \<Rightarrow> slip list" where
  "staking_outputs me staking_amount collected should_break =
     (let out = (\<lambda>a ty. slip_default\<lparr>slip_amount := a, slip_slip_type := ty, slip_public_key := me\<rparr>);
          amount = collected - staking_amount;
          first = amount div (if should_break then 2 else 1)
      in [out staking_amount ST_BlockStake] @
         (if collected > staking_amount
          then [out first ST_Normal] @ (if amount - first > 0 then [out (amount - first) ST_Normal] else [])
          else []))"

definition wallet_find_slips_for_staking ::
  "u64 \<Rightarrow> u64 \<Rightarrow> u64 \<Rightarrow> Wallet \<Rightarrow> ((slip list \<times> slip list) \<times> Wallet) res" where
  "wallet_find_slips_for_staking staking_amount latest_unlocked last_valid w =
     rbind (staking_loop w latest_unlocked last_valid staking_amount (w_staking_slips w) ([], [], 0))
       (\<lambda>(slips1, keys1, collected1).
       rbind (if collected1 < staking_amount then
                (if list_ex (\<lambda>k. isl (slip_parse_slip_from_utxokey k)) (w_unspent_slips w) \<and>
                    length (w_unspent_slips w) > 1 then Inl Panic
                 else rbind (unspent_loop w (staking_amount - collected1)
                               (by_amount_desc (w_unspent_slips w)) ([], [], 0))
                   (\<lambda>(slips2, keys2, collected2).
                     if collected2 < staking_amount - collected1 then Inl NotFound
                     else Inr (slips1 @ slips2, collected1 + collected2,
                       length (w_unspent_slips w) = 1,
                       w\<lparr>w_unspent_slips := filter (\<lambda>k. k \<notin> set keys2) (w_unspent_slips w),
                          w_available_balance := w_available_balance w - collected2\<rparr>)))
              else Inr (slips1, collected1, False, w)) (\<lambda>(slips, collected, should_break, w1).
         Inr ((slips, staking_outputs (w_public_key w) staking_amount collected should_break),
              w1\<lparr>w_staking_slips := filter (\<lambda>k. k \<notin> set keys1) (w_staking_slips w1)\<rparr>)))"

section \<open>Transactions\<close>

definition add_slips :: "slip list \<Rightarrow> slip list \<Rightarrow> transaction \<Rightarrow> transaction" where
  "add_slips inputs outputs tx = fold tx_add_to_slip outputs (fold tx_add_from_slip inputs tx)"

definition wallet_create_staking_transaction ::
  "ext \<Rightarrow> u64 \<Rightarrow> u64 \<Rightarrow> u64 \<Rightarrow> Wallet \<Rightarrow> (transaction \<times> Wallet) res" where
  "wallet_create_staking_transaction X staking_amount latest_unlocked last_valid w =
     rbind (wallet_find_slips_for_staking staking_amount latest_unlocked last_valid w)
       (\<lambda>((inputs, outputs), w1).
         let tx = add_slips inputs outputs (tx_default\<lparr>tx_transaction_type := TT_BlockStake\<rparr>);
             tx1 = tx\<lparr>tx_hash_for_signature := Some (hash X (tx_serialize_for_signature tx))\<rparr>
         in rbind (tx_sign X (w_private_key w1) tx1) (\<lambda>tx2. Inr (tx2, w1)))"

definition create_golden_ticket_transaction ::
  "ext \<Rightarrow> golden_ticket \<Rightarrow> bytes \<Rightarrow> bytes \<Rightarrow> transaction res" where
  "create_golden_ticket_transaction X golden_ticket public_key private_key =
     (let s = slip_default\<lparr>slip_public_key := public_key, slip_amount := 0, slip_block_id := 0,
            slip_tx_ordinal := 0\<rparr>;
          tx = add_slips [s] [s] (tx_default\<lparr>tx_transaction_type := TT_GoldenTicket,
                 tx_data := gt_serialize_for_net golden_ticket\<rparr>);
          tx1 = tx\<lparr>tx_hash_for_signature := Some (hash X (tx_serialize_for_signature tx))\<rparr>
      in tx_sign X private_key tx1)"

text \<open>The \<^verbatim>\<open>nft_type\<close> label is its UTF-8 bytes, padded or cut to sixteen.\<close>

definition create_nft_uuid :: "slip \<Rightarrow> bytes \<Rightarrow> bytes" where
  "create_nft_uuid input_slip nft_type =
     to_be (slip_block_id input_slip) @ to_be (slip_tx_ordinal input_slip) @
     [slip_slip_index input_slip] @
     (if length nft_type < 16 then nft_type @ replicate (16 - length nft_type) 0
      else take 16 nft_type)"

definition wallet_create_bound_transaction ::
  "ext \<Rightarrow> u64 \<Rightarrow> u64 \<Rightarrow> u64 \<Rightarrow> u64 \<Rightarrow> u64 \<Rightarrow> bytes \<Rightarrow> u64 \<Rightarrow> u64 \<Rightarrow> bytes \<Rightarrow> Wallet \<Rightarrow>
   (transaction \<times> Wallet) res" where
  "wallet_create_bound_transaction X nft_input_amount nft_uuid_block_id nft_uuid_transaction_id
     nft_uuid_slip_id nft_create_deposit_amt recipient latest_block_id genesis_period nft_type w =
     (let input_slip = slip_default\<lparr>slip_public_key := w_public_key w, slip_amount := nft_input_amount,
            slip_block_id := nft_uuid_block_id, slip_slip_index := ucast nft_uuid_slip_id,
            slip_tx_ordinal := nft_uuid_transaction_id\<rparr>
      in if slip_get_utxoset_key input_slip \<notin> set (w_unspent_slips w) then Inl NotFound
         else
           (let output_slip1 = slip_default\<lparr>slip_public_key := w_public_key w, slip_amount := 1,
                  slip_slip_type := ST_Bound\<rparr>;
                output_slip2 = slip_default\<lparr>slip_public_key := recipient,
                  slip_amount := nft_create_deposit_amt\<rparr>;
                output_slip3 = slip_default\<lparr>slip_public_key := create_nft_uuid input_slip nft_type,
                  slip_amount := 0, slip_slip_type := ST_Bound\<rparr>
            in rbind (if nft_input_amount > nft_create_deposit_amt
                      then Inr ([], [slip_default\<lparr>slip_public_key := w_public_key w,
                             slip_amount := nft_input_amount - nft_create_deposit_amt,
                             slip_slip_type := ST_Normal\<rparr>], w)
                      else if nft_input_amount < nft_create_deposit_amt
                      then rbind (wallet_generate_slips (nft_create_deposit_amt - nft_input_amount)
                                    latest_block_id genesis_period w) (\<lambda>((ins, outs), w1).
                             case outs of [] \<Rightarrow> Inl Other | out # _ \<Rightarrow> Inr (ins, [out], w1))
                      else Inr ([], [], w)) (\<lambda>(additional, change, w1).
                 let tx = add_slips (input_slip # additional)
                            ([output_slip1, output_slip2, output_slip3] @ change)
                            (tx_default\<lparr>tx_transaction_type := TT_Bound\<rparr>);
                     tx1 = tx\<lparr>tx_hash_for_signature := Some (hash X (tx_serialize_for_signature tx))\<rparr>
                 in rbind (tx_sign X (w_private_key w1) tx1) (\<lambda>tx2. Inr (tx2, w1)))))"

definition wallet_create_send_bound_transaction ::
  "ext \<Rightarrow> bytes \<Rightarrow> bytes \<Rightarrow> Wallet \<Rightarrow> transaction res \<times> Wallet" where
  "wallet_create_send_bound_transaction X i recipient_public_key w =
     (case find (\<lambda>n. nft_id n = i) (w_nfts w) of
        None \<Rightarrow> (Inl NotFound, w)
      | Some old_nft \<Rightarrow>
          (let w1 = w\<lparr>w_nfts := remove_nft i (w_nfts w)\<rparr> in
           (rbind (slip_parse_slip_from_utxokey (nft_slip1 old_nft)) (\<lambda>s1.
            rbind (slip_parse_slip_from_utxokey (nft_slip2 old_nft)) (\<lambda>s2.
            rbind (slip_parse_slip_from_utxokey (nft_slip3 old_nft)) (\<lambda>s3.
              let tx = add_slips [s1, s2, s3]
                         [s1, s2\<lparr>slip_public_key := recipient_public_key\<rparr>, s3]
                         (tx_default\<lparr>tx_transaction_type := TT_Bound\<rparr>);
                  tx1 = tx\<lparr>tx_hash_for_signature := Some (hash X (tx_serialize_for_signature tx))\<rparr>
              in tx_sign X (w_private_key w1) tx1))), w1)))"

end
