(* ===== verification/Wallet_Rules.thy ===== *)
theory Wallet_Rules
  imports Wallet
begin

text \<open>
  The bookkeeping invariant of the wallet and what the operations guarantee: the balance is the
  sum of the unspent slips after any sequence of blocks wound, unwound or deleted, and the choice
  of slips for a payment or a stake is total, balanced and keeps the invariant. The interface
  \<open>slip_store\<close> captures what the handling of blocks relies on: a property of wallets that
  adding and deleting one slip keep.
\<close>

section \<open>The invariant\<close>

definition slip_total :: "(bytes \<times> WalletSlip) list \<Rightarrow> bytes list \<Rightarrow> u64" where
  "slip_total slips ks =
     sum_list (map (\<lambda>k. case map_of slips k of Some ws \<Rightarrow> ws_amount ws | None \<Rightarrow> 0) ks)"

definition ws_of_key :: "bytes \<Rightarrow> WalletSlip \<Rightarrow> bool" where
  "ws_of_key key ws \<longleftrightarrow> ws_utxokey ws = key \<and>
     (\<exists>s. slip_parse_slip_from_utxokey key = Inr s \<and> slip_utxoset_key s = key \<and>
        slip_amount s = ws_amount ws \<and> slip_slip_type s = ws_slip_type ws)"

definition wallet_ok :: "Wallet \<Rightarrow> bool" where
  "wallet_ok w \<longleftrightarrow>
     distinct (w_unspent_slips w) \<and> distinct (w_staking_slips w) \<and>
     set (w_unspent_slips w) \<inter> set (w_staking_slips w) = {} \<and>
     set (w_unspent_slips w) \<union> set (w_staking_slips w) \<subseteq> dom (map_of (w_slips w)) \<and>
     (\<forall>key ws. map_of (w_slips w) key = Some ws \<longrightarrow> ws_of_key key ws) \<and>
     w_available_balance w = slip_total (w_slips w) (w_unspent_slips w)"

lemma wallet_ok_new: "wallet_ok (wallet_new sk pk)"
  by (simp add: wallet_ok_def wallet_new_def slip_total_def)

lemma wallet_ok_frame [simp]:
  "wallet_ok (w\<lparr>w_nfts := n\<rparr>) = wallet_ok w"
  "wallet_ok (w\<lparr>w_pending_txs := p\<rparr>) = wallet_ok w"
  by (simp_all add: wallet_ok_def)

lemma slip_total_cong:
  "(\<And>k. k \<in> set ks \<Longrightarrow> map_of a k = map_of b k) \<Longrightarrow> slip_total a ks = slip_total b ks"
  unfolding slip_total_def by (intro arg_cong [where f = sum_list] map_cong) auto

lemma slip_total_update:
  "k \<notin> set ks \<Longrightarrow> slip_total (AList.update k ws slips) ks = slip_total slips ks"
  by (intro slip_total_cong) (auto simp: update_conv')

lemma slip_total_delete: "k \<notin> set ks \<Longrightarrow> slip_total (AList.delete k slips) ks = slip_total slips ks"
  by (intro slip_total_cong) (auto simp: delete_conv')

lemma slip_total_append_new:
  assumes "k \<notin> set ks"
  shows "slip_total (AList.update k ws slips) (ks @ [k]) = slip_total slips ks + ws_amount ws"
  using slip_total_update [OF assms, of ws slips] by (simp add: slip_total_def update_conv')

lemma slip_total_removeAll:
  assumes "distinct ks" and "k \<in> set ks" and "map_of slips k = Some ws"
  shows "slip_total slips (removeAll k ks) = slip_total slips ks - ws_amount ws"
  using assms by (induction ks) (auto simp: slip_total_def algebra_simps)

lemma wallet_ok_add_slip:
  assumes "wallet_ok w" and "slip_wf s" and "wallet_add_slip bid t s lc w = Inr w'"
  shows "wallet_ok w'"
proof (cases "map_of (w_slips w) (slip_get_utxoset_key s)")
  case (Some ws)
  then show ?thesis using assms by (simp add: wallet_add_slip_def)
next
  case None
  let ?k = "slip_get_utxoset_key s"
  have new: "?k \<notin> set (w_unspent_slips w)" "?k \<notin> set (w_staking_slips w)"
    using assms(1) None by (auto simp: wallet_ok_def)
  have key: "slip_parse_slip_from_utxokey ?k = Inr (slip_generate_utxoset_key s)"
    using assms(2) by (rule parse_get_utxoset_key)
  show ?thesis
    using assms(1,3) None new
    by (auto simp: wallet_add_slip_def Let_def wallet_ok_def ws_of_key_def update_conv' set_add_def
        slip_total_update slip_total_append_new key ws_new_def split: if_splits)
qed

lemma wallet_ok_delete_slip: "wallet_ok w \<Longrightarrow> wallet_ok (wallet_delete_slip s w)"
proof (cases "map_of (w_slips w) (slip_utxoset_key s)")
  case (Some ws)
  let ?k = "slip_utxoset_key s"
  assume ok: "wallet_ok w"
  then have "?k \<in> set (w_unspent_slips w) \<Longrightarrow> ?k \<notin> set (w_staking_slips w)"
    and b: "w_available_balance w = slip_total (w_slips w) (w_unspent_slips w)"
    and d: "distinct (w_unspent_slips w)"
    by (auto simp: wallet_ok_def)
  moreover have "slip_total (AList.delete ?k (w_slips w)) (removeAll ?k (w_unspent_slips w)) =
      slip_total (w_slips w) (w_unspent_slips w) - ws_amount ws" if "?k \<in> set (w_unspent_slips w)"
    using slip_total_removeAll [OF d that Some] by (simp add: slip_total_delete)
  ultimately show ?thesis
    using ok Some
    by (auto simp: wallet_delete_slip_def Let_def wallet_ok_def delete_conv' slip_total_delete
        distinct_removeAll)
qed (simp add: wallet_delete_slip_def)

section \<open>Handling blocks\<close>

definition txs_wf :: "transaction list \<Rightarrow> bool" where
  "txs_wf txs \<longleftrightarrow> (\<forall>tx\<in>set txs. list_all slip_wf (tx_from tx) \<and> list_all slip_wf (tx_to tx))"

fun group_slips :: "slip_group \<Rightarrow> slip list" where
  "group_slips (NFT_Group s1 s2 s3) = [s1, s2, s3]"
| "group_slips (Single s) = [s]"

lemma slip_groups_concat: "concat (map group_slips (slip_groups ss)) = ss"
proof (induction ss rule: slip_groups.induct)
  case (2 s ss)
  have "ss ! 0 # ss ! 1 # drop 2 ss = ss" if "tx_is_nft (s # ss) 0"
    using that by (cases ss; cases "tl ss") (auto simp: tx_is_nft_def)
  with 2 show ?case by simp
qed simp

text \<open>What happens to a wallet: blocks wound, unwound and deleted, in any order.\<close>

datatype wallet_event = Wind block | Unwind block | Delete block

fun wallet_step :: "u64 \<Rightarrow> wallet_event \<Rightarrow> Wallet \<Rightarrow> Wallet res" where
  "wallet_step gp (Wind b) w = rbind (wallet_on_chain_reorganization b True gp w) (\<lambda>(w', c). Inr w')"
| "wallet_step gp (Unwind b) w = rbind (wallet_on_chain_reorganization b False gp w) (\<lambda>(w', c). Inr w')"
| "wallet_step gp (Delete b) w = Inr (fst (wallet_delete_block b w))"

fun event_block :: "wallet_event \<Rightarrow> block" where
  "event_block (Wind b) = b"
| "event_block (Unwind b) = b"
| "event_block (Delete b) = b"

fun wallet_run :: "u64 \<Rightarrow> wallet_event list \<Rightarrow> Wallet \<Rightarrow> Wallet res" where
  "wallet_run gp [] w = Inr w"
| "wallet_run gp (e # es) w = rbind (wallet_step gp e w) (wallet_run gp es)"

locale slip_store =
  fixes I :: "Wallet \<Rightarrow> bool"
  assumes add_slip: "I w \<Longrightarrow> slip_wf s \<Longrightarrow> wallet_add_slip bid t s lc w = Inr w' \<Longrightarrow> I w'"
    and delete_slip: "I w \<Longrightarrow> I (wallet_delete_slip s w)"
    and nfts_frame: "I (w\<lparr>w_nfts := n\<rparr>) = I w"
    and pending_frame: "I (w\<lparr>w_pending_txs := p\<rparr>) = I w"
begin

lemma wind_outputs:
  "I w \<Longrightarrow> \<forall>g\<in>set gs. list_all slip_wf (group_slips g) \<Longrightarrow>
   wallet_wind_outputs bid t sig gs (w, c) = Inr (w', c') \<Longrightarrow> I w'"
proof (induction bid t sig gs "(w, c)" arbitrary: w c rule: wallet_wind_outputs.induct)
  case (3 bid t sig s gs w c)
  then show ?case by (auto split: if_splits intro: add_slip)
qed (auto simp: nfts_frame)

lemma wind_inputs:
  "I w \<Longrightarrow> wallet_wind_inputs tx first gs (w, c) = Inr (w', c') \<Longrightarrow> I w'"
proof (induction gs arbitrary: first w c)
  case (Cons g gs)
  show ?case
  proof (cases g)
    case (NFT_Group s1 s2 s3)
    let ?w = "if first then w\<lparr>w_nfts := remove_nft (slip_utxoset_key s3) (w_nfts w)\<rparr> else w"
    have "I ?w" using Cons.prems(1) by (simp add: nfts_frame)
    then show ?thesis using Cons.prems(2) Cons.IH [of ?w False c] NFT_Group by simp
  next
    case (Single s)
    let ?st = "if slip_amount s > 0 then (wallet_delete_slip s w, True) else (w, c)"
    have "I (fst ?st)" using Cons.prems(1) by (simp add: delete_slip)
    then have "I w2" if "wallet_delete_pending_transaction tx (fst ?st) = Inr (f, w2)" for f w2
      using that by (auto simp: wallet_delete_pending_transaction_def pending_frame)
    then show ?thesis
      using Cons Single by (auto simp: Let_def case_prod_beta split: if_splits)
  qed
qed simp

lemma unwind_outputs:
  "I w \<Longrightarrow> wallet_unwind_outputs gs (w, c) = (w', c') \<Longrightarrow> I w'"
  by (induction gs "(w, c)" arbitrary: w c rule: wallet_unwind_outputs.induct)
    (auto simp: nfts_frame delete_slip split: if_splits)

lemma delete_old_keys: "I w \<Longrightarrow> delete_old_keys ks w = Inr w' \<Longrightarrow> I w'"
  by (induction ks arbitrary: w) (auto, metis delete_slip)

lemma remove_old_slips: "I w \<Longrightarrow> wallet_remove_old_slips bid w = Inr w' \<Longrightarrow> I w'"
  unfolding wallet_remove_old_slips_def by (rule delete_old_keys)

lemma groups_wf: "list_all slip_wf ss \<Longrightarrow> \<forall>g\<in>set (slip_groups ss). list_all slip_wf (group_slips g)"
proof -
  assume "list_all slip_wf ss"
  then have "list_all slip_wf (concat (map group_slips (slip_groups ss)))"
    by (simp only: slip_groups_concat)
  then show ?thesis by (auto simp: list_all_iff)
qed

lemma wind_txs:
  "I w \<Longrightarrow> txs_wf txs \<Longrightarrow> wallet_wind_txs bid gp t txs (w, c) = Inr (w', c') \<Longrightarrow> I w'"
proof (induction txs arbitrary: t w c)
  case (Cons tx txs)
  from Cons.prems(2) have wf: "list_all slip_wf (tx_to tx)" "txs_wf txs" by (auto simp: txs_wf_def)
  from Cons.prems(3) obtain w1 c1 w2 c2 w3 where
    1: "wallet_wind_outputs bid t (tx_signature tx) (slip_groups (tx_to tx)) (w, c) = Inr (w1, c1)" and
    2: "wallet_wind_inputs tx True (slip_groups (tx_from tx)) (w1, c1) = Inr (w2, c2)" and
    3: "(if bid > gp then wallet_remove_old_slips (bid - gp) w2 else Inr w2) = Inr w3" and
    4: "wallet_wind_txs bid gp (next_tx_index tx t) txs (w3, c2) = Inr (w', c')"
    by auto
  have "I w1" using wind_outputs [OF Cons.prems(1) groups_wf [OF wf(1)] 1] .
  then have "I w2" using wind_inputs 2 by blast
  then have "I w3" using 3 remove_old_slips by (auto split: if_splits)
  then show ?case using Cons.IH wf(2) 4 by blast
qed simp

lemma unwind_txs:
  "I w \<Longrightarrow> txs_wf txs \<Longrightarrow> wallet_unwind_txs bid t txs (w, c) = Inr (w', c') \<Longrightarrow> I w'"
proof (induction txs arbitrary: t w c)
  case (Cons tx txs)
  from Cons.prems(2) have wf: "list_all slip_wf (tx_from tx)" "txs_wf txs" by (auto simp: txs_wf_def)
  obtain w1 c1 where 1: "wallet_unwind_outputs (slip_groups (tx_to tx)) (w, c) = (w1, c1)" by force
  from Cons.prems(3) 1 obtain w2 c2 where
    2: "wallet_wind_outputs bid t (tx_signature tx) (slip_groups (tx_from tx)) (w1, c1) = Inr (w2, c2)" and
    3: "wallet_unwind_txs bid (next_tx_index tx t) txs (w2, c2) = Inr (w', c')"
    by (auto simp: wallet_unwind_inputs_def)
  have "I w1" using unwind_outputs [OF Cons.prems(1) 1] .
  then have "I w2" using wind_outputs [OF _ groups_wf [OF wf(1)] 2] by blast
  then show ?case using Cons.IH wf(2) 3 by blast
qed simp

lemma reorganization:
  "I w \<Longrightarrow> txs_wf (b_transactions b) \<Longrightarrow>
   wallet_on_chain_reorganization b lc gp w = Inr (w', c) \<Longrightarrow> I w'"
  by (auto simp: wallet_on_chain_reorganization_def intro: wind_txs unwind_txs split: if_splits)

lemma delete_block: "I w \<Longrightarrow> I (fst (wallet_delete_block b w))"
proof -
  have ins: "I w \<Longrightarrow> I (fst (fold (\<lambda>s (w, c). (wallet_delete_slip s w, c \<or> slip_public_key s = w_public_key w))
      ss (w, c)))" for ss w c
    by (induction ss arbitrary: w c) (auto simp: delete_slip)
  have outs: "I w \<Longrightarrow> I (fold (\<lambda>s w. if slip_amount s > 0 then wallet_delete_slip s w else w) ss w)" for ss w
    by (induction ss arbitrary: w) (auto simp: delete_slip)
  have tx: "I (fst st) \<Longrightarrow> I (fst (wallet_delete_tx tx st))" for tx st
    using ins [of "fst st" "tx_from tx" "snd st"] outs
    by (auto simp: wallet_delete_tx_def Let_def split: prod.splits)
  have "I (fst st) \<Longrightarrow> I (fst (fold wallet_delete_tx txs st))" for txs st
    by (induction txs arbitrary: st) (auto simp: tx)
  then show "I w \<Longrightarrow> ?thesis" by (simp add: wallet_delete_block_def)
qed

lemma step: "I w \<Longrightarrow> txs_wf (b_transactions (event_block e)) \<Longrightarrow> wallet_step gp e w = Inr w' \<Longrightarrow> I w'"
  by (cases e) (auto intro: reorganization delete_block)

lemma run:
  "I w \<Longrightarrow> list_all (\<lambda>e. txs_wf (b_transactions (event_block e))) es \<Longrightarrow>
   wallet_run gp es w = Inr w' \<Longrightarrow> I w'"
proof (induction es arbitrary: w)
  case (Cons e es)
  then show ?case using step [of w e gp] by auto
qed simp

end

interpretation balance: slip_store wallet_ok
  by unfold_locales (auto intro: wallet_ok_add_slip wallet_ok_delete_slip)

text \<open>Handling blocks never changes the keys of the wallet.\<close>

interpretation keys: slip_store "\<lambda>w. w_public_key w = pk \<and> w_private_key w = sk"
  for pk sk
  by unfold_locales
    (auto simp: wallet_add_slip_def wallet_delete_slip_def Let_def split: if_splits option.splits)

text \<open>
  C36. The balance of the wallet is the sum of its unspent slips, no slip is both unspent and
  staked, and every recorded slip is the one its key encodes: this holds for a new wallet and
  after any sequence of blocks wound onto the chain, unwound from it or deleted, and none of
  these changes the keys of the wallet.
\<close>

theorem wallet_balance_invariant:
  assumes "wallet_run gp es (wallet_new sk pk) = Inr w"
    and "list_all (\<lambda>e. txs_wf (b_transactions (event_block e))) es"
  shows "wallet_ok w \<and> w_available_balance w = slip_total (w_slips w) (w_unspent_slips w) \<and>
    w_public_key w = pk \<and> w_private_key w = sk"
proof -
  have "w_public_key (wallet_new sk pk) = pk \<and> w_private_key (wallet_new sk pk) = sk"
    by (simp add: wallet_new_def)
  from keys.run [OF this assms(2,1)] balance.run [OF wallet_ok_new assms(2,1)]
  show ?thesis by (simp add: wallet_ok_def)
qed

definition demo_income :: block where
  "demo_income = block_new\<lparr>b_id := 3, b_transactions :=
     [tx_default\<lparr>tx_to := [slip_default\<lparr>slip_public_key := replicate 33 7, slip_amount := 5\<rparr>]\<rparr>]\<rparr>"

theorem wallet_balance_invariant_witness:
  "\<exists>w. wallet_run 10 [Wind demo_income] (wallet_new (replicate 32 1) (replicate 33 7)) = Inr w \<and>
     w_available_balance w = 5 \<and> wallet_ok w"
proof -
  let ?es = "[Wind demo_income]"
  have wf: "list_all (\<lambda>e. txs_wf (b_transactions (event_block e))) ?es"
    by (simp add: demo_income_def txs_wf_def slip_wf_def slip_default_def tx_default_def)
  obtain w where w: "wallet_run 10 ?es (wallet_new (replicate 32 1) (replicate 33 7)) = Inr w"
    "w_available_balance w = 5"
    by (simp add: demo_income_def wallet_on_chain_reorganization_def tx_is_nft_def wallet_new_def
        tx_default_def wallet_add_slip_def Let_def slip_default_def)
  with wallet_balance_invariant [OF w(1) wf] show ?thesis by blast
qed

section \<open>Choosing slips\<close>

text \<open>Two slip tables that agree up to the flag \<^verbatim>\<open>spent\<close>.\<close>

definition unflagged :: "(bytes \<times> WalletSlip) list \<Rightarrow> bytes \<Rightarrow> WalletSlip option" where
  "unflagged slips k = map_option (ws_spent_update (\<lambda>_. False)) (map_of slips k)"

lemma unflagged_update:
  "map_of slips k = Some ws \<Longrightarrow>
   unflagged (AList.update k (ws\<lparr>ws_spent := b\<rparr>) slips) = unflagged slips"
  by (auto simp: unflagged_def update_conv' fun_eq_iff)

lemma unflagged_SomeD:
  assumes "unflagged a = unflagged b" and "map_of b k = Some ws"
  shows "\<exists>ws'. map_of a k = Some ws' \<and> ws_amount ws' = ws_amount ws \<and>
    ws_utxokey ws' = ws_utxokey ws \<and> ws_block_id ws' = ws_block_id ws \<and>
    ws_slip_type ws' = ws_slip_type ws"
proof -
  have "unflagged a k = Some (ws\<lparr>ws_spent := False\<rparr>)" using assms by (simp add: unflagged_def)
  then obtain ws' where "map_of a k = Some ws'" "ws'\<lparr>ws_spent := False\<rparr> = ws\<lparr>ws_spent := False\<rparr>"
    by (auto simp: unflagged_def)
  then show ?thesis by (cases ws; cases ws') auto
qed

lemma unflagged_dom: "unflagged a = unflagged b \<Longrightarrow> dom (map_of a) = dom (map_of b)"
  by (auto simp: unflagged_def fun_eq_iff dom_def) (metis map_option_is_None option.distinct(1) not_None_eq)+

lemma unflagged_total: "unflagged a = unflagged b \<Longrightarrow> slip_total a ks = slip_total b ks"
  unfolding slip_total_def
proof (intro arg_cong [where f = sum_list] map_cong refl)
  fix k assume e: "unflagged a = unflagged b"
  show "(case map_of a k of None \<Rightarrow> 0 | Some ws \<Rightarrow> ws_amount ws) =
        (case map_of b k of None \<Rightarrow> 0 | Some ws \<Rightarrow> ws_amount ws)"
    using unflagged_SomeD [OF e, of k] fun_cong [OF e, of k]
    by (cases "map_of b k") (auto simp: unflagged_def split: option.split)
qed

lemma unflagged_ok:
  assumes "wallet_ok w" and "unflagged slips = unflagged (w_slips w)"
  shows "wallet_ok (w\<lparr>w_slips := slips\<rparr>)"
proof -
  have "ws_of_key k ws" if m: "map_of slips k = Some ws" for k ws
  proof -
    obtain ws' where "map_of (w_slips w) k = Some ws'" "ws_amount ws' = ws_amount ws"
      "ws_utxokey ws' = ws_utxokey ws" "ws_slip_type ws' = ws_slip_type ws"
      using unflagged_SomeD [OF assms(2) [symmetric] m] by blast
    then show ?thesis using assms(1) by (fastforce simp: wallet_ok_def ws_of_key_def)
  qed
  then show ?thesis
    using assms unflagged_dom [OF assms(2)] unflagged_total [OF assms(2)] by (simp add: wallet_ok_def)
qed

text \<open>Removing a sublist of the unspent slips takes their total off the balance.\<close>

lemma slip_total_filter:
  "distinct ks \<Longrightarrow> distinct sel \<Longrightarrow> set sel \<subseteq> set ks \<Longrightarrow>
   slip_total slips (filter (\<lambda>k. k \<notin> set sel) ks) + slip_total slips sel = slip_total slips ks"
proof (induction sel arbitrary: ks)
  case (Cons k sel)
  have "slip_total slips (removeAll k ks) + slip_total slips [k] = slip_total slips ks"
    if "distinct ks" "k \<in> set ks" for ks
    using that by (induction ks) (auto simp: slip_total_def algebra_simps)
  moreover have "filter (\<lambda>x. x \<notin> set (k # sel)) ks = filter (\<lambda>x. x \<notin> set sel) (removeAll k ks)"
    by (induction ks) auto
  moreover have "slip_total slips (filter (\<lambda>x. x \<notin> set sel) (removeAll k ks)) + slip_total slips sel =
      slip_total slips (removeAll k ks)"
    using Cons by (intro Cons.IH) (auto simp: distinct_removeAll)
  ultimately show ?case using Cons.prems by (force simp: slip_total_def algebra_simps)
qed (simp add: slip_total_def)

lemma wallet_ok_remove_unspent:
  assumes "wallet_ok w" and "distinct sel" and "set sel \<subseteq> set (w_unspent_slips w)"
  shows "wallet_ok (w\<lparr>w_unspent_slips := filter (\<lambda>k. k \<notin> set sel) (w_unspent_slips w),
    w_available_balance := w_available_balance w - slip_total (w_slips w) sel\<rparr>)"
  using assms slip_total_filter [OF _ assms(2,3), of "w_slips w"]
  by (auto simp: wallet_ok_def diff_eq_eq)

lemma wallet_ok_remove_staking:
  "wallet_ok w \<Longrightarrow> wallet_ok (w\<lparr>w_staking_slips := filter P (w_staking_slips w)\<rparr>)"
  by (auto simp: wallet_ok_def)

text \<open>The outcome of the loop over \<open>ks\<close> from \<open>n0\<close> nolan on: keys \<open>sel\<close> are spent as \<open>ins\<close>.\<close>

definition selects ::
  "Wallet \<Rightarrow> u64 \<Rightarrow> u64 \<Rightarrow> bytes list \<Rightarrow> u64 \<Rightarrow> slip list \<Rightarrow> bytes list \<Rightarrow> Wallet \<Rightarrow> bool" where
  "selects w req oldest ks n0 ins sel w' \<longleftrightarrow>
     distinct sel \<and> set sel \<subseteq> set ks \<and>
     sum_list (map slip_amount ins) = slip_total (w_slips w) sel \<and>
     (\<exists>slips. w' = w\<lparr>w_slips := slips,
        w_available_balance := w_available_balance w - sum_list (map slip_amount ins)\<rparr> \<and>
      unflagged slips = unflagged (w_slips w)) \<and>
     (req \<le> n0 + sum_list (map slip_amount ins) \<or>
      (\<forall>k\<in>set ks - set sel. \<exists>ws. map_of (w_slips w) k = Some ws \<and> ws_block_id ws \<le> oldest))"

lemma selects_none:
  "req \<le> n0 \<or> ks = [] \<Longrightarrow> selects w req oldest ks n0 [] [] w"
  by (auto simp: selects_def slip_total_def intro!: exI [of _ "w_slips w"])

lemma selects_skip:
  assumes "selects w req oldest ks n0 ins sel w'" and "map_of (w_slips w) k = Some ws"
    and "ws_block_id ws \<le> oldest"
  shows "selects w req oldest (k # ks) n0 ins sel w'"
  using assms unfolding selects_def by fastforce

lemma selects_spend:
  assumes "selects (w\<lparr>w_slips := AList.update k (ws\<lparr>ws_spent := True\<rparr>) (w_slips w),
      w_available_balance := w_available_balance w - ws_amount ws\<rparr>) req oldest ks (n0 + ws_amount ws)
      ins sel w'"
    and "map_of (w_slips w) k = Some ws" and "k \<notin> set ks" and "slip_amount i = ws_amount ws"
  shows "selects w req oldest (k # ks) n0 (i # ins) (k # sel) w'"
proof -
  let ?slips = "AList.update k (ws\<lparr>ws_spent := True\<rparr>) (w_slips w)"
  have u: "unflagged ?slips = unflagged (w_slips w)" using unflagged_update [OF assms(2)] .
  have "\<exists>ws. map_of (w_slips w) j = Some ws \<and> ws_block_id ws \<le> oldest"
    if "\<exists>ws. map_of ?slips j = Some ws \<and> ws_block_id ws \<le> oldest" for j
    using that unflagged_SomeD [OF u [symmetric]] by metis
  moreover have "slip_total (w_slips w) (k # sel) = ws_amount ws + slip_total ?slips sel"
    using assms(2) unflagged_total [OF u, of sel] by (simp add: slip_total_def)
  ultimately show ?thesis
    using assms(1,3,4) u unfolding selects_def
    by (auto simp: add.assoc diff_diff_eq)
qed

lemma generate_slips_loop_Inr:
  assumes "distinct ks" and "set ks \<subseteq> dom (map_of (w_slips w))"
    and "\<forall>k ws. map_of (w_slips w) k = Some ws \<longrightarrow> ws_utxokey ws = k"
  shows "\<exists>ins sel w'. generate_slips_loop req oldest ks (ins0, n0, keys0) w =
      Inr ((ins0 @ ins, n0 + sum_list (map slip_amount ins), keys0 @ sel), w') \<and>
    selects w req oldest ks n0 ins sel w'"
  using assms
proof (induction ks arbitrary: ins0 n0 keys0 w)
  case Nil
  then show ?case using selects_none [of req n0 "[]" w oldest] by (auto intro!: exI [of _ "[]"])
next
  case (Cons k ks)
  from Cons.prems obtain ws where k: "map_of (w_slips w) k = Some ws" "ws_utxokey ws = k" by auto
  consider (old) "ws_block_id ws \<le> oldest" | (enough) "\<not> ws_block_id ws \<le> oldest" "req \<le> n0"
    | (more) "\<not> ws_block_id ws \<le> oldest" "\<not> req \<le> n0" by blast
  then show ?case
  proof cases
    case old
    obtain ins sel w' where "generate_slips_loop req oldest ks (ins0, n0, keys0) w =
        Inr ((ins0 @ ins, n0 + sum_list (map slip_amount ins), keys0 @ sel), w')"
      and s: "selects w req oldest ks n0 ins sel w'"
      using Cons.IH [of w ins0 n0 keys0] Cons.prems by auto
    with k old show ?thesis using selects_skip [OF s k(1) old] by auto
  next
    case enough
    with k show ?thesis
      using selects_none [of req n0 "k # ks" w oldest]
      by (auto intro!: exI [of _ "[] :: slip list"] exI [of _ "[] :: bytes list"])
  next
    case more
    let ?in = "slip_default\<lparr>slip_public_key := w_public_key w, slip_amount := ws_amount ws,
      slip_block_id := ws_block_id ws, slip_tx_ordinal := ws_tx_ordinal ws,
      slip_slip_index := ws_slip_index ws, slip_slip_type := ws_slip_type ws\<rparr>"
    let ?slips = "AList.update k (ws\<lparr>ws_spent := True\<rparr>) (w_slips w)"
    let ?w = "w\<lparr>w_slips := ?slips, w_available_balance := w_available_balance w - ws_amount ws\<rparr>"
    have "set ks \<subseteq> dom (map_of ?slips)" "\<forall>k ws. map_of ?slips k = Some ws \<longrightarrow> ws_utxokey ws = k"
      using Cons.prems(2,3) k by (auto simp: update_conv')
    then obtain ins sel w' where IH:
      "generate_slips_loop req oldest ks (ins0 @ [?in], n0 + ws_amount ws, keys0 @ [k]) ?w =
        Inr (((ins0 @ [?in]) @ ins, n0 + ws_amount ws + sum_list (map slip_amount ins),
              (keys0 @ [k]) @ sel), w')"
      and s: "selects ?w req oldest ks (n0 + ws_amount ws) ins sel w'"
      using Cons.IH [of ?w "ins0 @ [?in]" "n0 + ws_amount ws" "keys0 @ [k]"] Cons.prems(1) by auto
    have "selects w req oldest (k # ks) n0 (?in # ins) (k # sel) w'"
      using selects_spend [OF s k(1)] Cons.prems(1) by simp
    then show ?thesis
      using more k IH by (intro exI [of _ "?in # ins"] exI [of _ "k # sel"] exI [of _ w']) (simp add: add.assoc)
  qed
qed

text \<open>
  C37. Choosing slips for a payment always succeeds on a well-formed wallet, keeps the invariant
  and is balanced: the inputs are taken off the balance, the change is what they exceed the
  request by, staked slips are untouched, and when the inputs do not reach the request every
  slip left is too close to being rebroadcast.
\<close>

theorem generate_slips_balanced:
  assumes "wallet_ok w"
  shows "\<exists>ins outs w'. wallet_generate_slips req latest gp w = Inr ((ins, outs), w') \<and> wallet_ok w' \<and>
    w_available_balance w' + sum_list (map slip_amount ins) = w_available_balance w \<and>
    sum_list (map slip_amount outs) =
      (if sum_list (map slip_amount ins) > req then sum_list (map slip_amount ins) - req else 0) \<and>
    set (w_unspent_slips w') \<subseteq> set (w_unspent_slips w) \<and>
    w_staking_slips w' = w_staking_slips w \<and>
    (req \<le> sum_list (map slip_amount ins) \<or>
     (\<forall>k\<in>set (w_unspent_slips w'). \<exists>ws. map_of (w_slips w) k = Some ws \<and>
        ws_block_id ws \<le> oldest_spendable latest gp))"
proof -
  let ?old = "oldest_spendable latest gp"
  have ok: "distinct (w_unspent_slips w)" "set (w_unspent_slips w) \<subseteq> dom (map_of (w_slips w))"
    "\<forall>k ws. map_of (w_slips w) k = Some ws \<longrightarrow> ws_utxokey ws = k"
    using assms by (auto simp: wallet_ok_def ws_of_key_def)
  obtain ins sel w1 where
    loop: "generate_slips_loop req ?old (w_unspent_slips w) ([], 0, []) w =
      Inr ((ins, sum_list (map slip_amount ins), sel), w1)" and
    sel: "selects w req ?old (w_unspent_slips w) 0 ins sel w1"
    using generate_slips_loop_Inr [OF ok, of req ?old "[]" 0 "[]"] by auto
  from sel obtain slips where
    w1: "w1 = w\<lparr>w_slips := slips,
        w_available_balance := w_available_balance w - sum_list (map slip_amount ins)\<rparr>"
    and u: "unflagged slips = unflagged (w_slips w)"
    and d: "distinct sel" "set sel \<subseteq> set (w_unspent_slips w)"
    and t: "sum_list (map slip_amount ins) = slip_total (w_slips w) sel"
    and m: "req \<le> sum_list (map slip_amount ins) \<or> (\<forall>k\<in>set (w_unspent_slips w) - set sel.
        \<exists>ws. map_of (w_slips w) k = Some ws \<and> ws_block_id ws \<le> ?old)"
    by (auto simp: selects_def)
  let ?w2 = "w1\<lparr>w_unspent_slips := filter (\<lambda>k. k \<notin> set sel) (w_unspent_slips w1)\<rparr>"
  have "wallet_ok (w\<lparr>w_slips := slips\<rparr>)" using unflagged_ok [OF assms u] .
  from wallet_ok_remove_unspent [OF this d(1)] d(2) have "wallet_ok ?w2"
    by (simp add: w1 t unflagged_total [OF u] wallet_ok_def)
  with loop m t show ?thesis
    by (cases "ins = []") (auto simp: wallet_generate_slips_def Let_def w1 slip_default_def)
qed

lemma demo_income_ok:
  "\<exists>w. wallet_run 10 [Wind demo_income] (wallet_new (replicate 32 1) (replicate 33 7)) = Inr w \<and>
     w_available_balance w = 5 \<and> wallet_ok w"
proof -
  have "list_all (\<lambda>e. txs_wf (b_transactions (event_block e))) [Wind demo_income]"
    by (simp add: demo_income_def txs_wf_def slip_wf_def slip_default_def tx_default_def)
  from balance.run [OF wallet_ok_new this, of 10 "replicate 32 1" "replicate 33 7"]
  show ?thesis
    by (simp add: demo_income_def wallet_on_chain_reorganization_def tx_is_nft_def wallet_new_def
        tx_default_def wallet_add_slip_def Let_def slip_default_def)
qed

theorem generate_slips_balanced_witness:
  "\<exists>w ins outs w'. wallet_run 10 [Wind demo_income] (wallet_new (replicate 32 1) (replicate 33 7)) = Inr w \<and>
     wallet_generate_slips 3 4 10 w = Inr ((ins, outs), w') \<and> wallet_ok w' \<and>
     w_available_balance w' + sum_list (map slip_amount ins) = 5"
proof -
  obtain w where w: "wallet_run 10 [Wind demo_income] (wallet_new (replicate 32 1) (replicate 33 7)) = Inr w"
    "w_available_balance w = 5" "wallet_ok w" using demo_income_ok by blast
  with generate_slips_balanced [OF w(3), of 3 4 10] show ?thesis by auto
qed

section \<open>Staking\<close>

lemma wallet_ok_slip:
  assumes "wallet_ok w" and "k \<in> dom (map_of (w_slips w))"
  obtains ws s where "map_of (w_slips w) k = Some ws" "ws_to_slip ws = Inr s"
    "slip_amount s = ws_amount ws" "slip_utxoset_key s = k"
  using assms by (fastforce simp: wallet_ok_def ws_of_key_def ws_to_slip_def)

text \<open>The two loops collect slips of a sublist of the keys and add up their amounts.\<close>

definition collects ::
  "Wallet \<Rightarrow> bytes list \<Rightarrow> slip list \<times> bytes list \<times> u64 \<Rightarrow> slip list \<times> bytes list \<times> u64 \<Rightarrow> bool" where
  "collects w ks = (\<lambda>(sl0, keys0, n0) (sl, keys, n). \<exists>ins sel.
     sl = sl0 @ ins \<and> keys = keys0 @ sel \<and> n = n0 + slip_total (w_slips w) sel \<and>
     distinct sel \<and> set sel \<subseteq> set ks \<and> sum_list (map slip_amount ins) = slip_total (w_slips w) sel)"

lemma collects_refl: "collects w ks st st"
  by (cases st) (auto simp: collects_def slip_total_def)

lemma collects_Cons: "collects w ks st st' \<Longrightarrow> collects w (k # ks) st st'"
  by (cases st; cases st') (fastforce simp: collects_def)

lemma collects_step:
  assumes "collects w ks (sl @ [s], keys @ [k], n + ws_amount ws) st'" and "k \<notin> set ks"
    and "map_of (w_slips w) k = Some ws" and "slip_amount s = ws_amount ws"
  shows "collects w (k # ks) (sl, keys, n) st'"
proof (cases st')
  case (fields sl' keys' n')
  with assms(1) obtain ins sel where "sl' = sl @ s # ins" "keys' = keys @ k # sel"
    "n' = n + ws_amount ws + slip_total (w_slips w) sel" "distinct sel" "set sel \<subseteq> set ks"
    "sum_list (map slip_amount ins) = slip_total (w_slips w) sel"
    by (auto simp: collects_def)
  with assms fields show ?thesis
    unfolding collects_def
    by (auto intro!: exI [of _ "s # ins"] exI [of _ "k # sel"] simp: slip_total_def add.assoc)
qed

lemma staking_loop_Inr:
  assumes "wallet_ok w" and "distinct ks" and "set ks \<subseteq> dom (map_of (w_slips w))"
  shows "\<exists>st'. staking_loop w u old amt ks st = Inr st' \<and> collects w ks st st'"
  using assms(2,3)
proof (induction ks arbitrary: st)
  case (Cons k ks)
  obtain sl keys n where st: "st = (sl, keys, n)" by (cases st)
  obtain ws s where k: "map_of (w_slips w) k = Some ws" "ws_to_slip ws = Inr s" "slip_amount s = ws_amount ws"
    by (rule wallet_ok_slip [OF assms(1), of k]) (use Cons.prems(2) in auto)
  let ?st = "(sl @ [s], keys @ [k], n + ws_amount ws)"
  have IH: "\<exists>st'. staking_loop w u old amt ks st = Inr st' \<and> collects w ks st st'" for st
    using Cons by simp
  have step: "collects w ks ?st st' \<Longrightarrow> collects w (k # ks) st st'" for st'
    unfolding st using collects_step Cons.prems(1) k by auto
  show ?case
    using IH [of st] IH [of ?st] step collects_Cons [of w ks st] step [OF collects_refl] k
    by (auto simp: st Let_def)
qed (simp add: collects_refl)

lemma unspent_loop_Inr:
  assumes "wallet_ok w" and "distinct ks" and "set ks \<subseteq> dom (map_of (w_slips w))"
  shows "\<exists>st'. unspent_loop w amt ks st = Inr st' \<and> collects w ks st st'"
  using assms(2,3)
proof (induction ks arbitrary: st)
  case (Cons k ks)
  obtain sl keys n where st: "st = (sl, keys, n)" by (cases st)
  obtain ws s where k: "map_of (w_slips w) k = Some ws" "ws_to_slip ws = Inr s" "slip_amount s = ws_amount ws"
    by (rule wallet_ok_slip [OF assms(1), of k]) (use Cons.prems(2) in auto)
  let ?st = "(sl @ [s], keys @ [k], n + ws_amount ws)"
  have IH: "\<exists>st'. unspent_loop w amt ks st = Inr st' \<and> collects w ks st st'" for st
    using Cons by simp
  have step: "collects w ks ?st st' \<Longrightarrow> collects w (k # ks) st st'" for st'
    unfolding st using collects_step Cons.prems(1) k by auto
  show ?case using IH [of ?st] step step [OF collects_refl] k by (auto simp: st Let_def)
qed (simp add: collects_refl)

lemma staking_outputs_total:
  "amt \<le> n \<Longrightarrow> sum_list (map slip_amount (staking_outputs me amt n br)) = n"
  by (auto simp: staking_outputs_def Let_def word_gt_0 algebra_simps)

text \<open>The amounts as natural numbers, for the absence of overflow.\<close>

definition nat_total :: "(bytes \<times> WalletSlip) list \<Rightarrow> bytes list \<Rightarrow> nat" where
  "nat_total slips ks =
     sum_list (map (\<lambda>k. case map_of slips k of Some ws \<Rightarrow> unat (ws_amount ws) | None \<Rightarrow> 0) ks)"

lemma nat_total_append: "nat_total slips (xs @ ys) = nat_total slips xs + nat_total slips ys"
  by (simp add: nat_total_def)

lemma unat_slip_total: "unat (slip_total slips ks) \<le> nat_total slips ks"
proof (induction ks)
  case (Cons k ks)
  let ?a = "case map_of slips k of None \<Rightarrow> 0 | Some ws \<Rightarrow> ws_amount ws"
  have "unat (slip_total slips (k # ks)) \<le> unat ?a + unat (slip_total slips ks)"
    by (simp add: slip_total_def unat_word_ariths)
  moreover have "nat_total slips (k # ks) = unat ?a + nat_total slips ks"
    by (simp add: nat_total_def split: option.split)
  ultimately show ?case using Cons.IH by simp
qed (simp add: slip_total_def nat_total_def)

lemma nat_total_mono:
  assumes "distinct xs" and "distinct ys" and "set xs \<subseteq> set ys"
  shows "nat_total slips xs \<le> nat_total slips ys"
  using assms by (simp add: nat_total_def sum_list_distinct_conv_sum_set sum_mono2)

text \<open>
  Finding slips for a stake never panics on a well-formed wallet: it finds nothing, or it
  returns inputs and outputs of the same total, of which the first output is the requested stake
  for the wallet's own key, and keeps the invariant (amounts in a wallet add up to less than
  \<open>2 ^ 64\<close>, the token supply being smaller).
\<close>

theorem staking_slips_balanced:
  assumes "wallet_ok w"
    and "nat_total (w_slips w) (w_staking_slips w @ w_unspent_slips w) < 2 ^ 64"
  shows "wallet_find_slips_for_staking amt unlocked oldest w = Inl NotFound \<or>
    (\<exists>ins outs w'. wallet_find_slips_for_staking amt unlocked oldest w = Inr ((ins, outs), w') \<and>
      wallet_ok w' \<and> sum_list (map slip_amount ins) = sum_list (map slip_amount outs) \<and>
      slip_slip_type (hd outs) = ST_BlockStake \<and> slip_amount (hd outs) = amt \<and>
      (\<forall>s\<in>set outs. slip_public_key s = w_public_key w))"
proof -
  let ?sl = "w_slips w" and ?un = "w_unspent_slips w" and ?st = "w_staking_slips w"
  have ok: "distinct ?st" "set ?st \<subseteq> dom (map_of ?sl)" "distinct ?un" "set ?un \<subseteq> dom (map_of ?sl)"
    using assms(1) by (auto simp: wallet_ok_def)
  obtain ins1 sel1 where 1: "staking_loop w unlocked oldest amt ?st ([], [], 0) =
      Inr (ins1, sel1, slip_total ?sl sel1)" "distinct sel1" "set sel1 \<subseteq> set ?st"
      "sum_list (map slip_amount ins1) = slip_total ?sl sel1"
    using staking_loop_Inr [OF assms(1) ok(1,2), of unlocked oldest amt "([], [], 0)"]
    by (auto simp: collects_def)
  let ?n1 = "slip_total ?sl sel1"
  have out: "slip_slip_type (hd (staking_outputs me amt n br)) = ST_BlockStake"
    "slip_amount (hd (staking_outputs me amt n br)) = amt"
    "\<forall>s\<in>set (staking_outputs me amt n br). slip_public_key s = me" for me n br
    by (auto simp: staking_outputs_def Let_def)
  show ?thesis
  proof (cases "?n1 < amt")
    case False
    then show ?thesis
      using 1 out wallet_ok_remove_staking [OF assms(1)] staking_outputs_total [of amt ?n1]
      by (simp add: wallet_find_slips_for_staking_def)
  next
    case True
    have "\<not> list_ex (\<lambda>k. isl (slip_parse_slip_from_utxokey k)) ?un"
      using assms(1) ok(4) by (fastforce simp: wallet_ok_def ws_of_key_def list_ex_iff isl_def)
    moreover obtain ins2 sel2 where 2: "unspent_loop w (amt - ?n1) (by_amount_desc ?un) ([], [], 0) =
      Inr (ins2, sel2, slip_total ?sl sel2)" "distinct sel2" "set sel2 \<subseteq> set ?un"
      "sum_list (map slip_amount ins2) = slip_total ?sl sel2"
      using unspent_loop_Inr [OF assms(1), of "by_amount_desc ?un" "amt - ?n1" "([], [], 0)"] ok(3,4)
      by (auto simp: collects_def by_amount_desc_def)
    moreover have "amt \<le> ?n1 + slip_total ?sl sel2" if "\<not> slip_total ?sl sel2 < amt - ?n1"
    proof -
      have "unat ?n1 + unat (slip_total ?sl sel2) \<le> nat_total ?sl sel1 + nat_total ?sl sel2"
        using unat_slip_total by (intro add_mono)
      also have "\<dots> \<le> nat_total ?sl (?st @ ?un)"
        unfolding nat_total_append using nat_total_mono 1(2,3) 2(2,3) ok(1,3) by (intro add_mono) auto
      finally have "unat ?n1 + unat (slip_total ?sl sel2) < 2 ^ 64" using assms(2) by simp
      then have "unat (?n1 + slip_total ?sl sel2) = unat ?n1 + unat (slip_total ?sl sel2)"
        by (simp add: unat_add_lem [where 'a = 64, simplified])
      with that True show ?thesis
        by (simp add: word_le_nat_alt word_less_nat_alt unat_sub)
    qed
    ultimately show ?thesis
      using 1 True out wallet_ok_remove_staking [OF wallet_ok_remove_unspent [OF assms(1) 2(2,3)]]
        staking_outputs_total [of amt "?n1 + slip_total ?sl sel2"]
      by (simp add: wallet_find_slips_for_staking_def)
  qed
qed

theorem staking_slips_balanced_witness:
  "wallet_find_slips_for_staking 10 0 0 (wallet_new [] []) = Inl NotFound \<and>
   (\<exists>ins outs w'. wallet_find_slips_for_staking 0 0 0 (wallet_new [] []) = Inr ((ins, outs), w') \<and>
      slip_slip_type (hd outs) = ST_BlockStake)"
proof -
  have "nat_total (w_slips (wallet_new [] []))
      (w_staking_slips (wallet_new [] []) @ w_unspent_slips (wallet_new [] [])) < 2 ^ 64"
    by (simp add: wallet_new_def nat_total_def)
  note t = staking_slips_balanced [OF wallet_ok_new this]
  have "wallet_find_slips_for_staking 10 0 0 (wallet_new [] []) = Inl NotFound"
    "wallet_find_slips_for_staking 0 0 0 (wallet_new [] []) \<noteq> Inl NotFound"
    by (simp_all add: wallet_find_slips_for_staking_def wallet_new_def by_amount_desc_def)
  with t [of 0 0 0] show ?thesis by blast
qed

lemma snapshot_keeps_staking: "snapshot_slips ss w = Inr w' \<Longrightarrow> w_staking_slips w' = w_staking_slips w"
  by (induction ss arbitrary: w) (auto simp: Let_def split: if_splits)

lemma snapshot_slips_dom:
  "snapshot_slips ss w = Inr w' \<Longrightarrow> k \<notin> slip_utxoset_key ` set ss \<Longrightarrow>
   map_of (w_slips w') k = map_of (w_slips w) k"
  by (induction ss arbitrary: w) (auto simp: Let_def update_conv' split: if_splits)

text \<open>
  Applying a balance snapshot clears the slips but not the set of staked slips: a staked slip
  that is not part of the snapshot makes the next search for a stake panic.
\<close>

theorem snapshot_breaks_staking:
  assumes "wallet_update_from_balance_snapshot ss w = Inr w'"
    and "w_staking_slips w = k # ks" and "k \<notin> slip_utxoset_key ` set ss"
  shows "wallet_find_slips_for_staking amt unlocked oldest w' = Inl Panic"
  using assms snapshot_keeps_staking [of ss] snapshot_slips_dom [of ss _ w' k]
  by (auto simp: wallet_update_from_balance_snapshot_def wallet_find_slips_for_staking_def)

theorem snapshot_breaks_staking_witness:
  "\<exists>w'. wallet_update_from_balance_snapshot []
       ((wallet_new [] [])\<lparr>w_staking_slips := [replicate 59 1]\<rparr>) = Inr w' \<and>
     wallet_find_slips_for_staking 10 0 0 w' = Inl Panic"
proof -
  let ?w = "(wallet_new [] [])\<lparr>w_staking_slips := [replicate 59 1]\<rparr>"
  obtain w' where "wallet_update_from_balance_snapshot [] ?w = Inr w'"
    by (simp add: wallet_update_from_balance_snapshot_def)
  with snapshot_breaks_staking [OF this, of "replicate 59 1" "[]" 10 0 0] show ?thesis by simp
qed

end
