(* ===== verification/Block_Codec.thy ===== *)
theory Block_Codec
  imports Block
begin

text \<open>
  The wire format of blocks: a decoded encoding is the block again, up to the values the
  receiver recomputes, and decoding never panics, because the length of every transaction is
  checked before it is read.
\<close>

section \<open>Decoding a transaction of announced length\<close>

lemma slip_deserialize_no_panic: "slip_deserialize_from_net bs \<noteq> Inl Panic"
  by (cases "slip_type_from_u8 (bs ! 58)") (auto simp: slip_deserialize_from_net_def)

lemma hop_deserialize_no_panic: "hop_deserialize_from_net bs \<noteq> Inl Panic"
  by (simp add: hop_deserialize_from_net_def)

definition tx_announced_size :: "bytes \<Rightarrow> nat" where
  "tx_announced_size bs =
     TRANSACTION_SIZE + unat (u32_at bs 0) * SLIP_SIZE + unat (u32_at bs 4) * SLIP_SIZE +
     unat (u32_at bs 8) + unat (u32_at bs 12) * HOP_SIZE"

lemma rbind_no_panic:
  "m \<noteq> Inl Panic \<Longrightarrow> (\<And>x. m = Inr x \<Longrightarrow> f x \<noteq> Inl Panic) \<Longrightarrow> rbind m f \<noteq> Inl Panic"
  by (cases m) auto

lemma if_no_panic:
  "(c \<Longrightarrow> x \<noteq> Inl Panic) \<Longrightarrow> (\<not> c \<Longrightarrow> y \<noteq> Inl Panic) \<Longrightarrow> (if c then x else y) \<noteq> Inl Panic"
  by auto

lemma ok_or_no_panic: "e \<noteq> Panic \<Longrightarrow> ok_or e m \<noteq> Inl Panic"
  by (cases m) auto

lemma tx_deserialize_no_panic:
  assumes "tx_announced_size bs \<le> length bs"
  shows "tx_deserialize_from_net bs \<noteq> Inl Panic"
proof -
  have slips: "decode_seq slip_deserialize_from_net SLIP_SIZE base n bs \<noteq> Inl Panic"
    if "base + SLIP_SIZE * n \<le> length bs" for base n
    using slip_codec.decode_seq_no_panic [OF slip_deserialize_no_panic that] .
  have hops: "decode_seq hop_deserialize_from_net HOP_SIZE base n bs \<noteq> Inl Panic"
    if "base + HOP_SIZE * n \<le> length bs" for base n
    using hop_codec.decode_seq_no_panic [OF hop_deserialize_no_panic that] .
  have need: "TRANSACTION_SIZE + unat (from_be (subslice 0 4 bs) :: u32) * SLIP_SIZE +
      unat (from_be (subslice 4 8 bs) :: u32) * SLIP_SIZE + unat (from_be (subslice 8 12 bs) :: u32) +
      unat (from_be (subslice 12 16 bs) :: u32) * HOP_SIZE \<le> length bs"
    using assms by (simp add: tx_announced_size_def u32_at_def)
  show ?thesis
    unfolding tx_deserialize_from_net_def Let_def
    by (intro if_no_panic rbind_no_panic ok_or_no_panic slips hops)
      (use need in \<open>auto simp: slice_r_def mult.commute [of _ SLIP_SIZE] mult.commute [of _ HOP_SIZE]\<close>)
qed

section \<open>The transactions of a block\<close>

lemma subslice_drop: "subslice a b bs = subslice 0 (b - a) (drop a bs)"
  by (simp add: subslice_def)

lemma u32_at_drop: "u32_at bs (k + j) = u32_at (drop k bs) j"
  by (simp add: u32_at_def subslice_def add.commute [of k j] drop_drop)

lemma u32_at_take: "k + 4 \<le> n \<Longrightarrow> u32_at (take n bs) k = u32_at bs k"
  by (simp add: u32_at_def subslice_def drop_take min_def)

lemma tx_announced_take: "16 \<le> n \<Longrightarrow> tx_announced_size (take n bs) = tx_announced_size bs"
  by (simp add: tx_announced_size_def u32_at_take)

lemma unat_sum_u32: "unat (a :: u32) + unat b < 2 ^ 32 \<Longrightarrow> unat (a + b) = unat a + unat b"
  by (simp add: unat_word_ariths)

text \<open>One step of the loop, in terms of the rest of the buffer.\<close>

lemma block_read_step:
  "block_read_transactions bs k (Suc n) =
     (let r = drop k bs in
      if length bs < k + 16 \<or> unat (u32_at r 0) + unat (u32_at r 4) \<ge> 2 ^ 32 \<or>
         length bs < k + tx_announced_size r
      then Inl InvalidData
      else rbind (tx_deserialize_from_net (take (tx_announced_size r) r)) (\<lambda>tx.
           rbind (block_read_transactions bs (k + tx_announced_size r) n) (\<lambda>txs. Inr (tx # txs))))"
proof -
  have at: "u32_at bs k = u32_at (drop k bs) 0" "u32_at bs (k + 4) = u32_at (drop k bs) 4"
    "u32_at bs (k + 8) = u32_at (drop k bs) 8" "u32_at bs (k + 12) = u32_at (drop k bs) 12"
    using u32_at_drop [of bs k] by (metis add.right_neutral)+
  show ?thesis
  proof (cases "unat (u32_at (drop k bs) 0) + unat (u32_at (drop k bs) 4) < 2 ^ 32")
    case True
    then show ?thesis
      using unat_sum_u32 [OF True]
      by (simp add: at Let_def subslice_drop [of k] tx_announced_size_def subslice_def
          algebra_simps del: drop_drop)
  next
    case False
    then show ?thesis by (simp add: at Let_def)
  qed
qed

declare block_read_transactions.simps(2) [simp del]

lemma block_read_no_panic: "block_read_transactions bs k n \<noteq> Inl Panic"
proof (induction n arbitrary: k)
  case (Suc n)
  let ?r = "drop k bs"
  have "tx_deserialize_from_net (take (tx_announced_size ?r) ?r) \<noteq> Inl Panic"
    if "\<not> length bs < k + tx_announced_size ?r"
  proof -
    have "16 \<le> tx_announced_size ?r" by (simp add: tx_announced_size_def TRANSACTION_SIZE_def)
    then show ?thesis
      using that by (intro tx_deserialize_no_panic) (simp add: tx_announced_take)
  qed
  then show ?case
    using Suc.IH unfolding block_read_step Let_def
    by (intro if_no_panic rbind_no_panic) simp_all
qed simp

lemma block_decode_no_panic: "block_deserialize_from_net bs \<noteq> Inl Panic"
  unfolding block_deserialize_from_net_def Let_def
  by (intro if_no_panic rbind_no_panic block_read_no_panic) simp_all

text \<open>
  Reading a block from the network never panics, whatever the bytes: the result is a block
  or an error value.
\<close>

theorem block_deserialize_no_panic: "block_deserialize_from_net bs \<noteq> Inl Panic"
  by (rule block_decode_no_panic)

section \<open>Round trip\<close>

lemma tx_announced_encode:
  assumes "tx_wf tx" and "tx_fits tx"
  shows "tx_announced_size (tx_serialize_for_net tx @ r) = tx_get_serialized_size tx"
    and "unat (u32_at (tx_serialize_for_net tx @ r) 0) + unat (u32_at (tx_serialize_for_net tx @ r) 4) < 2 ^ 32"
  using tx_header_fields [OF assms(1)] assms(2)
  by (simp_all add: tx_announced_size_def u32_at_def tx_serialize_layout tx_fits_def unat_of_nat_u32
      tx_get_serialized_size_def)

lemma block_read_encode:
  "list_all tx_wf txs \<Longrightarrow> list_all tx_fits txs \<Longrightarrow>
   block_read_transactions (pre @ concat (map tx_serialize_for_net txs) @ post) (length pre)
     (length txs) = Inr (map tx_wire txs)"
proof (induction txs arbitrary: pre)
  case (Cons tx txs)
  let ?e = "tx_serialize_for_net tx" and ?r = "concat (map tx_serialize_for_net txs) @ post"
  have wf: "tx_wf tx" "tx_fits tx" using Cons.prems by simp_all
  note len = length_tx_serialize [OF wf] and size = tx_announced_encode [OF wf, of ?r]
  have "16 \<le> length ?e" by (simp add: len tx_get_serialized_size_def TRANSACTION_SIZE_def)
  moreover have "block_read_transactions ((pre @ ?e) @ ?r) (length (pre @ ?e)) (length txs)
      = Inr (map tx_wire txs)"
    using Cons.prems by (intro Cons.IH) simp_all
  moreover have "tx_deserialize_from_net ?e = Inr (tx_wire tx)"
    using tx_decode_encode [OF wf, of "[]"] by simp
  ultimately show ?case
    using size by (simp add: block_read_step len Let_def)
qed simp

text \<open>Reading a part of a concatenation.\<close>

lemma subslice_append:
  "subslice a b (xs @ ys) = subslice a b xs @ subslice (a - length xs) (b - length xs) ys"
  by (cases "a \<le> length xs") (auto simp: subslice_def)

lemma subslice_trivial:
  "length xs \<le> a \<Longrightarrow> subslice a b xs = []"
  "length xs \<le> b \<Longrightarrow> subslice 0 b xs = xs"
  "subslice a 0 xs = []"
  by (simp_all add: subslice_def)

lemmas subslice_simps = subslice_append subslice_trivial

definition block_header_bytes :: "u32 \<Rightarrow> block \<Rightarrow> bytes" where
  "block_header_bytes n b =
     to_be n @ to_be (b_id b) @ to_be (b_timestamp b) @ b_previous_block_hash b @ b_creator b @
     b_merkle_root b @ b_signature b @
     to_be (b_graveyard b) @ to_be (b_treasury b) @ to_be (b_burnfee b) @
     to_be (b_difficulty b) @ to_be (b_avg_total_fees b) @ to_be (b_avg_fee_per_byte b) @
     to_be (b_avg_nolan_rebroadcast_per_block b) @ to_be (b_previous_block_unpaid b) @
     to_be (b_avg_total_fees b) @ to_be (b_avg_total_fees_new b) @
     to_be (b_avg_total_fees_atr b) @ to_be (b_avg_payout_routing b) @
     to_be (b_avg_payout_mining b) @ to_be (b_avg_payout_treasury b) @
     to_be (b_avg_payout_graveyard b) @ to_be (b_avg_payout_atr b) @
     to_be (b_total_payout_routing b) @ to_be (b_total_payout_mining b) @
     to_be (b_total_payout_treasury b) @ to_be (b_total_payout_graveyard b) @
     to_be (b_total_payout_atr b) @ to_be (b_total_fees b) @ to_be (b_total_fees_new b) @
     to_be (b_total_fees_atr b) @ to_be (b_fee_per_byte b) @ to_be (b_total_fees_cumulative b)"

definition block_wf :: "block \<Rightarrow> bool" where [wf_defs]:
  "block_wf b \<longleftrightarrow> length (b_previous_block_hash b) = 32 \<and> length (b_creator b) = 33 \<and>
     length (b_merkle_root b) = 32 \<and> length (b_signature b) = 64 \<and>
     list_all tx_wf (b_transactions b)"

lemma length_block_header [codec_simps]:
  "block_wf b \<Longrightarrow> length (block_header_bytes n b) = BLOCK_HEADER_SIZE"
  by (simp add: block_header_bytes_def block_wf_def BLOCK_HEADER_SIZE_def)

lemma block_header_fields:
  assumes "block_wf b"
  shows "u32_at (block_header_bytes n b @ r) 0 = n"
    and "u64_at (block_header_bytes n b @ r) 4 = b_id b"
    and "u64_at (block_header_bytes n b @ r) 12 = b_timestamp b"
    and "subslice 20 52 (block_header_bytes n b @ r) = b_previous_block_hash b"
    and "subslice 52 85 (block_header_bytes n b @ r) = b_creator b"
    and "subslice 85 117 (block_header_bytes n b @ r) = b_merkle_root b"
    and "subslice 117 181 (block_header_bytes n b @ r) = b_signature b"
    and "u64_at (block_header_bytes n b @ r) 181 = b_graveyard b"
    and "u64_at (block_header_bytes n b @ r) 189 = b_treasury b"
    and "u64_at (block_header_bytes n b @ r) 197 = b_burnfee b"
    and "u64_at (block_header_bytes n b @ r) 205 = b_difficulty b"
    and "u64_at (block_header_bytes n b @ r) 245 = b_avg_total_fees b"
    and "u64_at (block_header_bytes n b @ r) 221 = b_avg_fee_per_byte b"
    and "u64_at (block_header_bytes n b @ r) 229 = b_avg_nolan_rebroadcast_per_block b"
    and "u64_at (block_header_bytes n b @ r) 237 = b_previous_block_unpaid b"
    and "u64_at (block_header_bytes n b @ r) 253 = b_avg_total_fees_new b"
    and "u64_at (block_header_bytes n b @ r) 261 = b_avg_total_fees_atr b"
    and "u64_at (block_header_bytes n b @ r) 269 = b_avg_payout_routing b"
    and "u64_at (block_header_bytes n b @ r) 277 = b_avg_payout_mining b"
    and "u64_at (block_header_bytes n b @ r) 285 = b_avg_payout_treasury b"
    and "u64_at (block_header_bytes n b @ r) 293 = b_avg_payout_graveyard b"
    and "u64_at (block_header_bytes n b @ r) 301 = b_avg_payout_atr b"
    and "u64_at (block_header_bytes n b @ r) 309 = b_total_payout_routing b"
    and "u64_at (block_header_bytes n b @ r) 317 = b_total_payout_mining b"
    and "u64_at (block_header_bytes n b @ r) 325 = b_total_payout_treasury b"
    and "u64_at (block_header_bytes n b @ r) 333 = b_total_payout_graveyard b"
    and "u64_at (block_header_bytes n b @ r) 341 = b_total_payout_atr b"
    and "u64_at (block_header_bytes n b @ r) 349 = b_total_fees b"
    and "u64_at (block_header_bytes n b @ r) 357 = b_total_fees_new b"
    and "u64_at (block_header_bytes n b @ r) 365 = b_total_fees_atr b"
    and "u64_at (block_header_bytes n b @ r) 373 = b_fee_per_byte b"
    and "u64_at (block_header_bytes n b @ r) 381 = b_total_fees_cumulative b"
  using assms
  by (simp_all add: block_header_bytes_def block_wf_def u64_at_def u32_at_def subslice_simps)

text \<open>What a receiver gets: the header, the transactions that travel, and the defaults.\<close>

definition block_wire :: "transaction list \<Rightarrow> block \<Rightarrow> block" where
  "block_wire txs b = block_new\<lparr>
     b_id := b_id b, b_timestamp := b_timestamp b,
     b_previous_block_hash := b_previous_block_hash b, b_creator := b_creator b,
     b_merkle_root := b_merkle_root b, b_signature := b_signature b,
     b_graveyard := b_graveyard b, b_treasury := b_treasury b, b_burnfee := b_burnfee b,
     b_difficulty := b_difficulty b, b_avg_total_fees := b_avg_total_fees b,
     b_avg_fee_per_byte := b_avg_fee_per_byte b,
     b_avg_nolan_rebroadcast_per_block := b_avg_nolan_rebroadcast_per_block b,
     b_previous_block_unpaid := b_previous_block_unpaid b,
     b_avg_total_fees_new := b_avg_total_fees_new b,
     b_avg_total_fees_atr := b_avg_total_fees_atr b,
     b_avg_payout_routing := b_avg_payout_routing b,
     b_avg_payout_mining := b_avg_payout_mining b,
     b_avg_payout_treasury := b_avg_payout_treasury b,
     b_avg_payout_graveyard := b_avg_payout_graveyard b, b_avg_payout_atr := b_avg_payout_atr b,
     b_total_payout_routing := b_total_payout_routing b,
     b_total_payout_mining := b_total_payout_mining b,
     b_total_payout_treasury := b_total_payout_treasury b,
     b_total_payout_graveyard := b_total_payout_graveyard b,
     b_total_payout_atr := b_total_payout_atr b, b_total_fees := b_total_fees b,
     b_total_fees_new := b_total_fees_new b, b_total_fees_atr := b_total_fees_atr b,
     b_fee_per_byte := b_fee_per_byte b, b_total_fees_cumulative := b_total_fees_cumulative b,
     b_transactions := map tx_wire txs,
     b_block_type := (if txs = [] \<and> \<not> (b_id b = 1 \<and> b_previous_block_hash b = replicate 32 0)
       then BT_Header else BT_Full)\<rparr>"

lemma block_serialize_layout:
  "block_serialize_for_net ty b =
     (let txs = (if ty = BT_Header then [] else b_transactions b) in
      block_header_bytes (of_nat (length txs)) b @ concat (map tx_serialize_for_net txs))"
  by (simp add: block_serialize_for_net_def block_header_bytes_def Let_def)

lemma block_decode_encode:
  assumes "block_wf b" and "list_all tx_wf txs" and "list_all tx_fits txs" and "length txs < 2 ^ 32"
  shows "block_deserialize_from_net
      (block_header_bytes (of_nat (length txs)) b @ concat (map tx_serialize_for_net txs))
    = Inr (block_wire txs b)"
proof -
  let ?h = "block_header_bytes (of_nat (length txs)) b" and ?t = "concat (map tx_serialize_for_net txs)"
  have len: "length ?h = BLOCK_HEADER_SIZE" using assms(1) by (simp add: codec_simps)
  have txs: "block_read_transactions (?h @ ?t) BLOCK_HEADER_SIZE (length txs) = Inr (map tx_wire txs)"
    using block_read_encode [OF assms(2,3), of ?h "[]"] len by simp
  have n: "unat (of_nat (length txs) :: u32) = length txs" "(of_nat (length txs) :: u32) = 0 \<longleftrightarrow> txs = []"
    using assms(4) unat_of_nat_u32 [of "length txs"] by (auto simp flip: unat_eq_zero)
  show ?thesis
    using txs len
    by (simp add: block_deserialize_from_net_def block_header_fields [OF assms(1)] n Let_def
        block_wire_def block_new_def)
qed

text \<open>
  C31. A block that is serialized for the network or the disk is read back: in full with its
  header and the wire fields of its transactions, as a header without transactions when it was
  serialized as one. The hashes, totals and flags the receiver recomputes are at their
  defaults.
\<close>

theorem block_wire_roundtrip:
  assumes "block_wf b" and "list_all tx_fits (b_transactions b)"
    and "length (b_transactions b) < 2 ^ 32"
  shows "block_deserialize_from_net (block_serialize_for_net BT_Full b) =
      Inr (block_wire (b_transactions b) b) \<and>
    block_deserialize_from_net (block_serialize_for_net BT_Header b) = Inr (block_wire [] b)"
  using block_decode_encode [OF assms(1) _ assms(2,3)] block_decode_encode [OF assms(1), of "[]"]
    assms(1)
  by (simp add: block_serialize_layout Let_def block_wf_def)

theorem block_wire_roundtrip_witness:
  "block_wf (block_add_transaction tx_default block_new) \<and>
   block_deserialize_from_net
     (block_serialize_for_net BT_Full (block_add_transaction tx_default block_new)) =
   Inr (block_wire [tx_default] (block_add_transaction tx_default block_new))"
proof -
  let ?b = "block_add_transaction tx_default block_new"
  have "block_wf ?b" "b_transactions ?b = [tx_default]" "tx_fits tx_default"
    by (simp_all add: block_wf_def block_add_transaction_def block_new_def tx_wf_def tx_fits_def
        tx_default_def)
  then show ?thesis using block_wire_roundtrip [of ?b] by simp
qed

end
