(* ===== verification/Saito_Text.thy ===== *)
theory Saito_Text
  imports Saito_Crypto
begin

text \<open>
  Text as the Rust code handles it: a \<^verbatim>\<open>String\<close> is the list of its UTF-8 bytes, as
  characters. The functions of the standard library that the file formats use
  (\<^verbatim>\<open>from_utf8\<close>, \<^verbatim>\<open>split\<close>, \<^verbatim>\<open>split_whitespace\<close>, \<^verbatim>\<open>trim_end_matches\<close>,
  \<^verbatim>\<open>parse\<close>, \<^verbatim>\<open>to_string\<close>), the hexadecimal and base-58 conversions of
  \<^verbatim>\<open>defs.rs\<close>, and their round trips.
\<close>

section \<open>UTF-8\<close>

definition is_cont :: "u8 \<Rightarrow> bool" where
  "is_cont b \<longleftrightarrow> 0x80 \<le> b \<and> b \<le> 0xBF"

text \<open>The length of the first encoded character, 0 when it is malformed.\<close>

definition utf8_char_len :: "bytes \<Rightarrow> nat" where
  "utf8_char_len bs =
     (case bs of
        [] \<Rightarrow> 0
      | b # r \<Rightarrow>
          if b < 0x80 then 1
          else if 0xC2 \<le> b \<and> b \<le> 0xDF then (case r of c # _ \<Rightarrow> if is_cont c then 2 else 0 | _ \<Rightarrow> 0)
          else if 0xE0 \<le> b \<and> b \<le> 0xEF then
            (case r of
               c # d # _ \<Rightarrow>
                 if is_cont c \<and> is_cont d \<and> (b = 0xE0 \<longrightarrow> 0xA0 \<le> c) \<and> (b = 0xED \<longrightarrow> c \<le> 0x9F)
                 then 3 else 0
             | _ \<Rightarrow> 0)
          else if 0xF0 \<le> b \<and> b \<le> 0xF4 then
            (case r of
               c # d # e # _ \<Rightarrow>
                 if is_cont c \<and> is_cont d \<and> is_cont e \<and> (b = 0xF0 \<longrightarrow> 0x90 \<le> c) \<and>
                    (b = 0xF4 \<longrightarrow> c \<le> 0x8F)
                 then 4 else 0
             | _ \<Rightarrow> 0)
          else 0)"

function utf8_ok :: "bytes \<Rightarrow> bool" where
  "utf8_ok bs =
     (if bs = [] then True
      else if utf8_char_len bs = 0 then False else utf8_ok (drop (utf8_char_len bs) bs))"
  by auto
termination
  by (relation "measure length") auto

declare utf8_ok.simps [simp del]

definition from_utf8 :: "bytes \<Rightarrow> string res" where
  "from_utf8 bs = (if utf8_ok bs then Inr (map (\<lambda>b. char_of (unat b)) bs) else Inl InvalidData)"

definition as_bytes :: "string \<Rightarrow> bytes" where
  "as_bytes s = map (\<lambda>c. of_nat (of_char c)) s"

lemma byte_of_char: "unat (of_nat (of_char c) :: u8) = of_char c"
  using nat_of_char_less_256 [of c] by (simp add: unat_of_nat)

lemma chars_of_as_bytes [simp]: "map (\<lambda>b. char_of (unat b)) (as_bytes s) = s"
  by (simp add: as_bytes_def o_def byte_of_char)

lemma as_bytes_append [simp]: "as_bytes (s @ t) = as_bytes s @ as_bytes t"
  by (simp add: as_bytes_def)

section \<open>Splitting and trimming\<close>

fun split_on :: "char \<Rightarrow> string \<Rightarrow> string list" where
  "split_on c [] = [[]]"
| "split_on c (x # xs) =
     (if x = c then [] # split_on c xs
      else (case split_on c xs of l # ls \<Rightarrow> (x # l) # ls | [] \<Rightarrow> [[x]]))"

definition trim_end_cr :: "string \<Rightarrow> string" where
  "trim_end_cr s = rev (dropWhile (\<lambda>c. c = CHR 0x0D) (rev s))"

text \<open>
  The number of bytes of the white-space character the text starts with, 0 if it starts with
  another one: the ASCII ones and the other characters with the Unicode property.
\<close>

definition whitespace_len :: "bytes \<Rightarrow> nat" where
  "whitespace_len bs =
     (case bs of
        [] \<Rightarrow> 0
      | b # r \<Rightarrow>
          if 9 \<le> b \<and> b \<le> 13 \<or> b = 32 then 1
          else if b = 0xC2 then (case r of c # _ \<Rightarrow> if c = 0x85 \<or> c = 0xA0 then 2 else 0 | _ \<Rightarrow> 0)
          else
            (case r of
               c # d # _ \<Rightarrow>
                 if b = 0xE1 \<and> c = 0x9A \<and> d = 0x80 \<or>
                    b = 0xE2 \<and> c = 0x80 \<and> (0x80 \<le> d \<and> d \<le> 0x8A \<or> d = 0xA8 \<or> d = 0xA9 \<or> d = 0xAF) \<or>
                    b = 0xE2 \<and> c = 0x81 \<and> d = 0x9F \<or>
                    b = 0xE3 \<and> c = 0x80 \<and> d = 0x80
                 then 3 else 0
             | _ \<Rightarrow> 0))"

text \<open>The word read so far and the rest of the text; empty words are dropped.\<close>

function split_words :: "string \<Rightarrow> string \<Rightarrow> string list" where
  "split_words w s =
     (if s = [] then (if w = [] then [] else [w])
      else if whitespace_len (as_bytes s) = 0 then split_words (w @ [hd s]) (tl s)
      else (if w = [] then [] else [w]) @ split_words [] (drop (whitespace_len (as_bytes s)) s))"
  by auto
termination
  by (relation "measure (\<lambda>(w, s). length s)") auto

declare split_words.simps [simp del]

definition split_whitespace :: "string \<Rightarrow> string list" where
  "split_whitespace s = split_words [] s"

section \<open>Numbers\<close>

text \<open>\<^verbatim>\<open>to_string()\<close> of an unsigned integer\<close>

fun nat_to_string :: "nat \<Rightarrow> string" where
  "nat_to_string n =
     (if n < 10 then [''0123456789'' ! n]
      else nat_to_string (n div 10) @ [''0123456789'' ! (n mod 10)])"

declare nat_to_string.simps [simp del]

text \<open>\<^verbatim>\<open>parse()\<close> of an unsigned integer below a limit: an optional plus sign and digits.\<close>

definition is_digit :: "char \<Rightarrow> bool" where
  "is_digit c \<longleftrightarrow> c \<in> set ''0123456789''"

definition digits_value :: "string \<Rightarrow> nat" where
  "digits_value s = foldl (\<lambda>n c. 10 * n + (of_char c - 48)) 0 s"

definition parse_uint :: "nat \<Rightarrow> string \<Rightarrow> nat option" where
  "parse_uint limit s =
     (let digits = (case s of c # r \<Rightarrow> if c = CHR ''+'' then r else s | [] \<Rightarrow> [])
      in if digits \<noteq> [] \<and> list_all is_digit digits \<and> digits_value digits < limit
         then Some (digits_value digits) else None)"

definition parse_word :: "string \<Rightarrow> ('a::len word) option" where
  "parse_word s = map_option of_nat (parse_uint (2 ^ LENGTH('a)) s)"

lemma digit_chars:
  "list_all (\<lambda>n. is_digit (''0123456789'' ! n) \<and> of_char (''0123456789'' ! n) - 48 = n) [0..<10]"
  by (simp add: upt_rec is_digit_def)

lemma digit_char:
  assumes "n < 10"
  shows "is_digit (''0123456789'' ! n)" and "of_char (''0123456789'' ! n) - 48 = n"
  using digit_chars assms by (auto simp: list_all_iff simp del: upt_Suc)

lemma nat_to_string_digits: "list_all is_digit (nat_to_string n)"
  by (induction n rule: nat_to_string.induct)
    (subst nat_to_string.simps, simp add: digit_char(1))

lemma nat_to_string_nonempty [simp]: "nat_to_string n \<noteq> []"
  by (subst nat_to_string.simps) simp

lemma digits_value_nat_to_string [simp]: "digits_value (nat_to_string n) = n"
  by (induction n rule: nat_to_string.induct)
    (subst nat_to_string.simps, auto simp: digits_value_def digit_char(2))

lemma parse_uint_nat_to_string [simp]: "n < limit \<Longrightarrow> parse_uint limit (nat_to_string n) = Some n"
proof -
  assume "n < limit"
  moreover obtain c r where s: "nat_to_string n = c # r" by (cases "nat_to_string n") auto
  moreover have "c \<noteq> CHR ''+''"
    using nat_to_string_digits [of n] by (auto simp: s is_digit_def)
  ultimately show ?thesis
    using nat_to_string_digits [of n] digits_value_nat_to_string [of n]
    by (simp add: parse_uint_def Let_def del: digits_value_nat_to_string)
qed

lemma parse_word_to_string [simp]: "parse_word (nat_to_string (unat w)) = Some w"
  by (simp add: parse_word_def)

section \<open>Round trips\<close>

lemma split_on_last [simp]: "c \<notin> set s \<Longrightarrow> split_on c s = [s]"
  by (induction s) auto

lemma split_on_append [simp]: "c \<notin> set s \<Longrightarrow> split_on c (s @ c # t) = s # split_on c t"
  by (induction s) auto

lemma trim_end_cr_id [simp]: "CHR 0x0D \<notin> set s \<Longrightarrow> trim_end_cr s = s"
  by (cases s rule: rev_cases) (auto simp: trim_end_cr_def)

text \<open>The characters of numbers, keys and hashes: ASCII letters and digits.\<close>

definition is_alnum :: "char \<Rightarrow> bool" where
  "is_alnum c \<longleftrightarrow>
     c \<in> set ''0123456789ABCDEFGHIJKLMNOPQRSTUVWXYZabcdefghijklmnopqrstuvwxyz''"

lemma digit_alnum: "is_digit c \<Longrightarrow> is_alnum c"
  by (auto simp: is_digit_def is_alnum_def)

lemma nat_to_string_alnum: "list_all is_alnum (nat_to_string n)"
  using nat_to_string_digits [of n] by (auto simp: list_all_iff digit_alnum)

lemma alnum_no_separator:
  assumes "list_all is_alnum s" and "\<not> is_alnum c"
  shows "c \<notin> set s"
  using assms by (auto simp: list_all_iff)

lemma separators: "\<not> is_alnum CHR '' ''" "\<not> is_alnum CHR ''-''" "\<not> is_alnum CHR ''.''"
  "\<not> is_alnum CHR 0x0A" "\<not> is_alnum CHR 0x0D" "\<not> is_alnum CHR 0x09"
  by (simp_all add: is_alnum_def)

lemma alnum_codes:
  "list_all (\<lambda>c. of_char c < (128 :: nat) \<and> \<not> (9 \<le> (of_char c :: nat) \<and> of_char c \<le> (13 :: nat)) \<and> of_char c \<noteq> (32 :: nat))
     ''0123456789ABCDEFGHIJKLMNOPQRSTUVWXYZabcdefghijklmnopqrstuvwxyz''"
  by simp

lemma utf8_ascii:
  "list_all (\<lambda>c. of_char c < (128 :: nat)) s \<Longrightarrow> utf8_ok (as_bytes s)"
proof (induction s)
  case Nil
  then show ?case by (simp add: as_bytes_def utf8_ok.simps)
next
  case (Cons c s)
  then have "(of_nat (of_char c) :: u8) < 0x80"
    by (simp add: word_less_nat_alt byte_of_char)
  with Cons show ?case
    by (subst utf8_ok.simps) (simp add: as_bytes_def utf8_char_len_def)
qed

lemma alnum_not_whitespace:
  assumes "is_alnum c"
  shows "whitespace_len (as_bytes (c # s)) = 0"
proof -
  have "of_char c < (128 :: nat)" "\<not> (9 \<le> (of_char c :: nat) \<and> of_char c \<le> (13 :: nat))" "of_char c \<noteq> (32 :: nat)"
    using alnum_codes assms by (auto simp: list_all_iff is_alnum_def simp del: set_simps list.pred_inject)
  then show ?thesis
    by (auto simp: whitespace_len_def as_bytes_def word_le_nat_alt byte_of_char word_unat_eq_iff
        split: list.splits)
qed

lemma split_words_word:
  "list_all is_alnum s \<Longrightarrow> split_words w (s @ t) = split_words (w @ s) t"
proof (induction s arbitrary: w)
  case (Cons c s)
  then have "whitespace_len (as_bytes (c # s @ t)) = 0" by (auto intro: alnum_not_whitespace)
  with Cons show ?case by (subst split_words.simps) simp
qed simp

lemma split_words_space:
  "w \<noteq> [] \<Longrightarrow> split_words w (CHR 0x09 # t) = w # split_words [] t"
  by (subst split_words.simps) (simp add: as_bytes_def whitespace_len_def)

lemma split_words_end: "w \<noteq> [] \<Longrightarrow> split_words w [] = [w]"
  by (subst split_words.simps) simp

text \<open>A line of three words between tabs.\<close>

lemma split_whitespace_row:
  assumes "list_all is_alnum a" "list_all is_alnum b" "list_all is_alnum c" "a \<noteq> []" "b \<noteq> []" "c \<noteq> []"
  shows "split_whitespace (a @ CHR 0x09 # b @ CHR 0x09 # c) = [a, b, c]"
  using assms split_words_word [of c "[]" "[]"]
  by (simp add: split_whitespace_def split_words_word split_words_space split_words_end)

section \<open>Keys and hashes\<close>

text \<open>\<^verbatim>\<open>impl_print\<close> of \<^verbatim>\<open>defs.rs\<close>: a decoding of the wrong length is an error.\<close>

definition from_hex :: "ext \<Rightarrow> nat \<Rightarrow> string \<Rightarrow> bytes res" where
  "from_hex X len s =
     (case hex_decode X s of
        Some bs \<Rightarrow> if length bs = len then Inr bs else Inl Other
      | None \<Rightarrow> Inl Other)"

definition from_base58 :: "ext \<Rightarrow> nat \<Rightarrow> string \<Rightarrow> bytes res" where
  "from_base58 X len s =
     (case base58_decode X s of
        Some bs \<Rightarrow> if length bs = len then Inr bs else Inl Other
      | None \<Rightarrow> Inl Other)"

text \<open>What the crates \<^verbatim>\<open>hex\<close> and \<^verbatim>\<open>bs58\<close> document.\<close>

definition text_laws :: "ext \<Rightarrow> bool" where
  "text_laws X \<longleftrightarrow>
     (\<forall>bs. hex_decode X (hex_encode X bs) = Some bs \<and> list_all is_alnum (hex_encode X bs)) \<and>
     (\<forall>bs. base58_decode X (base58_encode X bs) = Some bs \<and> list_all is_alnum (base58_encode X bs)) \<and>
     (\<forall>bs. bs \<noteq> [] \<longrightarrow> base58_encode X bs \<noteq> []) \<and>
     (\<exists>bs. base58_decode X PROJECT_PUBLIC_KEY = Some bs \<and> length bs = 33)"

lemma hex_value_digit: "n < 16 \<Longrightarrow> hex_value (hex_digit n) = Some n"
  by (simp add: hex_value_def hex_digit_def map_of_zip_nth)

lemma demo_unhex_encode: "demo_unhex (concat (map (\<lambda>b. [hex_digit (unat b div 16), hex_digit (unat b mod 16)]) bs)) = Some bs"
  for bs :: bytes
proof (induction bs)
  case (Cons b bs)
  have "unat b < 256" by (rule unat_byte_bound)
  then have "unat b div 16 < 16" by linarith
  then show ?case using Cons by (simp add: hex_value_digit)
qed simp

lemma hex_digit_alnum: "n < 16 \<Longrightarrow> is_alnum (hex_digit n)"
proof -
  have "list_all (\<lambda>n. is_alnum (hex_digit n)) [0..<16]"
    by (simp add: upt_rec is_alnum_def hex_digit_def)
  then show "n < 16 \<Longrightarrow> is_alnum (hex_digit n)" by (auto simp: list_all_iff simp del: upt_Suc)
qed

lemma demo_hex_alnum:
  "list_all is_alnum (concat (map (\<lambda>b. [hex_digit (unat b div 16), hex_digit (unat b mod 16)]) bs))"
  for bs :: bytes
proof (induction bs)
  case (Cons b bs)
  have "unat b div 16 < 16" using unat_byte_bound [of b] by linarith
  with Cons show ?case by (simp add: hex_digit_alnum)
qed simp

lemma demo_unhex_bad: "demo_unhex (CHR ''q'' # d # s) = None"
  by (simp add: hex_value_def upt_rec)

lemma text_laws_demo: "text_laws demo_ext"
proof -
  have "demo_unhex PROJECT_PUBLIC_KEY = None"
    by (simp only: PROJECT_PUBLIC_KEY_def demo_unhex_bad)
  moreover have "concat (map (\<lambda>b. [hex_digit (unat b div 16), hex_digit (unat b mod 16)]) bs) \<noteq> PROJECT_PUBLIC_KEY"
    for bs :: bytes
    using demo_unhex_encode [of bs] calculation by auto
  ultimately show ?thesis
    by (simp add: text_laws_def demo_ext_def demo_unhex_encode demo_hex_alnum)
qed

end
