(* ===== verification/Storage.thy ===== *)
theory Storage
  imports Block_Codec Saito_Text
begin

text \<open>
  The disk (\<^verbatim>\<open>io/storage.rs\<close>) and the operations of \<^verbatim>\<open>consensus/block.rs\<close> that load a
  block from it. Files are a map from paths to contents, the behaviour of the file system behind
  \<^verbatim>\<open>InterfaceIO\<close>; \<open>dk_writable\<close> tells whether a write succeeds. Block files are named after the
  timestamp and the hash of the block and hold its wire format, so what is loaded is what the
  wire format keeps.
\<close>

section \<open>Files\<close>

record disk =
  dk_files :: "string \<Rightarrow> bytes option"
  dk_block_dir :: string
  dk_checkpoint_dir :: string
  dk_writable :: bool

definition read_value :: "string \<Rightarrow> disk \<Rightarrow> bytes res" where
  "read_value key dk = ok_or NotFound (dk_files dk key)"

definition write_value :: "string \<Rightarrow> bytes \<Rightarrow> disk \<Rightarrow> disk res" where
  "write_value key v dk =
     (if dk_writable dk then Inr (dk\<lparr>dk_files := (dk_files dk)(key := Some v)\<rparr>) else Inl Other)"

definition remove_value :: "string \<Rightarrow> disk \<Rightarrow> disk res" where
  "remove_value key dk =
     (case dk_files dk key of
        None \<Rightarrow> Inl NotFound
      | Some _ \<Rightarrow> Inr (dk\<lparr>dk_files := (dk_files dk)(key := None)\<rparr>))"

section \<open>Block files\<close>

definition block_get_file_name :: "ext \<Rightarrow> block \<Rightarrow> string" where
  "block_get_file_name X b =
     nat_to_string (unat (b_timestamp b)) @ ''-'' @ hex_encode X (b_hash b) @ ''.sai''"

definition generate_block_filepath :: "ext \<Rightarrow> disk \<Rightarrow> block \<Rightarrow> string" where
  "generate_block_filepath X dk b = dk_block_dir dk @ block_get_file_name X b"

text \<open>A failed write is a panic.\<close>

definition write_block_to_disk :: "ext \<Rightarrow> block \<Rightarrow> disk \<Rightarrow> (string \<times> disk) res" where
  "write_block_to_disk X b dk =
     (let buffer = block_serialize_for_net BT_Full b;
          filename = generate_block_filepath X dk b
      in rbind (unwrap_r (write_value filename buffer dk)) (\<lambda>dk'. Inr (filename, dk')))"

definition load_block_from_disk :: "string \<Rightarrow> disk \<Rightarrow> block res" where
  "load_block_from_disk file_name dk =
     (case read_value file_name dk of
        Inl _ \<Rightarrow> Inl NotFound
      | Inr buffer \<Rightarrow> block_deserialize_from_net buffer)"

definition delete_block_from_disk :: "string \<Rightarrow> disk \<Rightarrow> bool \<times> disk" where
  "delete_block_from_disk filename dk =
     (case remove_value filename dk of Inl _ \<Rightarrow> (False, dk) | Inr dk' \<Rightarrow> (True, dk'))"

section \<open>Loading the transactions of a pruned block\<close>

text \<open>
  What \<^verbatim>\<open>generate\<close> leaves behind when it stops at a double spend: the inputs are recorded up to
  the repeated one, the transactions up to the failing one have their cumulative fees.
\<close>

fun spend_inputs_upto :: "slip list \<Rightarrow> (bytes \<times> u64) list \<Rightarrow> (bytes \<times> u64) list" where
  "spend_inputs_upto [] spent = spent"
| "spend_inputs_upto (input # inputs) spent =
     (if slip_amount input = 0 then spend_inputs_upto inputs spent
      else
        (let key = slip_get_utxoset_key input;
             v = (case map_of spent key of Some e \<Rightarrow> e + 1 | None \<Rightarrow> 1);
             spent' = AList.update key v spent
         in if v > 1 \<and> slip_amount input > 0 then spent'
            else spend_inputs_upto inputs spent'))"

fun block_sweep_upto :: "u64 \<Rightarrow> transaction list \<Rightarrow> block \<Rightarrow> transaction list \<times> block" where
  "block_sweep_upto cumulative_fees [] b = ([], b)"
| "block_sweep_upto cumulative_fees (tx0 # txs) b =
     (let (c, tx) = tx_generate_cumulative_fees cumulative_fees tx0 in
      if tx_transaction_type tx \<noteq> TT_Fee
      then (tx # txs, b\<lparr>b_slips_spent_this_block :=
              spend_inputs_upto (tx_from tx) (b_slips_spent_this_block b)\<rparr>)
      else (let (txs', b') = block_sweep_upto c txs b in (tx # txs', b')))"

definition block_generate_upto :: "ext \<Rightarrow> block \<Rightarrow> block res" where
  "block_generate_upto X b =
     (let b1 = b\<lparr>b_total_rebroadcast_slips := 0, b_rebroadcast_hash := replicate 32 0,
                 b_transactions :=
                   block_generate_txs X (b_creator b) (b_id b) 0 (b_transactions b)\<rparr>;
          b2 = block_generate_transaction_hashmap b1
      in rbind (if b_merkle_root b2 = replicate 32 0
                then rbind (block_generate_merkle_root X False False b2) (\<lambda>r.
                  Inr (b2\<lparr>b_merkle_root := r\<rparr>))
                else Inr b2) (\<lambda>b3.
         let b4 = block_generate_hash X (block_generate_pre_hash X b3);
             (txs, b5) = block_sweep_upto 0 (b_transactions b4) b4
         in Inr (b5\<lparr>b_transactions := txs\<rparr>)))"

definition block_upgrade_block_to_block_type ::
  "ext \<Rightarrow> disk \<Rightarrow> BlockType \<Rightarrow> bool \<Rightarrow> block \<Rightarrow> (bool \<times> block) res" where
  "block_upgrade_block_to_block_type X dk block_type is_spv b =
     (if b_block_type b = block_type then Inr (True, b)
      else if block_type = BT_Full then
        (if is_spv then Inr (False, b)
         else recover (load_block_from_disk (generate_block_filepath X dk b) dk) (Inr (False, b))
           (\<lambda>new_block.
             let b1 = b\<lparr>b_transactions := b_transactions new_block\<rparr> in
             recover (block_generate X b1)
               (rbind (block_generate_upto X b1) (\<lambda>b2. Inr (False, b2)))
               (\<lambda>b2. Inr (True, b2\<lparr>b_block_type := BT_Full\<rparr>))))
      else Inr (False, b))"

definition block_update_block_to_block_type ::
  "ext \<Rightarrow> disk \<Rightarrow> BlockType \<Rightarrow> bool \<Rightarrow> block \<Rightarrow> (bool \<times> block) res" where
  "block_update_block_to_block_type X dk block_type is_browser b =
     (if b_block_type b = block_type then Inr (True, b)
      else if block_type = BT_Full then block_upgrade_block_to_block_type X dk block_type is_browser b
      else if block_type = BT_Pruned then Inr (block_downgrade_block_to_block_type block_type b)
      else Inr (False, b))"

end
