(* ===== verification/Blockchain_State.thy ===== *)
theory Blockchain_State
  imports Block_Ring Storage
begin

text \<open>
  The state of the blockchain (\<^verbatim>\<open>consensus/blockchain.rs\<close>, the struct and the functions that
  only read it): the tip, the stake lock, fork ids and the search for a shared ancestor, the
  golden-ticket rule, the choice of the longest chain and the two chains of a reorganisation.
  The wallet behind \<^verbatim>\<open>wallet_lock\<close> is a separate component of the node's state.
\<close>

section \<open>Data\<close>

type_synonym blocks = "(bytes \<times> block) list"

record Blockchain =
  bc_utxoset :: utxoset
  bc_blockring :: BlockRing
  bc_blocks :: blocks
  bc_genesis_block_id :: u64
  bc_fork_id :: "bytes option"
  bc_last_block_hash :: bytes
  bc_last_block_id :: u64
  bc_last_timestamp :: u64
  bc_last_burnfee :: u64
  bc_genesis_timestamp :: u64
  bc_genesis_block_hash :: bytes
  bc_lowest_acceptable_timestamp :: u64
  bc_lowest_acceptable_block_hash :: bytes
  bc_lowest_acceptable_block_id :: u64
  bc_social_stake_requirement :: u64
  bc_social_stake_period :: u64
  bc_genesis_period :: u64
  bc_checkpoint_found :: bool
  bc_initial_token_supply :: u64
  bc_last_issuance_written_on :: u64

definition bc_new :: "u64 \<Rightarrow> u64 \<Rightarrow> u64 \<Rightarrow> Blockchain" where
  "bc_new genesis_period social_stake social_stake_period = \<lparr>
     bc_utxoset = Map.empty, bc_blockring = br_new genesis_period, bc_blocks = [],
     bc_genesis_block_id = 0, bc_fork_id = None, bc_last_block_hash = replicate 32 0,
     bc_last_block_id = 0, bc_last_timestamp = 0, bc_last_burnfee = 0,
     bc_genesis_timestamp = 0, bc_genesis_block_hash = replicate 32 0,
     bc_lowest_acceptable_timestamp = 0, bc_lowest_acceptable_block_hash = replicate 32 0,
     bc_lowest_acceptable_block_id = 0, bc_social_stake_requirement = social_stake,
     bc_social_stake_period = social_stake_period, bc_genesis_period = genesis_period,
     bc_checkpoint_found = False, bc_initial_token_supply = 0,
     bc_last_issuance_written_on = 0 \<rparr>"

definition bit_pack :: "u32 \<Rightarrow> u32 \<Rightarrow> u64" where
  "bit_pack top32 bottom = push_bit 32 (ucast top32) + ucast bottom"

definition bit_unpack :: "u64 \<Rightarrow> u32 \<times> u32" where
  "bit_unpack packed = (let bottom = ucast packed; top32 = ucast (drop_bit 32 packed) in (top32, bottom))"

definition bc_set_fork_id :: "bytes \<Rightarrow> Blockchain \<Rightarrow> Blockchain" where
  "bc_set_fork_id fork_id bc = bc\<lparr>bc_fork_id := Some fork_id\<rparr>"

definition bc_get_block :: "Blockchain \<Rightarrow> bytes \<Rightarrow> block option" where
  "bc_get_block bc h = map_of (bc_blocks bc) h"

definition bc_is_block_indexed :: "Blockchain \<Rightarrow> bytes \<Rightarrow> bool" where
  "bc_is_block_indexed bc h = (map_of (bc_blocks bc) h \<noteq> None)"

definition bc_get_latest_block_hash :: "Blockchain \<Rightarrow> bytes res" where
  "bc_get_latest_block_hash bc = br_get_latest_block_hash (bc_blockring bc)"

definition bc_get_latest_block_id :: "Blockchain \<Rightarrow> u64 res" where
  "bc_get_latest_block_id bc = br_get_latest_block_id (bc_blockring bc)"

definition bc_get_latest_block :: "Blockchain \<Rightarrow> block option res" where
  "bc_get_latest_block bc =
     rbind (br_get_latest_block_hash (bc_blockring bc)) (\<lambda>h. Inr (map_of (bc_blocks bc) h))"

text \<open>The block id up to which stakes are unlocked, for the block after the tip.\<close>

definition bc_get_latest_unlocked_stake_block_id :: "Blockchain \<Rightarrow> u64 res" where
  "bc_get_latest_unlocked_stake_block_id bc =
     rbind (bc_get_latest_block_id bc) (\<lambda>latest.
       Inr (if latest > bc_social_stake_period bc then latest + 1 - bc_social_stake_period bc
            else 0))"

text \<open>What transaction and block validation read of the blockchain.\<close>

definition bc_view :: "Blockchain \<Rightarrow> chain_view res" where
  "bc_view bc =
     rbind (bc_get_latest_unlocked_stake_block_id bc) (\<lambda>unlocked.
       Inr \<lparr>cv_utxoset = bc_utxoset bc,
            cv_social_stake_requirement = bc_social_stake_requirement bc,
            cv_latest_unlocked_stake_block_id = unlocked\<rparr>)"

definition bc_context :: "Blockchain \<Rightarrow> block_context res" where
  "bc_context bc =
     rbind (bc_view bc) (\<lambda>v. Inr \<lparr>bx_blocks = bc_blocks bc, bx_view = v\<rparr>)"

section \<open>Fork ids\<close>

definition FORK_ID_WEIGHTS :: "u64 list" where
  "FORK_ID_WEIGHTS =
     [0, 10, 10, 10, 10, 10, 25, 25, 100, 300, 500, 4000, 10000, 20000, 50000, 100000]"

text \<open>The loops over the remaining weights, with the index of the next one.\<close>

fun fork_id_loop :: "BlockRing \<Rightarrow> nat \<Rightarrow> u64 list \<Rightarrow> u64 \<Rightarrow> bytes \<Rightarrow> bytes res" where
  "fork_id_loop br i [] current_block_id fork_id = Inr fork_id"
| "fork_id_loop br i (weight # ws) current_block_id fork_id =
     (if current_block_id \<le> weight then Inr fork_id
      else
        (let current = current_block_id - weight; index = 2 * i in
         rbind (br_get_longest_chain_block_hash_at_block_id current br) (\<lambda>r.
           case r of
             Some h \<Rightarrow>
               fork_id_loop br (i + 1) ws current
                 (fork_id[index := h ! index, index + 1 := h ! (index + 1)])
           | None \<Rightarrow> Inr fork_id)))"

definition bc_generate_fork_id :: "Blockchain \<Rightarrow> u64 \<Rightarrow> bytes option res" where
  "bc_generate_fork_id bc block_id =
     rbind (fork_id_loop (bc_blockring bc) 0 FORK_ID_WEIGHTS (block_id - block_id mod 10)
              (replicate 32 0)) (\<lambda>f. Inr (Some f))"

fun shared_ancestor_loop :: "BlockRing \<Rightarrow> bytes \<Rightarrow> nat \<Rightarrow> u64 list \<Rightarrow> u64 \<Rightarrow> u64 option res" where
  "shared_ancestor_loop br fork_id i [] block_id = Inr None"
| "shared_ancestor_loop br fork_id i (weight # ws) block_id =
     (if block_id < weight then Inr (Some 0)
      else
        (let block_id' = block_id - weight; index = 2 * i in
         rbind (br_get_longest_chain_block_hash_at_block_id block_id' br) (\<lambda>r.
           case r of
             Some h \<Rightarrow>
               if fork_id ! index = h ! index \<and> fork_id ! (index + 1) = h ! (index + 1)
               then Inr (Some block_id')
               else shared_ancestor_loop br fork_id (i + 1) ws block_id'
           | None \<Rightarrow> shared_ancestor_loop br fork_id (i + 1) ws block_id')))"

definition bc_generate_last_shared_ancestor_when_peer_behind ::
  "Blockchain \<Rightarrow> u64 \<Rightarrow> bytes \<Rightarrow> u64 \<Rightarrow> u64 option res" where
  "bc_generate_last_shared_ancestor_when_peer_behind bc peer_latest_block_id fork_id
     my_latest_block_id =
     shared_ancestor_loop (bc_blockring bc) fork_id 0 FORK_ID_WEIGHTS
       (peer_latest_block_id - peer_latest_block_id mod 10)"

definition bc_generate_last_shared_ancestor_when_peer_ahead ::
  "Blockchain \<Rightarrow> u64 \<Rightarrow> bytes \<Rightarrow> u64 \<Rightarrow> u64 option res" where
  "bc_generate_last_shared_ancestor_when_peer_ahead bc peer_latest_block_id fork_id
     my_latest_block_id =
     shared_ancestor_loop (bc_blockring bc) fork_id 0 FORK_ID_WEIGHTS
       (my_latest_block_id - my_latest_block_id mod 10)"

definition bc_generate_last_shared_ancestor :: "Blockchain \<Rightarrow> u64 \<Rightarrow> bytes \<Rightarrow> u64 res" where
  "bc_generate_last_shared_ancestor bc peer_latest_block_id fork_id =
     rbind (bc_get_latest_block_id bc) (\<lambda>my_latest_block_id.
     rbind (if peer_latest_block_id \<ge> my_latest_block_id
            then bc_generate_last_shared_ancestor_when_peer_ahead bc peer_latest_block_id fork_id
                   my_latest_block_id
            else bc_generate_last_shared_ancestor_when_peer_behind bc peer_latest_block_id fork_id
                   my_latest_block_id) (\<lambda>r.
       case r of Some v \<Rightarrow> Inr v | None \<Rightarrow> Inr 0))"

definition generate_fork_id_weights :: "u64 \<Rightarrow> u64 list" where
  "generate_fork_id_weights genesis_period =
     [0] @
     map (\<lambda>w. max (w * genesis_period div 100000) 1)
       [10, 10, 10, 10, 10, 25, 25, 100, 300, 500, 4000, 10000, 20000, 50000] @
     [genesis_period]"

section \<open>Golden tickets\<close>

definition MIN_GOLDEN_TICKETS_NUMERATOR :: u64 where "MIN_GOLDEN_TICKETS_NUMERATOR = 2"
definition MIN_GOLDEN_TICKETS_DENOMINATOR :: u64 where "MIN_GOLDEN_TICKETS_DENOMINATOR = 6"

text \<open>The walk back from the previous block: depth searched and golden tickets found.\<close>

fun gt_search :: "(bytes \<Rightarrow> block option) \<Rightarrow> nat \<Rightarrow> bytes \<Rightarrow> u64 \<times> u64 \<Rightarrow> u64 \<times> u64" where
  "gt_search get_block 0 h (depth, found) = (depth, found)"
| "gt_search get_block (Suc n) h (depth, found) =
     (case get_block h of
        Some b \<Rightarrow>
          gt_search get_block n (b_previous_block_hash b)
            (depth + 1, if b_has_golden_ticket b then found + 1 else found)
      | None \<Rightarrow> (depth, found))"

definition is_golden_ticket_count_valid ::
  "bytes \<Rightarrow> bool \<Rightarrow> bool \<Rightarrow> (bytes \<Rightarrow> block option) \<Rightarrow> bool" where
  "is_golden_ticket_count_valid previous_block_hash current_block_has_golden_ticket bypass
     get_block =
     (let (search_depth_index, found0) =
            gt_search get_block (unat (MIN_GOLDEN_TICKETS_DENOMINATOR - 1)) previous_block_hash (0, 0);
          required_tickets =
            sat_sub MIN_GOLDEN_TICKETS_NUMERATOR
              (sat_sub MIN_GOLDEN_TICKETS_DENOMINATOR (search_depth_index + 1));
          golden_tickets_found = (if current_block_has_golden_ticket then found0 + 1 else found0)
      in if search_depth_index < MIN_GOLDEN_TICKETS_DENOMINATOR - MIN_GOLDEN_TICKETS_NUMERATOR
         then True
         else if golden_tickets_found < required_tickets \<and> \<not> bypass then False
         else True)"

definition bc_is_golden_ticket_count_valid ::
  "Blockchain \<Rightarrow> bytes \<Rightarrow> bool \<Rightarrow> bool \<Rightarrow> bool \<Rightarrow> bool" where
  "bc_is_golden_ticket_count_valid bc previous_block_hash current_block_has_golden_ticket
     is_browser is_spv =
     is_golden_ticket_count_valid previous_block_hash current_block_has_golden_ticket
       (is_browser \<or> is_spv) (map_of (bc_blocks bc))"

section \<open>The chains of a reorganisation\<close>

text \<open>
  The walks along \<^verbatim>\<open>previous_block_hash\<close>. Two of them stop only at a block that is unknown, on the
  longest chain or the shared one: they are partial functions, \<open>None\<close> when the loop never ends.
\<close>

partial_function (option) new_chain_loop ::
  "blocks \<Rightarrow> bytes \<Rightarrow> bytes list \<Rightarrow> (bool \<times> bytes \<times> bytes list) option" where
  "new_chain_loop blocks new_chain_hash new_chain =
     (case map_of blocks new_chain_hash of
        Some b \<Rightarrow>
          if b_in_longest_chain b then Some (True, new_chain_hash, new_chain)
          else if new_chain_hash = replicate 32 0 then Some (False, new_chain_hash, new_chain)
          else new_chain_loop blocks (b_previous_block_hash b) (new_chain @ [new_chain_hash])
      | None \<Rightarrow> Some (False, new_chain_hash, new_chain))"

definition calculate_new_chain_for_add_block ::
  "Blockchain \<Rightarrow> bytes \<Rightarrow> (bool \<times> bytes \<times> bytes list) option" where
  "calculate_new_chain_for_add_block bc block_hash = new_chain_loop (bc_blocks bc) block_hash []"

partial_function (option) old_chain_loop ::
  "blocks \<Rightarrow> bytes \<Rightarrow> bytes \<Rightarrow> bytes list \<Rightarrow> bytes list option" where
  "old_chain_loop blocks shared_block_hash old_chain_hash old_chain =
     (if shared_block_hash = old_chain_hash then Some old_chain
      else case map_of blocks old_chain_hash of
        Some b \<Rightarrow>
          if b_previous_block_hash b = replicate 32 0 then Some (old_chain @ [old_chain_hash])
          else old_chain_loop blocks shared_block_hash (b_previous_block_hash b)
                 (old_chain @ [old_chain_hash])
      | None \<Rightarrow> Some old_chain)"

definition calculate_old_chain_for_add_block ::
  "Blockchain \<Rightarrow> bytes \<Rightarrow> bytes \<Rightarrow> bytes list option" where
  "calculate_old_chain_for_add_block bc latest_block_hash shared_block_hash =
     old_chain_loop (bc_blocks bc) shared_block_hash latest_block_hash []"

function old_chain_upto :: "blocks \<Rightarrow> nat \<Rightarrow> bytes \<Rightarrow> bytes list \<Rightarrow> bytes list" where
  "old_chain_upto blocks len old_chain_hash old_chain =
     (if length old_chain \<le> len then
        (case map_of blocks old_chain_hash of
           Some b \<Rightarrow>
             if b_previous_block_hash b = replicate 32 0 then old_chain @ [old_chain_hash]
             else old_chain_upto blocks len (b_previous_block_hash b) (old_chain @ [old_chain_hash])
         | None \<Rightarrow> old_chain)
      else old_chain)"
  by pat_completeness auto
termination
  by (relation "measure (\<lambda>(blocks, len, h, old_chain). Suc len - length old_chain)") auto

declare old_chain_upto.simps [simp del]

definition calculate_old_chain_upto_length :: "Blockchain \<Rightarrow> bytes \<Rightarrow> u64 \<Rightarrow> bytes list" where
  "calculate_old_chain_upto_length bc latest_block_hash len =
     old_chain_upto (bc_blocks bc) (unat len) latest_block_hash []"

text \<open>Adding up burn fees: \<^verbatim>\<open>unwrap\<close> on the old chain, an early return on the new one.\<close>

fun old_burnfees :: "blocks \<Rightarrow> bytes list \<Rightarrow> u64 \<Rightarrow> u64 res" where
  "old_burnfees blocks [] bf = Inr bf"
| "old_burnfees blocks (h # hs) bf =
     rbind (ok_or Panic (map_of blocks h)) (\<lambda>b. old_burnfees blocks hs (bf + b_burnfee b))"

fun new_burnfees :: "blocks \<Rightarrow> bytes list \<Rightarrow> u64 \<Rightarrow> u64 option" where
  "new_burnfees blocks [] bf = Some bf"
| "new_burnfees blocks (h # hs) bf =
     (case map_of blocks h of
        Some b \<Rightarrow> new_burnfees blocks hs (bf + b_burnfee b)
      | None \<Rightarrow> None)"

definition is_new_chain_the_longest_chain ::
  "Blockchain \<Rightarrow> bytes list \<Rightarrow> bytes list \<Rightarrow> bool res" where
  "is_new_chain_the_longest_chain bc new_chain old_chain =
     (if br_is_empty (bc_blockring bc) then Inr True
      else if length old_chain > length new_chain then Inr False
      else
        rbind (br_get_latest_block_id (bc_blockring bc)) (\<lambda>latest_block_id.
        rbind (index_r new_chain 0) (\<lambda>tip.
        rbind (ok_or Panic (map_of (bc_blocks bc) tip)) (\<lambda>tip_block.
          if latest_block_id \<ge> b_id tip_block then Inr False
          else
            rbind (old_burnfees (bc_blocks bc) old_chain 0) (\<lambda>old_bf.
              case new_burnfees (bc_blocks bc) new_chain 0 of
                None \<Rightarrow> Inr False
              | Some new_bf \<Rightarrow>
                  Inr (length old_chain < length new_chain \<and> old_bf \<le> new_bf))))))"

end
