(* ===== verification/Consensus_Values.thy ===== *)
theory Consensus_Values
  imports Blockchain_State "HOL-Library.Signed_Division"
begin

text \<open>
  The economics of a block: \<^verbatim>\<open>generate_consensus_values\<close> of \<^verbatim>\<open>consensus/block.rs\<close>, section by
  section in the order of the source. It examines a block in the context of the blockchain and
  computes the values that are written into a block and that \<^verbatim>\<open>validate\<close> compares it with: fee
  and size totals, burn fee and difficulty, the automatic rebroadcast of outputs that leave the
  genesis period, running averages, and the payout of the fees of the two previous blocks.
  A quotient with a zero divisor is a panic; \<^verbatim>\<open>i128\<close> values are \<open>int\<close> (differences of two
  64-bit values, far inside the range). The variable \<^verbatim>\<open>total_nolan_eligible_for_atr_payout\<close>, which
  the source computes and does not use, is left out.
\<close>

section \<open>Transactions, burn fee and difficulty\<close>

definition cv_new :: ConsensusValues where
  "cv_new = \<lparr>c_fee_transaction = None, c_st_num = 0, c_st_index = None, c_it_num = 0,
     c_it_index = None, c_ft_num = 0, c_ft_index = None, c_gt_num = 0, c_gt_index = None,
     c_total_fees = 5000, c_total_fees_new = 0, c_total_fees_atr = 0, c_total_fees_cumulative = 0,
     c_avg_total_fees = 0, c_avg_total_fees_new = 0, c_avg_total_fees_atr = 0,
     c_total_bytes_new = 0, c_total_payout_routing = 0, c_total_payout_mining = 0,
     c_total_payout_treasury = 0, c_total_payout_graveyard = 0, c_total_payout_atr = 0,
     c_avg_payout_routing = 0, c_avg_payout_mining = 0, c_avg_payout_treasury = 0,
     c_avg_payout_graveyard = 0, c_avg_payout_atr = 0, c_avg_fee_per_byte = 0,
     c_fee_per_byte = 0, c_burnfee = 1, c_difficulty = 1, c_total_rebroadcast_slips = 0,
     c_total_rebroadcast_nolan = 0, c_rebroadcasts = [], c_rebroadcast_hash = replicate 32 0,
     c_avg_nolan_rebroadcast_per_block = 0, c_total_rebroadcast_fees_nolan = 0,
     c_total_rebroadcast_staking_payouts_nolan = 0,
     c_total_fees_paid_by_nonrebroadcast_atr_transactions = 0, c_expected_difficulty = 0\<rparr>"

text \<open>One transaction: counters, indices, size and fees; the second component counts non-fee ones.\<close>

definition cv_count_tx ::
  "nat \<Rightarrow> transaction \<Rightarrow> ConsensusValues \<times> u64 \<Rightarrow> ConsensusValues \<times> u64" where
  "cv_count_tx index tx = (\<lambda>(cv, non_fee).
     let (cv1, non_fee1) =
           (if tx_is_fee_transaction tx
            then (cv\<lparr>c_ft_num := c_ft_num cv + 1, c_ft_index := Some index\<rparr>, non_fee)
            else (cv, non_fee + 1));
         cv2 = (if (tx_is_golden_ticket tx \<or> tx_is_normal_transaction tx) \<and>
                   \<not> tx_is_atr_transaction tx
                then cv1\<lparr>c_total_bytes_new := c_total_bytes_new cv1 +
                           of_nat (tx_get_serialized_size tx),
                         c_total_fees_new := c_total_fees_new cv1 + tx_total_fees tx\<rparr>
                else cv1);
         cv3 = (if tx_is_golden_ticket tx
                then cv2\<lparr>c_gt_num := c_gt_num cv2 + 1, c_gt_index := Some index\<rparr> else cv2);
         cv4 = (if tx_is_staking_transaction tx
                then cv3\<lparr>c_st_num := c_st_num cv3 + 1, c_st_index := Some index\<rparr> else cv3);
         cv5 = (if tx_is_issuance_transaction tx
                then cv4\<lparr>c_it_num := c_it_num cv4 + 1, c_it_index := Some index\<rparr> else cv4)
     in (cv5, non_fee1))"

fun cv_count_txs ::
  "nat \<Rightarrow> transaction list \<Rightarrow> ConsensusValues \<times> u64 \<Rightarrow> ConsensusValues \<times> u64" where
  "cv_count_txs index [] st = st"
| "cv_count_txs index (tx # txs) st = cv_count_txs (index + 1) txs (cv_count_tx index tx st)"

definition cv_burnfee_difficulty ::
  "node_config \<Rightarrow> block option \<Rightarrow> block \<Rightarrow> ConsensusValues \<Rightarrow> ConsensusValues" where
  "cv_burnfee_difficulty conf previous b cv =
     (case previous of
        Some p \<Rightarrow>
          (let bf = calculate_burnfee_for_block (b_burnfee p) (b_timestamp b) (b_timestamp p)
                      (cfg_heartbeat_interval conf);
               d = b_difficulty p
           in cv\<lparr>c_burnfee := (if bf = 0 then 1 else bf),
                 c_difficulty :=
                   (if b_has_golden_ticket p then (if c_gt_num cv > 0 then d + 1 else d)
                    else if c_gt_num cv = 0 \<and> d > 0 then d - 1 else d)\<rparr>)
      | None \<Rightarrow> cv\<lparr>c_burnfee := b_burnfee b, c_difficulty := b_difficulty b\<rparr>)"

section \<open>Automatic transaction rebroadcast\<close>

text \<open>An NFT group: a bound slip, a slip that is not bound, a bound slip.\<close>

definition nft_triple :: "slip \<Rightarrow> slip \<Rightarrow> slip \<Rightarrow> bool" where
  "nft_triple s1 s2 s3 \<longleftrightarrow> slip_slip_type s1 = ST_Bound \<and> slip_slip_type s2 \<noteq> ST_Bound \<and>
     slip_slip_type s3 = ST_Bound"

text \<open>The outputs of a transaction that are still unspent, NFT groups as a whole.\<close>

fun atr_collect :: "utxoset \<Rightarrow> slip list \<Rightarrow> slip list" where
  "atr_collect u (s1 # s2 # s3 # rest) =
     (if nft_triple s1 s2 s3 then
        (if slip_validate s1 u \<and> slip_validate s2 u \<and> slip_validate s3 u
         then s1 # s2 # s3 # atr_collect u rest else atr_collect u rest)
      else if slip_validate s1 u then s1 # atr_collect u (s2 # s3 # rest)
      else atr_collect u (s2 # s3 # rest))"
| "atr_collect u [s1, s2] =
     (if slip_validate s1 u then s1 # atr_collect u [s2] else atr_collect u [s2])"
| "atr_collect u [s1] = (if slip_validate s1 u then [s1] else [])"
| "atr_collect u [] = []"

text \<open>Appending a rebroadcast transaction to the hash and the list.\<close>

definition cv_push_rebroadcast :: "ext \<Rightarrow> transaction \<Rightarrow> ConsensusValues \<Rightarrow> ConsensusValues" where
  "cv_push_rebroadcast X rebroadcast_tx cv =
     cv\<lparr>c_rebroadcast_hash := hash X (c_rebroadcast_hash cv @ tx_serialize_for_signature rebroadcast_tx),
        c_rebroadcasts := c_rebroadcasts cv @ [rebroadcast_tx]\<rparr>"

text \<open>A slip whose value does not cover the fee is collected as a fee.\<close>

definition cv_collect_dust :: "u64 \<Rightarrow> ConsensusValues \<Rightarrow> ConsensusValues" where
  "cv_collect_dust amount cv =
     cv\<lparr>c_total_rebroadcast_nolan := c_total_rebroadcast_nolan cv + amount,
        c_total_fees_atr := c_total_fees_atr cv + amount,
        c_total_fees_paid_by_nonrebroadcast_atr_transactions :=
          c_total_fees_paid_by_nonrebroadcast_atr_transactions cv + amount\<rparr>"

definition atr_group ::
  "ext \<Rightarrow> transaction \<Rightarrow> u64 \<Rightarrow> u64 \<Rightarrow> slip \<Rightarrow> slip \<Rightarrow> slip \<Rightarrow> ConsensusValues \<Rightarrow> ConsensusValues" where
  "atr_group X tx multiplier atr_fee slip1 slip2 slip3 cv =
     (let atr_payout_for_slip = slip_amount slip2 * multiplier;
          surplus = atr_payout_for_slip - slip_amount slip2
      in if atr_payout_for_slip > atr_fee then
           cv_push_rebroadcast X
             (tx_create_rebroadcast_bound_transaction tx slip1
               (slip2\<lparr>slip_amount := atr_payout_for_slip\<rparr>) slip3)
             (cv\<lparr>c_total_rebroadcast_nolan := c_total_rebroadcast_nolan cv + slip_amount slip2,
                 c_total_rebroadcast_slips := c_total_rebroadcast_slips cv + 1,
                 c_total_payout_atr := c_total_payout_atr cv + surplus,
                 c_total_fees_atr := c_total_fees_atr cv + atr_fee\<rparr>)
         else cv_collect_dust (slip_amount slip2) cv)"

definition atr_single ::
  "ext \<Rightarrow> transaction \<Rightarrow> u64 \<Rightarrow> u64 \<Rightarrow> slip \<Rightarrow> ConsensusValues \<Rightarrow> ConsensusValues res" where
  "atr_single X tx multiplier atr_fee output cv =
     (let atr_payout_for_slip = slip_amount output * multiplier;
          surplus = atr_payout_for_slip - slip_amount output
      in if atr_payout_for_slip > atr_fee then
           rbind (tx_create_rebroadcast_transaction tx
                    (output\<lparr>slip_slip_type := ST_ATR, slip_amount := atr_payout_for_slip - atr_fee\<rparr>)
                    (output\<lparr>slip_amount := atr_payout_for_slip\<rparr>)) (\<lambda>rebroadcast_tx.
             Inr (cv_push_rebroadcast X rebroadcast_tx
               (cv\<lparr>c_total_rebroadcast_nolan := c_total_rebroadcast_nolan cv + slip_amount output,
                   c_total_rebroadcast_slips := c_total_rebroadcast_slips cv + 1,
                   c_total_payout_atr := c_total_payout_atr cv + surplus,
                   c_total_fees_atr := c_total_fees_atr cv + atr_fee\<rparr>)))
         else Inr (cv_collect_dust (slip_amount output) cv))"

text \<open>The loop over the collected outputs.\<close>

fun atr_outputs ::
  "ext \<Rightarrow> transaction \<Rightarrow> u64 \<Rightarrow> u64 \<Rightarrow> slip list \<Rightarrow> ConsensusValues \<Rightarrow> ConsensusValues res" where
  "atr_outputs X tx multiplier atr_fee (s1 # s2 # s3 # rest) cv =
     (if nft_triple s1 s2 s3
      then atr_outputs X tx multiplier atr_fee rest (atr_group X tx multiplier atr_fee s1 s2 s3 cv)
      else rbind (atr_single X tx multiplier atr_fee s1 cv)
             (atr_outputs X tx multiplier atr_fee (s2 # s3 # rest)))"
| "atr_outputs X tx multiplier atr_fee [s1, s2] cv =
     rbind (atr_single X tx multiplier atr_fee s1 cv) (atr_outputs X tx multiplier atr_fee [s2])"
| "atr_outputs X tx multiplier atr_fee [s1] cv = atr_single X tx multiplier atr_fee s1 cv"
| "atr_outputs X tx multiplier atr_fee [] cv = Inr cv"

fun atr_transactions ::
  "ext \<Rightarrow> utxoset \<Rightarrow> u64 \<Rightarrow> u64 \<Rightarrow> transaction list \<Rightarrow> ConsensusValues \<Rightarrow> ConsensusValues res" where
  "atr_transactions X u multiplier avg_fee_per_byte [] cv = Inr cv"
| "atr_transactions X u multiplier avg_fee_per_byte (tx # txs) cv =
     rbind (atr_outputs X tx multiplier (of_nat (tx_get_serialized_size tx) * avg_fee_per_byte)
              (atr_collect u (tx_to tx)) cv)
       (atr_transactions X u multiplier avg_fee_per_byte txs)"

text \<open>\<^verbatim>\<open>(x * c) as u64\<close> for a constant \<open>c\<close>: the product rounds, the cast truncates and saturates.\<close>

definition f64_scale :: "rat \<Rightarrow> u64 \<Rightarrow> u64" where
  "f64_scale c x =
     of_nat (min (2 ^ 64 - 1) (nat \<lfloor>f64_round (f64_of_u64 x * f64_round c)\<rfloor>))"

text \<open>The adjustment of one rebroadcast when the payouts exceed the limit.\<close>

definition atr_adjust_tx :: "u64 \<Rightarrow> transaction \<times> u64 \<Rightarrow> (transaction \<times> u64) res" where
  "atr_adjust_tx multiplier = (\<lambda>(tx, total_payout_atr).
     let p = (if length (tx_to tx) = 3 \<and> length (tx_from tx) = 3 \<and>
                 nft_triple (tx_from tx ! 0) (tx_from tx ! 1) (tx_from tx ! 2)
              then 1 else 0) in
     rbind (index_r (tx_from tx) p) (\<lambda>input.
     rbind (index_r (tx_to tx) p) (\<lambda>output.
       let input_amount = slip_amount input;
           new_output_amount = input_amount * multiplier
       in Inr (tx\<lparr>tx_to := (tx_to tx)[p := output\<lparr>slip_amount := new_output_amount\<rparr>]\<rparr>,
               total_payout_atr + new_output_amount - input_amount))))"

fun atr_adjust_txs :: "u64 \<Rightarrow> transaction list \<Rightarrow> u64 \<Rightarrow> (transaction list \<times> u64) res" where
  "atr_adjust_txs multiplier [] payout = Inr ([], payout)"
| "atr_adjust_txs multiplier (tx # txs) payout =
     rbind (atr_adjust_tx multiplier (tx, payout)) (\<lambda>(tx', payout').
     rbind (atr_adjust_txs multiplier txs payout') (\<lambda>(txs', payout''). Inr (tx' # txs', payout'')))"

definition atr_limit :: "block \<Rightarrow> ConsensusValues \<Rightarrow> ConsensusValues res" where
  "atr_limit b cv =
     (let max_total_payout = f64_scale (1 / 20) (b_treasury b) in
      if c_total_payout_atr cv > max_total_payout then
        (if c_total_rebroadcast_nolan cv = 0 then Inl Panic
         else
           (let adjusted_output_multiplier =
                  1 + max_total_payout div c_total_rebroadcast_nolan cv
            in rbind (atr_adjust_txs adjusted_output_multiplier (c_rebroadcasts cv) 0)
                 (\<lambda>(txs, payout).
                   Inr (cv\<lparr>c_rebroadcasts := txs, c_total_payout_atr := payout,
                           c_total_fees_atr := 0\<rparr>))))
      else Inr cv)"

definition previous_value :: "(block \<Rightarrow> u64) \<Rightarrow> block option \<Rightarrow> u64" where
  "previous_value field previous = (case previous of Some p \<Rightarrow> field p | None \<Rightarrow> 0)"

text \<open>The rebroadcasts of a block, with the payout estimated from the previous block.\<close>

definition cv_rebroadcast_block ::
  "ext \<Rightarrow> node_config \<Rightarrow> utxoset \<Rightarrow> block option \<Rightarrow> block \<Rightarrow> block \<Rightarrow> ConsensusValues \<Rightarrow>
   ConsensusValues res" where
  "cv_rebroadcast_block X conf u previous b atr_block cv =
     (let total_utxo_staked =
            cfg_genesis_period conf * previous_value b_avg_nolan_rebroadcast_per_block previous;
          expected_atr_payout =
            (if total_utxo_staked > 0 then previous_value b_treasury previous div total_utxo_staked
             else 0)
      in rbind (atr_transactions X u (1 + expected_atr_payout)
                  (previous_value b_avg_fee_per_byte previous) (b_transactions atr_block) cv) (\<lambda>cv1.
         atr_limit b (cv1\<lparr>c_total_fees_cumulative :=
           c_total_fees_new cv1 + c_total_fees_atr cv1 -
           c_total_fees_paid_by_nonrebroadcast_atr_transactions cv1\<rparr>)))"

text \<open>The block one step beyond the genesis period, when it is on the longest chain and on disk.\<close>

definition cv_rebroadcast ::
  "ext \<Rightarrow> node_config \<Rightarrow> Blockchain \<Rightarrow> disk \<Rightarrow> block option \<Rightarrow> block \<Rightarrow> ConsensusValues \<Rightarrow>
   ConsensusValues res" where
  "cv_rebroadcast X conf bc dk previous b cv =
     (if b_id b > cfg_genesis_period conf + 1 then
        rbind (br_get_longest_chain_block_hash_at_block_id
                 (b_id b - (cfg_genesis_period conf + 1)) (bc_blockring bc)) (\<lambda>hash_opt.
        case hash_opt of
          None \<Rightarrow> Inr cv
        | Some pruned_block_hash \<Rightarrow>
            (case map_of (bc_blocks bc) pruned_block_hash of
               None \<Rightarrow> Inr cv
             | Some pruned_block \<Rightarrow>
                 recover (load_block_from_disk (generate_block_filepath X dk pruned_block) dk)
                   (Inr cv) (\<lambda>loaded.
                   rbind (unwrap_r (block_generate X loaded)) (\<lambda>atr_block.
                     if b_block_type atr_block = BT_Pruned then Inl Panic
                     else cv_rebroadcast_block X conf (bc_utxoset bc) previous b atr_block cv))))
      else Inr cv)"

section \<open>Running averages\<close>

text \<open>\<^verbatim>\<open>(avg - (avg - value) / genesis_period) as u64\<close> in \<^verbatim>\<open>i128\<close>; the quotient truncates.\<close>

definition average_step :: "u64 \<Rightarrow> u64 \<Rightarrow> u64 \<Rightarrow> u64 res" where
  "average_step genesis_period avg x =
     (if genesis_period = 0 then Inl Panic
      else Inr (word_of_int (uint avg - (uint avg - uint x) sdiv uint genesis_period)))"

definition cv_fee_averages ::
  "node_config \<Rightarrow> block option \<Rightarrow> ConsensusValues \<Rightarrow> ConsensusValues res" where
  "cv_fee_averages conf previous cv =
     (let cv1 = cv\<lparr>c_total_fees := c_total_fees_new cv + c_total_fees_atr cv\<rparr>;
          cv2 = (if c_total_bytes_new cv1 > 0
                 then cv1\<lparr>c_fee_per_byte := c_total_fees_new cv1 div c_total_bytes_new cv1\<rparr>
                 else cv1);
          step = average_step (cfg_genesis_period conf)
      in rbind (step (previous_value b_avg_fee_per_byte previous) (c_fee_per_byte cv2)) (\<lambda>a1.
         rbind (step (previous_value b_avg_total_fees previous) (c_total_fees cv2)) (\<lambda>a2.
         rbind (step (previous_value b_avg_total_fees_new previous) (c_total_fees_new cv2)) (\<lambda>a3.
         rbind (step (previous_value b_avg_total_fees_atr previous) (c_total_fees_atr cv2)) (\<lambda>a4.
         rbind (step (previous_value b_avg_nolan_rebroadcast_per_block previous)
                  (c_total_rebroadcast_nolan cv2)) (\<lambda>a5.
           Inr (cv2\<lparr>c_avg_fee_per_byte := a1, c_avg_total_fees := a2, c_avg_total_fees_new := a3,
                    c_avg_total_fees_atr := a4, c_avg_nolan_rebroadcast_per_block := a5\<rparr>)))))))"

text \<open>
  The previous averages of the treasury, graveyard and rebroadcast payouts are the constants zero,
  as in the source (they are never read from the previous block).
\<close>

definition cv_payout_averages ::
  "node_config \<Rightarrow> block option \<Rightarrow> ConsensusValues \<Rightarrow> ConsensusValues res" where
  "cv_payout_averages conf previous cv =
     (let step = average_step (cfg_genesis_period conf)
      in rbind (step (previous_value b_avg_payout_routing previous) (c_total_payout_routing cv)) (\<lambda>a1.
         rbind (step (previous_value b_avg_payout_mining previous) (c_total_payout_mining cv)) (\<lambda>a2.
         rbind (step 0 (c_total_payout_treasury cv)) (\<lambda>a3.
         rbind (step 0 (c_total_payout_graveyard cv)) (\<lambda>a4.
         rbind (step 0 (c_total_payout_atr cv)) (\<lambda>a5.
           Inr (cv\<lparr>c_avg_payout_routing := a1, c_avg_payout_mining := a2,
                   c_avg_payout_treasury := a3, c_avg_payout_graveyard := a4,
                   c_avg_payout_atr := a5\<rparr>)))))))"

section \<open>Payouts\<close>

record payouts =
  po_miner_publickey :: bytes
  po_miner_payout :: u64
  po_router1_payout :: u64
  po_router1_publickey :: bytes
  po_router2_payout :: u64
  po_router2_publickey :: bytes
  po_treasury :: u64
  po_graveyard :: u64

definition payouts_init :: payouts where
  "payouts_init = \<lparr>po_miner_publickey = replicate 33 0, po_miner_payout = 0,
     po_router1_payout = 0, po_router1_publickey = replicate 33 0, po_router2_payout = 0,
     po_router2_publickey = replicate 33 0, po_treasury = 0, po_graveyard = 0\<rparr>"

text \<open>A share is limited to 1.5 times the average fees; the excess goes to the graveyard.\<close>

definition capped :: "u64 \<Rightarrow> u64 \<Rightarrow> u64 \<times> u64" where
  "capped expected maximum =
     (if expected > maximum then (maximum, expected - maximum) else (expected, 0))"

definition payout_cap :: "block \<Rightarrow> u64" where
  "payout_cap p = f64_scale (3 / 2) (b_avg_total_fees p)"

text \<open>Half of the fees of the previous block to the miner, half to a router.\<close>

definition pay_previous :: "ext \<Rightarrow> golden_ticket \<Rightarrow> bytes \<Rightarrow> block \<Rightarrow> payouts res" where
  "pay_previous X golden_ticket random previous_block =
     (let expected_miner_payout = b_total_fees previous_block div 2;
          (miner, excess1) = capped expected_miner_payout (payout_cap previous_block);
          expected_router_payout = b_total_fees previous_block - expected_miner_payout;
          (router1, excess2) = capped expected_router_payout (payout_cap previous_block)
      in rbind (block_find_winning_router X random previous_block) (\<lambda>router1_publickey.
         Inr (payouts_init\<lparr>po_miner_publickey := gt_public_key golden_ticket,
           po_miner_payout := miner, po_router1_payout := router1,
           po_router1_publickey := router1_publickey, po_graveyard := excess1 + excess2\<rparr>)))"

text \<open>The block before it, when it was not paid: half to the treasury, half to a router.\<close>

definition pay_previous_previous ::
  "ext \<Rightarrow> bytes \<Rightarrow> block \<Rightarrow> block \<Rightarrow> payouts \<Rightarrow> payouts res" where
  "pay_previous_previous X random previous_block previous_previous_block po =
     (let expected_treasury = b_total_fees previous_previous_block div 2;
          (treasury, excess1) = capped expected_treasury (payout_cap previous_block);
          expected_router2 = b_total_fees previous_previous_block - expected_treasury;
          (router2, excess2) = capped expected_router2 (payout_cap previous_block)
      in rbind (block_find_winning_router X random previous_previous_block) (\<lambda>router2_publickey.
         Inr (po\<lparr>po_treasury := po_treasury po + treasury, po_router2_payout := router2,
                 po_router2_publickey := router2_publickey,
                 po_graveyard := po_graveyard po + excess1 + excess2\<rparr>)))"

definition cv_winners :: "ext \<Rightarrow> blocks \<Rightarrow> golden_ticket \<Rightarrow> block \<Rightarrow> payouts res" where
  "cv_winners X blocks golden_ticket b =
     (let random1 = hash X (gt_random golden_ticket) in
      case map_of blocks (b_previous_block_hash b) of
        None \<Rightarrow> Inr payouts_init
      | Some previous_block \<Rightarrow>
          rbind (pay_previous X golden_ticket random1 previous_block) (\<lambda>po.
            if b_has_golden_ticket previous_block then Inr po
            else case map_of blocks (b_previous_block_hash previous_block) of
              None \<Rightarrow> Inr po
            | Some previous_previous_block \<Rightarrow>
                pay_previous_previous X (hash X (hash X random1)) previous_block
                  previous_previous_block po))"

definition fee_output :: "u64 \<Rightarrow> u64 \<Rightarrow> bytes \<Rightarrow> u64 \<Rightarrow> SlipType \<Rightarrow> u8 \<Rightarrow> slip" where
  "fee_output block_id non_fee public_key amount ty slip_index =
     slip_default\<lparr>slip_public_key := public_key, slip_amount := amount, slip_slip_type := ty,
       slip_slip_index := slip_index, slip_tx_ordinal := non_fee + 1, slip_block_id := block_id\<rparr>"

text \<open>
  The outputs of the fee transaction with the next slip index and the graveyard contribution.
  A router payout without a router goes to the graveyard.
\<close>

definition fee_miner :: "u64 \<Rightarrow> u64 \<Rightarrow> payouts \<Rightarrow> transaction \<Rightarrow> transaction \<times> u8" where
  "fee_miner block_id non_fee po tx =
     (if po_miner_publickey po \<noteq> replicate 33 0 \<and> po_miner_payout po > 0
      then (tx_add_to_slip
              (fee_output block_id non_fee (po_miner_publickey po) (po_miner_payout po)
                ST_MinerOutput 0) tx, 1)
      else (tx, 0))"

definition fee_router ::
  "u64 \<Rightarrow> u64 \<Rightarrow> u64 \<Rightarrow> bytes \<Rightarrow> transaction \<times> u8 \<times> u64 \<Rightarrow> transaction \<times> u8 \<times> u64" where
  "fee_router block_id non_fee payout public_key = (\<lambda>(tx, slip_index, graveyard).
     if payout > 0 then
       (if public_key \<noteq> replicate 33 0
        then (tx_add_to_slip
                (fee_output block_id non_fee public_key payout ST_RouterOutput slip_index) tx,
              slip_index + 1, graveyard)
        else (tx, slip_index, graveyard + payout))
     else (tx, slip_index, graveyard))"

definition cv_fee_transaction :: "u64 \<Rightarrow> payouts \<Rightarrow> block \<Rightarrow> transaction \<times> u64" where
  "cv_fee_transaction non_fee po b =
     (let tx0 = tx_default\<lparr>tx_transaction_type := TT_Fee, tx_timestamp := b_timestamp b\<rparr>;
          (tx1, i1) = fee_miner (b_id b) non_fee po tx0;
          (tx2, i2, g2) = fee_router (b_id b) non_fee (po_router1_payout po)
                            (po_router1_publickey po) (tx1, i1, po_graveyard po);
          (tx3, i3, g3) = fee_router (b_id b) non_fee (po_router2_payout po)
                            (po_router2_publickey po) (tx2, i2, g2)
      in (tx3, g3))"

definition cv_payouts ::
  "ext \<Rightarrow> Blockchain \<Rightarrow> u64 \<Rightarrow> block \<Rightarrow> ConsensusValues \<Rightarrow> ConsensusValues res" where
  "cv_payouts X bc non_fee b cv =
     (case c_gt_index cv of
        Some gt_index \<Rightarrow>
          rbind (index_r (b_transactions b) gt_index) (\<lambda>tx.
          rbind (gt_deserialize_from_net (tx_data tx)) (\<lambda>golden_ticket.
          rbind (cv_winners X (bc_blocks bc) golden_ticket b) (\<lambda>po.
            let (fee_tx, graveyard) = cv_fee_transaction non_fee po b in
            Inr (cv\<lparr>c_total_payout_mining := po_miner_payout po,
                    c_total_payout_routing := po_router1_payout po + po_router2_payout po,
                    c_fee_transaction := Some fee_tx,
                    c_total_payout_treasury := po_treasury po,
                    c_total_payout_graveyard := graveyard\<rparr>))))
      | None \<Rightarrow>
          Inr (cv\<lparr>c_total_payout_treasury := 0,
                  c_total_payout_graveyard :=
                    (case map_of (bc_blocks bc) (b_previous_block_hash b) of
                       Some previous_block \<Rightarrow>
                         (if b_has_golden_ticket previous_block then 0
                          else case map_of (bc_blocks bc) (b_previous_block_hash previous_block) of
                            Some _ \<Rightarrow> b_previous_block_unpaid previous_block
                          | None \<Rightarrow> 0)
                     | None \<Rightarrow> 0)\<rparr>))"

section \<open>The whole computation\<close>

definition generate_consensus_values ::
  "ext \<Rightarrow> node_config \<Rightarrow> Blockchain \<Rightarrow> disk \<Rightarrow> block \<Rightarrow> ConsensusValues res" where
  "generate_consensus_values X conf bc dk b =
     (let previous = map_of (bc_blocks bc) (b_previous_block_hash b);
          (cv1, non_fee) = cv_count_txs 0 (b_transactions b) (cv_new, 0);
          cv2 = cv_burnfee_difficulty conf previous b cv1;
          cv3 = cv2\<lparr>c_total_fees_cumulative := c_total_fees_new cv2\<rparr>
      in rbind (cv_rebroadcast X conf bc dk previous b cv3) (\<lambda>cv4.
         rbind (cv_fee_averages conf previous cv4) (\<lambda>cv5.
         rbind (cv_payouts X bc non_fee b cv5) (\<lambda>cv6.
           cv_payout_averages conf previous cv6))))"

end
