(* ===== verification/Consensus_Rules.thy ===== *)
theory Consensus_Rules
  imports Consensus_Values
begin

text \<open>
  What the consensus values guarantee, and where they do not: the fees a golden ticket pays out
  are conserved, a running average moves towards the new value and stays between the two, and
  the accounting of automatic rebroadcasts (the limit on payouts, the value seen by the creator
  of a block, the output that is rebroadcast).
\<close>

section \<open>Counting transactions\<close>

definition fee_counted :: "transaction \<Rightarrow> bool" where
  "fee_counted tx \<longleftrightarrow> tx_is_golden_ticket tx \<or> tx_is_normal_transaction tx"

lemma cv_count_fees:
  "c_total_fees_new (fst (cv_count_txs i txs (cv, n))) =
     c_total_fees_new cv + sum_list (map tx_total_fees (filter fee_counted txs)) \<and>
   snd (cv_count_txs i txs (cv, n)) =
     n + of_nat (length (filter (\<lambda>tx. \<not> tx_is_fee_transaction tx) txs))"
proof (induction txs arbitrary: i cv n)
  case (Cons tx txs)
  obtain cv' n' where e: "cv_count_tx i tx (cv, n) = (cv', n')" by (cases "cv_count_tx i tx (cv, n)")
  then have "c_total_fees_new cv' = c_total_fees_new cv + (if fee_counted tx then tx_total_fees tx else 0)"
    and "n' = n + (if tx_is_fee_transaction tx then 0 else 1)"
    by (auto simp: cv_count_tx_def fee_counted_def tx_is_golden_ticket_def tx_is_normal_transaction_def
        tx_is_atr_transaction_def tx_is_fee_transaction_def Let_def split: if_splits)
  then show ?case using Cons.IH [of "i + 1" cv' n'] e by (simp add: add.assoc)
qed simp

section \<open>Conservation of fees\<close>

lemma capped_sum: "fst (capped e m) + snd (capped e m) = e"
  by (simp add: capped_def)

lemma length_fee_miner: "length (tx_to tx) = 0 \<Longrightarrow> length (tx_to (fst (fee_miner i n po tx))) \<le> 1"
  by (simp add: fee_miner_def tx_add_to_slip_def)

definition amounts :: "transaction \<Rightarrow> u64" where
  "amounts tx = sum_list (map slip_amount (tx_to tx))"

lemma fee_miner_amount:
  assumes "tx_to tx = []"
  shows "amounts (fst (fee_miner i n po tx)) =
      (if po_miner_publickey po = replicate 33 0 then 0 else po_miner_payout po)"
    and "length (tx_to (fst (fee_miner i n po tx))) \<le> 1"
  using assms by (auto simp: fee_miner_def amounts_def tx_add_to_slip_def fee_output_def word_gt_0)

lemma fee_router_amount:
  assumes "length (tx_to tx) < 255" and "fee_router i n pay pk (tx, j, g) = (tx', j', g')"
  shows "amounts tx' + g' = amounts tx + g + pay" and "length (tx_to tx') \<le> length (tx_to tx) + 1"
  using assms
  by (auto simp: fee_router_def amounts_def tx_add_to_slip_def fee_output_def word_gt_0 split: if_splits)

lemma cv_fee_transaction_amount:
  assumes "cv_fee_transaction n po b = (tx, g)"
  shows "amounts tx + g = (if po_miner_publickey po = replicate 33 0 then 0 else po_miner_payout po) +
    po_router1_payout po + po_router2_payout po + po_graveyard po"
proof -
  let ?t0 = "tx_default\<lparr>tx_transaction_type := TT_Fee, tx_timestamp := b_timestamp b\<rparr>"
  obtain t1 i1 where 1: "fee_miner (b_id b) n po ?t0 = (t1, i1)"
    by (cases "fee_miner (b_id b) n po ?t0")
  obtain t2 i2 g2 where 2: "fee_router (b_id b) n (po_router1_payout po) (po_router1_publickey po)
      (t1, i1, po_graveyard po) = (t2, i2, g2)" by (metis prod_cases3)
  obtain t3 i3 g3 where 3: "fee_router (b_id b) n (po_router2_payout po) (po_router2_publickey po)
      (t2, i2, g2) = (t3, i3, g3)" by (metis prod_cases3)
  have tx: "tx = t3" "g = g3" using assms by (simp_all add: cv_fee_transaction_def 1 2 3)
  have m: "amounts t1 = (if po_miner_publickey po = replicate 33 0 then 0 else po_miner_payout po)"
    "length (tx_to t1) \<le> 1"
    using fee_miner_amount [of ?t0 "b_id b" n po] 1 by (simp_all add: tx_default_def)
  note r2 = fee_router_amount [OF _ 2] and r3 = fee_router_amount [OF _ 3]
  from m r2 r3 show ?thesis unfolding tx by (simp add: algebra_simps)
qed

definition payouts_total :: "payouts \<Rightarrow> u64" where
  "payouts_total po = po_miner_payout po + po_router1_payout po + po_router2_payout po +
     po_treasury po + po_graveyard po"

lemma pay_previous_total:
  assumes "pay_previous X gt r p = Inr po"
  shows "payouts_total po = b_total_fees p \<and> po_miner_publickey po = gt_public_key gt \<and>
    po_router2_payout po = 0 \<and> po_treasury po = 0"
  using assms
  by (auto simp: pay_previous_def payouts_total_def payouts_init_def capped_def Let_def split: if_splits)

lemma pay_previous_previous_total:
  assumes "pay_previous_previous X r p pp po = Inr po'" and "po_router2_payout po = 0"
  shows "payouts_total po' = payouts_total po + b_total_fees pp \<and>
    po_miner_publickey po' = po_miner_publickey po"
  using assms
  by (auto simp: pay_previous_previous_def payouts_total_def capped_def Let_def split: if_splits)

text \<open>The fees a golden ticket pays out: the previous block, and the one before it if unpaid.\<close>

definition fees_due :: "blocks \<Rightarrow> block \<Rightarrow> u64" where
  "fees_due blocks b =
     (case map_of blocks (b_previous_block_hash b) of
        None \<Rightarrow> 0
      | Some p \<Rightarrow> b_total_fees p +
          (if b_has_golden_ticket p then 0
           else case map_of blocks (b_previous_block_hash p) of None \<Rightarrow> 0 | Some pp \<Rightarrow> b_total_fees pp))"

lemma cv_winners_total:
  assumes "cv_winners X blocks gt b = Inr po"
  shows "payouts_total po = fees_due blocks b \<and>
    (po_miner_publickey po = gt_public_key gt \<or> po_miner_payout po = 0)"
proof (cases "map_of blocks (b_previous_block_hash b)")
  case None
  then show ?thesis using assms by (auto simp: cv_winners_def fees_due_def payouts_total_def payouts_init_def Let_def)
next
  case (Some p)
  then obtain po1 where 1: "pay_previous X gt (hash X (gt_random gt)) p = Inr po1"
    using assms by (auto simp: cv_winners_def Let_def)
  note t = pay_previous_total [OF 1]
  show ?thesis
    using assms t Some 1
    by (auto simp: cv_winners_def fees_due_def Let_def split: if_splits option.splits
        dest!: pay_previous_previous_total)
qed

lemma cv_payouts_conserve:
  assumes "cv_payouts X bc n b cv = Inr cv'" and "c_gt_index cv = Some i"
  shows "\<exists>gt fee_tx. i < length (b_transactions b) \<and>
    gt_deserialize_from_net (tx_data (b_transactions b ! i)) = Inr gt \<and>
    c_fee_transaction cv' = Some fee_tx \<and>
    amounts fee_tx + c_total_payout_treasury cv' + c_total_payout_graveyard cv' +
      (if gt_public_key gt = replicate 33 0 then c_total_payout_mining cv' else 0) =
    fees_due (bc_blocks bc) b"
proof -
  from assms obtain gt po where i: "i < length (b_transactions b)"
    and gt: "gt_deserialize_from_net (tx_data (b_transactions b ! i)) = Inr gt"
    and po: "cv_winners X (bc_blocks bc) gt b = Inr po"
    by (auto simp: cv_payouts_def index_r_def split: if_splits)
  obtain tx g where f: "cv_fee_transaction n po b = (tx, g)" by (cases "cv_fee_transaction n po b")
  have cv': "c_fee_transaction cv' = Some tx" "c_total_payout_treasury cv' = po_treasury po"
    "c_total_payout_graveyard cv' = g" "c_total_payout_mining cv' = po_miner_payout po"
    using assms i gt po f by (auto simp: cv_payouts_def index_r_def)
  have w: "payouts_total po = fees_due (bc_blocks bc) b"
    "po_miner_publickey po = gt_public_key gt \<or> po_miner_payout po = 0"
    using cv_winners_total [OF po] by auto
  have "amounts tx + po_treasury po + g +
      (if gt_public_key gt = replicate 33 0 then po_miner_payout po else 0) = payouts_total po"
    using w(2) cv_fee_transaction_amount [OF f]
    by (cases "gt_public_key gt = replicate 33 0"; cases "po_miner_publickey po = replicate 33 0")
      (simp_all add: payouts_total_def algebra_simps)
  then show ?thesis
    unfolding w(1) using i gt cv' by (cases "gt_public_key gt = replicate 33 0") simp_all
qed

lemma cv_payout_averages_keeps:
  assumes "cv_payout_averages conf p cv = Inr cv'"
  shows "c_gt_index cv' = c_gt_index cv \<and> c_fee_transaction cv' = c_fee_transaction cv \<and>
    c_total_payout_treasury cv' = c_total_payout_treasury cv \<and>
    c_total_payout_graveyard cv' = c_total_payout_graveyard cv \<and>
    c_total_payout_mining cv' = c_total_payout_mining cv \<and>
    c_total_payout_routing cv' = c_total_payout_routing cv \<and>
    c_total_payout_atr cv' = c_total_payout_atr cv \<and>
    c_total_fees_new cv' = c_total_fees_new cv \<and> c_rebroadcasts cv' = c_rebroadcasts cv"
  using assms by (auto simp: cv_payout_averages_def Let_def)

lemma cv_payouts_keeps:
  assumes "cv_payouts X bc n b cv = Inr cv'"
  shows "c_gt_index cv' = c_gt_index cv \<and> c_total_payout_atr cv' = c_total_payout_atr cv \<and>
    c_total_fees_new cv' = c_total_fees_new cv \<and> c_rebroadcasts cv' = c_rebroadcasts cv"
  using assms by (auto simp: cv_payouts_def Let_def case_prod_beta split: option.splits)

text \<open>
  C34. Fees are conserved: in a block with a golden ticket the outputs of the fee transaction,
  the contribution to the treasury and the contribution to the graveyard add up to the fees due,
  those of the previous block and, when that one had no golden ticket, of the block before it.
  The only loss is the miner's share when the golden ticket names the all-zero public key.
\<close>

theorem golden_ticket_pays_out_fees:
  assumes "generate_consensus_values X conf bc dk b = Inr cv" and "c_gt_index cv = Some i"
  shows "\<exists>gt fee_tx. gt_deserialize_from_net (tx_data (b_transactions b ! i)) = Inr gt \<and>
    c_fee_transaction cv = Some fee_tx \<and>
    amounts fee_tx + c_total_payout_treasury cv + c_total_payout_graveyard cv +
      (if gt_public_key gt = replicate 33 0 then c_total_payout_mining cv else 0) =
    fees_due (bc_blocks bc) b"
proof -
  from assms(1) obtain n cv5 cv6 where "cv_payouts X bc n b cv5 = Inr cv6"
    and "cv_payout_averages conf (map_of (bc_blocks bc) (b_previous_block_hash b)) cv6 = Inr cv"
    by (auto simp: generate_consensus_values_def Let_def split: prod.splits)
  then show ?thesis
    using assms(2) cv_payouts_conserve [of X bc n b cv5 cv6 i] cv_payouts_keeps [of X bc n b cv5 cv6]
      cv_payout_averages_keeps
    by (smt (verit))
qed

text \<open>Below \<open>2 ^ 51\<close> the limit on payouts is exactly one and a half times the average.\<close>

lemma f64_scale_three_halves:
  assumes "unat x = n" and "n < 2 ^ 51"
  shows "f64_scale (3 / 2) x = of_nat (3 * n div 2)"
proof -
  have "f64_of_u64 x = of_nat n" unfolding f64_of_u64_def assms(1)
    using f64_round_nat [of n 0] assms(2) by simp
  moreover have "f64_round (3 / 2) = 3 / 2" using f64_round_nat [of 3 1] by simp
  moreover have "f64_round (of_nat n * (3 / 2)) = of_nat (3 * n) / of_nat 2"
    using f64_round_nat [of "3 * n" 1] assms(2) by (simp add: mult.commute)
  moreover have "\<lfloor>of_nat (3 * n) / of_nat 2 :: rat\<rfloor> = int (3 * n div 2)"
    by (rule floor_divide_of_nat_eq)
  ultimately show ?thesis using assms(2) by (simp only: f64_scale_def nat_int) (simp add: min_def)
qed

section \<open>A chain with one block\<close>

definition demo_node_config :: node_config where
  "demo_node_config = \<lparr>cfg_is_spv_mode = False, cfg_is_browser = False, cfg_heartbeat_interval = 2,
     cfg_genesis_period = 10, cfg_prune_after_blocks = 8, cfg_max_staker_recursions = 3,
     cfg_issuance_writing_block_interval = 0, cfg_initial_loading_completed = True\<rparr>"

definition demo_parent :: block where
  "demo_parent = block_new\<lparr>b_id := 1, b_timestamp := 5, b_total_fees := 10, b_avg_total_fees := 100\<rparr>"

definition demo_ticket_tx :: "bytes \<Rightarrow> transaction" where
  "demo_ticket_tx key = tx_default\<lparr>tx_transaction_type := TT_GoldenTicket, tx_data := replicate 64 0 @ key\<rparr>"

definition demo_ticket_block :: "bytes \<Rightarrow> block" where
  "demo_ticket_block key = block_new\<lparr>b_id := 2, b_timestamp := 5, b_previous_block_hash := replicate 32 9,
     b_transactions := [demo_ticket_tx key]\<rparr>"

definition demo_chain :: Blockchain where
  "demo_chain = (bc_new 10 0 0)\<lparr>bc_blocks := [(replicate 32 9, demo_parent)]\<rparr>"

definition demo_disk :: disk where
  "demo_disk = \<lparr>dk_files = Map.empty, dk_block_dir = [], dk_checkpoint_dir = [], dk_writable = True\<rparr>"

lemma demo_count:
  "cv_count_txs 0 (b_transactions (demo_ticket_block key)) (cv_new, 0) =
     (cv_new\<lparr>c_total_bytes_new := of_nat (tx_get_serialized_size (demo_ticket_tx key)),
             c_gt_num := 1, c_gt_index := Some 0\<rparr>, 1)"
  by (simp add: demo_ticket_block_def cv_count_tx_def tx_is_golden_ticket_def tx_is_fee_transaction_def
      tx_is_normal_transaction_def tx_is_atr_transaction_def tx_is_staking_transaction_def
      tx_is_issuance_transaction_def demo_ticket_tx_def tx_default_def cv_new_def)

lemma demo_parent_found: "map_of (bc_blocks demo_chain) (b_previous_block_hash (demo_ticket_block key)) = Some demo_parent"
  by (simp add: demo_chain_def demo_ticket_block_def)

lemma demo_rebroadcast:
  "cv_rebroadcast X demo_node_config demo_chain demo_disk p (demo_ticket_block key) cv = Inr cv"
  by (simp add: cv_rebroadcast_def demo_node_config_def demo_ticket_block_def)

lemma demo_averages: "\<exists>a. average_step (cfg_genesis_period demo_node_config) v x = Inr a"
  by (simp add: average_step_def demo_node_config_def)

lemma demo_winners:
  assumes "length key = 33"
  shows "\<exists>po. cv_winners demo_ext (bc_blocks demo_chain) (gt_new t r key) (demo_ticket_block key) = Inr po \<and>
    po_miner_payout po = 5"
proof -
  have "payout_cap demo_parent = 150"
    using f64_scale_three_halves [of 100 100]
    by (simp add: payout_cap_def demo_parent_def)
  moreover have "b_total_fees demo_parent = 10" "b_has_golden_ticket demo_parent = False"
    "b_transactions demo_parent = []" "b_previous_block_hash demo_parent = replicate 32 0"
    by (simp_all add: demo_parent_def block_new_def)
  ultimately show ?thesis
    by (simp add: cv_winners_def demo_parent_found pay_previous_def capped_def block_find_winning_router_def
        demo_chain_def payouts_init_def demo_ticket_block_def)
qed

lemma demo_ticket_values:
  assumes "length key = 33"
  shows "\<exists>cv. generate_consensus_values demo_ext demo_node_config demo_chain demo_disk (demo_ticket_block key) = Inr cv \<and>
     c_gt_index cv = Some 0 \<and> c_total_payout_mining cv = 5"
proof -
  let ?b = "demo_ticket_block key" and ?p = "Some demo_parent"
  obtain cv2 where 2: "cv2 = cv_burnfee_difficulty demo_node_config ?p ?b
      (cv_new\<lparr>c_total_bytes_new := of_nat (tx_get_serialized_size (demo_ticket_tx key)),
             c_gt_num := 1, c_gt_index := Some 0\<rparr>)" by blast
  have i2: "c_gt_index cv2 = Some 0" by (simp add: 2 cv_burnfee_difficulty_def Let_def)
  obtain cv5 where 5: "cv_fee_averages demo_node_config ?p
      (cv2\<lparr>c_total_fees_cumulative := c_total_fees_new cv2\<rparr>) = Inr cv5" and i5: "c_gt_index cv5 = Some 0"
    using i2 by (simp add: cv_fee_averages_def Let_def average_step_def demo_node_config_def)
  have "gt_deserialize_from_net (tx_data (b_transactions ?b ! 0)) =
      Inr (gt_new (replicate 32 0) (replicate 32 0) key)" and "length (b_transactions ?b) = 1"
    using assms by (simp_all add: demo_ticket_block_def demo_ticket_tx_def gt_deserialize_from_net_def
        subslice_def)
  then obtain cv6 where 6: "cv_payouts demo_ext demo_chain 1 ?b cv5 = Inr cv6"
    "c_total_payout_mining cv6 = 5" "c_gt_index cv6 = Some 0"
    using demo_winners [OF assms, of "replicate 32 0" "replicate 32 0"] i5
    by (auto simp: cv_payouts_def index_r_def case_prod_beta)
  obtain cv where 7: "cv_payout_averages demo_node_config ?p cv6 = Inr cv"
    by (simp add: cv_payout_averages_def Let_def average_step_def demo_node_config_def)
  show ?thesis
    using 6 7 cv_payout_averages_keeps [OF 7]
    by (simp add: generate_consensus_values_def demo_parent_found demo_count 2 [symmetric] demo_rebroadcast 5 Let_def)
qed

theorem golden_ticket_pays_out_fees_witness:
  "\<exists>cv fee_tx. generate_consensus_values demo_ext demo_node_config demo_chain demo_disk
       (demo_ticket_block (replicate 33 7)) = Inr cv \<and> c_fee_transaction cv = Some fee_tx \<and>
     amounts fee_tx + c_total_payout_treasury cv + c_total_payout_graveyard cv = 10"
proof -
  let ?b = "demo_ticket_block (replicate 33 7)"
  obtain cv where cv: "generate_consensus_values demo_ext demo_node_config demo_chain demo_disk ?b = Inr cv"
    "c_gt_index cv = Some 0" using demo_ticket_values [of "replicate 33 7"] by auto
  moreover have "fees_due (bc_blocks demo_chain) ?b = 10"
    by (simp add: fees_due_def demo_parent_found) (simp add: demo_chain_def demo_parent_def block_new_def)
  moreover have "gt_deserialize_from_net (tx_data (b_transactions ?b ! 0)) =
      Inr (gt_new (replicate 32 0) (replicate 32 0) (replicate 33 7))"
    by (simp add: demo_ticket_block_def demo_ticket_tx_def gt_deserialize_from_net_def subslice_def)
  ultimately show ?thesis
    using golden_ticket_pays_out_fees [OF cv] by (auto simp: gt_new_def)
qed

section \<open>Averages\<close>

lemma div_between: "0 \<le> (d :: int) \<Longrightarrow> 0 < g \<Longrightarrow> 0 \<le> d div g \<and> d div g \<le> d"
  using zdiv_mono2 [of d 1 g] by (simp add: pos_imp_zdiv_nonneg_iff)

lemma sdiv_between:
  assumes "0 < (g :: int)"
  shows "0 \<le> d \<Longrightarrow> 0 \<le> d sdiv g \<and> d sdiv g \<le> d" and "d \<le> 0 \<Longrightarrow> d \<le> d sdiv g \<and> d sdiv g \<le> 0"
  using assms div_between [of d g] div_between [of "- d" g]
  by (auto simp: signed_divide_int_def sgn_if)

text \<open>
  A running average is the old average moved towards the new value by the difference divided
  by the genesis period: computed without wrap-around, never leaving the interval between the
  old average and the value.
\<close>

theorem average_moves_towards_value:
  assumes "average_step genesis_period avg x = Inr avg'"
  shows "uint avg' = uint avg - (uint avg - uint x) sdiv uint genesis_period \<and>
    min avg x \<le> avg' \<and> avg' \<le> max avg x"
proof -
  let ?v = "uint avg - (uint avg - uint x) sdiv uint genesis_period"
  have g: "0 < uint genesis_period" and a: "avg' = word_of_int ?v"
    using assms by (auto simp: average_step_def word_neq_0_conv [symmetric] uint_0_iff
        order_less_le split: if_splits)
  have b: "min (uint avg) (uint x) \<le> ?v" "?v \<le> max (uint avg) (uint x)"
    using sdiv_between [OF g, of "uint avg - uint x"] by (auto simp: min_def max_def)
  moreover have "0 \<le> min (uint avg) (uint x)" "max (uint avg) (uint x) < 2 ^ 64"
    using uint_lt2p [of avg] uint_lt2p [of x] by auto
  ultimately have "0 \<le> ?v" "?v < 2 ^ 64" by linarith+
  then have "uint avg' = ?v" unfolding a by (intro word_of_int_inverse) simp_all
  with b show ?thesis by (auto simp: word_le_def min_def max_def split: if_splits)
qed

theorem average_moves_towards_value_witness:
  "average_step 10 100 45 = Inr 95 \<and> min (100 :: u64) 45 \<le> 95"
proof -
  have "average_step 10 100 45 = Inr 95" by (simp add: average_step_def signed_divide_int_def)
  with average_moves_towards_value [OF this] show ?thesis by simp
qed

section \<open>Rebroadcasts\<close>

text \<open>The slip that carries the value of a rebroadcast transaction.\<close>

definition rebroadcast_slot :: "transaction \<Rightarrow> nat" where
  "rebroadcast_slot tx =
     (if length (tx_to tx) = 3 \<and> length (tx_from tx) = 3 \<and>
         nft_triple (tx_from tx ! 0) (tx_from tx ! 1) (tx_from tx ! 2) then 1 else 0)"

lemma atr_adjust_txs_Inr:
  assumes "atr_adjust_txs m txs payout = Inr (txs', payout')"
  shows "list_all2 (\<lambda>tx tx'. tx_from tx' = tx_from tx \<and>
      slip_amount (tx_to tx' ! rebroadcast_slot tx) =
        slip_amount (tx_from tx ! rebroadcast_slot tx) * m) txs txs' \<and>
    payout' = payout + sum_list (map (\<lambda>tx. slip_amount (tx_from tx ! rebroadcast_slot tx) * (m - 1)) txs)"
  using assms
proof (induction txs arbitrary: payout txs' payout')
  case (Cons tx txs)
  let ?a = "slip_amount (tx_from tx ! rebroadcast_slot tx)"
  from Cons.prems obtain tx1 p1 txs1 where 1: "atr_adjust_tx m (tx, payout) = Inr (tx1, p1)"
    and 2: "atr_adjust_txs m txs p1 = Inr (txs1, payout')" and 3: "txs' = tx1 # txs1"
    by auto
  have "tx_from tx1 = tx_from tx" "slip_amount (tx_to tx1 ! rebroadcast_slot tx) = ?a * m"
    and p1: "p1 = payout + ?a * m - ?a"
    using 1 by (auto simp: atr_adjust_tx_def Let_def index_r_def rebroadcast_slot_def
        split: if_splits)
  with Cons.IH [OF 2] show ?case
    unfolding 3 by (simp add: algebra_simps)
qed simp

text \<open>
  The limit on rebroadcast payouts (five percent of the treasury) does not limit them: when it
  applies and is below the amount rebroadcast, every output receives its full unlimited payout
  without a fee, while the payout charged to the treasury becomes zero. The commitment hash of
  the rebroadcasts still covers the transactions before the change.
\<close>

theorem payout_limit_does_not_limit:
  assumes "atr_limit b cv = Inr cv'"
    and "c_total_payout_atr cv > f64_scale (1 / 20) (b_treasury b)"
    and "f64_scale (1 / 20) (b_treasury b) < c_total_rebroadcast_nolan cv"
  shows "c_total_payout_atr cv' = 0 \<and> c_rebroadcast_hash cv' = c_rebroadcast_hash cv \<and>
    list_all2 (\<lambda>tx tx'. tx_from tx' = tx_from tx \<and>
      slip_amount (tx_to tx' ! rebroadcast_slot tx) =
      slip_amount (tx_from tx ! rebroadcast_slot tx)) (c_rebroadcasts cv) (c_rebroadcasts cv')"
proof -
  have "f64_scale (1 / 20) (b_treasury b) div c_total_rebroadcast_nolan cv = 0"
    using assms(3) by (simp add: word_arith_nat_div word_less_nat_alt)
  with assms obtain txs' p where "atr_adjust_txs 1 (c_rebroadcasts cv) 0 = Inr (txs', p)"
    and "cv' = cv\<lparr>c_rebroadcasts := txs', c_total_payout_atr := p, c_total_fees_atr := 0\<rparr>"
    by (auto simp: atr_limit_def Let_def split: if_splits)
  then show ?thesis using atr_adjust_txs_Inr [of 1 "c_rebroadcasts cv" 0 txs' p] by simp
qed

definition demo_rebroadcast_cv :: ConsensusValues where
  "demo_rebroadcast_cv = cv_new\<lparr>c_total_payout_atr := 10, c_total_rebroadcast_nolan := 5,
     c_rebroadcasts := [tx_default\<lparr>tx_from := [slip_default\<lparr>slip_amount := 15\<rparr>],
                                  tx_to := [slip_default\<lparr>slip_amount := 14\<rparr>]\<rparr>]\<rparr>"

lemma f64_scale_zero: "f64_scale c 0 = 0"
  by (simp add: f64_scale_def f64_of_u64_def f64_round_def)

theorem payout_limit_does_not_limit_witness:
  "\<exists>cv'. atr_limit block_new demo_rebroadcast_cv = Inr cv' \<and> c_total_payout_atr cv' = 0 \<and>
     map (map slip_amount \<circ> tx_to) (c_rebroadcasts cv') = [[15]]"
proof -
  let ?tx = "tx_default\<lparr>tx_from := [slip_default\<lparr>slip_amount := 15\<rparr>],
    tx_to := [slip_default\<lparr>slip_amount := 14\<rparr>]\<rparr>"
  have t: "b_treasury block_new = 0" by (simp add: block_new_def)
  obtain cv' where cv': "atr_limit block_new demo_rebroadcast_cv = Inr cv'"
    by (simp add: atr_limit_def t f64_scale_zero demo_rebroadcast_cv_def atr_adjust_tx_def index_r_def)
  have "c_rebroadcasts demo_rebroadcast_cv = [?tx]" by (simp add: demo_rebroadcast_cv_def)
  moreover have "length (tx_to (hd (c_rebroadcasts cv'))) = 1"
    using cv' by (auto simp: atr_limit_def t f64_scale_zero demo_rebroadcast_cv_def atr_adjust_tx_def index_r_def)
  moreover have "rebroadcast_slot ?tx = 0" by (simp add: rebroadcast_slot_def)
  ultimately show ?thesis
    using payout_limit_does_not_limit [OF cv'] cv'
    by (auto simp: t f64_scale_zero demo_rebroadcast_cv_def list_all2_Cons1 length_Suc_conv)
qed

lemma atr_limit_no_treasury:
  assumes "atr_limit b cv = Inr cv'" and "b_treasury b = 0"
  shows "c_total_payout_atr cv' = 0"
proof (cases "c_total_payout_atr cv = 0")
  case False
  with assms obtain txs' p where "atr_adjust_txs 1 (c_rebroadcasts cv) 0 = Inr (txs', p)"
    and "cv' = cv\<lparr>c_rebroadcasts := txs', c_total_payout_atr := p, c_total_fees_atr := 0\<rparr>"
    by (auto simp: atr_limit_def f64_scale_zero Let_def word_gt_0 split: if_splits)
  then show ?thesis using atr_adjust_txs_Inr [of 1 "c_rebroadcasts cv" 0 txs' p] by simp
next
  case True
  then show ?thesis using assms by (auto simp: atr_limit_def f64_scale_zero)
qed

lemma cv_count_tx_payout:
  "cv_count_tx i tx (cv, n) = (cv', n') \<Longrightarrow> c_total_payout_atr cv' = c_total_payout_atr cv"
  by (auto simp: cv_count_tx_def Let_def split: if_splits)

lemma cv_count_payout:
  "c_total_payout_atr (fst (cv_count_txs i txs (cv, n))) = c_total_payout_atr cv"
proof (induction txs arbitrary: i cv n)
  case (Cons tx txs)
  then show ?case
    using cv_count_tx_payout [of i tx cv n] by (cases "cv_count_tx i tx (cv, n)") simp
qed simp

lemma cv_rebroadcast_Inr:
  assumes "cv_rebroadcast X conf bc dk p b cv = Inr cv'"
  shows "cv' = cv \<or> (\<exists>atr_block. cv_rebroadcast_block X conf (bc_utxoset bc) p b atr_block cv = Inr cv')"
proof (cases "b_id b > cfg_genesis_period conf + 1")
  case True
  then obtain ho where "br_get_longest_chain_block_hash_at_block_id
      (b_id b - (cfg_genesis_period conf + 1)) (bc_blockring bc) = Inr ho"
    using assms by (auto simp: cv_rebroadcast_def)
  with True assms show ?thesis
    by (cases ho)
      (auto simp: cv_rebroadcast_def split: if_splits option.splits elim!: recover_eq_InrE)
qed (use assms in \<open>simp add: cv_rebroadcast_def\<close>)

text \<open>
  The limit is taken of the block's own treasury field, which is still zero when a block is
  created: the consensus values of a block under construction never charge a rebroadcast payout
  to the treasury, whatever the treasury of the chain holds.
\<close>

theorem created_values_never_pay_rebroadcasts:
  assumes "generate_consensus_values X conf bc dk b = Inr cv" and "b_treasury b = 0"
  shows "c_total_payout_atr cv = 0"
proof -
  let ?p = "map_of (bc_blocks bc) (b_previous_block_hash b)"
  obtain cv1 n where c: "cv_count_txs 0 (b_transactions b) (cv_new, 0) = (cv1, n)" by force
  let ?cv2 = "cv_burnfee_difficulty conf ?p b cv1"
  let ?cv3 = "?cv2\<lparr>c_total_fees_cumulative := c_total_fees_new ?cv2\<rparr>"
  from assms(1) c obtain cv4 cv5 cv6 where
    4: "cv_rebroadcast X conf bc dk ?p b ?cv3 = Inr cv4" and
    5: "cv_fee_averages conf ?p cv4 = Inr cv5" and
    6: "cv_payouts X bc n b cv5 = Inr cv6" and 7: "cv_payout_averages conf ?p cv6 = Inr cv"
    by (auto simp: generate_consensus_values_def Let_def)
  have "c_total_payout_atr cv1 = 0"
    using cv_count_payout [of 0 "b_transactions b" cv_new 0] c by (simp add: cv_new_def)
  then have "c_total_payout_atr ?cv3 = 0"
    by (simp add: cv_burnfee_difficulty_def Let_def split: option.split)
  with cv_rebroadcast_Inr [OF 4] have "c_total_payout_atr cv4 = 0"
    by (auto simp: cv_rebroadcast_block_def Let_def dest: atr_limit_no_treasury [OF _ assms(2)])
  moreover have "c_total_payout_atr cv5 = c_total_payout_atr cv4"
    using 5 by (auto simp: cv_fee_averages_def Let_def)
  ultimately show ?thesis
    using cv_payouts_keeps [OF 6] cv_payout_averages_keeps [OF 7] by simp
qed

theorem created_values_never_pay_rebroadcasts_witness:
  "\<exists>cv. generate_consensus_values demo_ext demo_node_config demo_chain demo_disk
       (demo_ticket_block (replicate 33 7)) = Inr cv \<and> c_total_payout_atr cv = 0"
proof -
  have t: "b_treasury (demo_ticket_block (replicate 33 7)) = 0"
    by (simp add: demo_ticket_block_def block_new_def)
  obtain cv where cv: "generate_consensus_values demo_ext demo_node_config demo_chain demo_disk
      (demo_ticket_block (replicate 33 7)) = Inr cv"
    using demo_ticket_values [of "replicate 33 7"] by auto
  with created_values_never_pay_rebroadcasts [OF cv t] show ?thesis by blast
qed

lemma to_be_u64_eq: "to_be (a :: u64) = to_be b \<longleftrightarrow> a = b"
  by (metis from_be_to_be_word(4))

lemma key_amount_differs:
  "slip_amount s \<noteq> a \<Longrightarrow> slip_get_utxoset_key (s\<lparr>slip_amount := a\<rparr>) \<noteq> slip_get_utxoset_key s"
  by (simp add: slip_get_utxoset_key_def to_be_u64_eq)

lemma atr_single_rebroadcast:
  assumes "atr_single X tx m fee s cv = Inr cv'" and "slip_amount s * m > fee"
  shows "\<exists>rtx. c_rebroadcasts cv' = c_rebroadcasts cv @ [rtx] \<and>
    tx_from rtx = [slip_generate_utxoset_key (s\<lparr>slip_amount := slip_amount s * m\<rparr>)] \<and>
    (\<exists>t. tx_to rtx = [t] \<and> slip_amount t = slip_amount s * m - fee)"
  using assms
  by (auto simp: atr_single_def Let_def tx_create_rebroadcast_transaction_def cv_push_rebroadcast_def
      tx_generate_total_fees_def tx_add_from_slip_def tx_add_to_slip_def tx_default_def tx_stamp_output_def
      enumerate_eq_zip split: if_splits)

lemma wind_keeps_other_key:
  assumes "u k = Some True" and "list_all (\<lambda>s. slip_utxoset_key s \<noteq> k) (tx_from tx)"
  shows "tx_on_chain_reorganization tx u True k = Some True"
proof -
  have "fold (\<lambda>s u. slip_on_chain_reorganization s u False) ss u k = Some True"
    if "list_all (\<lambda>s. slip_utxoset_key s \<noteq> k) ss" "u k = Some True" for ss and u :: utxoset
    using that by (induction ss arbitrary: u) (auto simp: slip_reorg_frame)
  moreover have "fold (\<lambda>s u. slip_on_chain_reorganization s u True) ss u k = Some True"
    if "u k = Some True" for ss and u :: utxoset
    using that by (induction ss arbitrary: u) (auto simp: slip_on_chain_reorganization_def)
  ultimately show ?thesis using assms by (simp add: tx_on_chain_reorganization_def Let_def)
qed

text \<open>
  Rebroadcasting an output with a payout does not consume it: the input of the rebroadcast
  transaction carries the increased amount, its key in the UTXO set is another one, and winding
  the transaction leaves the original output spendable next to the rebroadcast one.
\<close>

theorem rebroadcast_leaves_original_spendable:
  assumes "atr_single X tx m fee s cv = Inr cv'" and "slip_amount s * m > fee"
    and "slip_amount s * m \<noteq> slip_amount s" and "u (slip_get_utxoset_key s) = Some True"
  shows "\<exists>rtx. c_rebroadcasts cv' = c_rebroadcasts cv @ [rtx] \<and>
    tx_on_chain_reorganization (tx_generate X pk i bid rtx) u True (slip_get_utxoset_key s) = Some True"
proof -
  obtain rtx where r: "c_rebroadcasts cv' = c_rebroadcasts cv @ [rtx]"
    "tx_from rtx = [slip_generate_utxoset_key (s\<lparr>slip_amount := slip_amount s * m\<rparr>)]"
    using atr_single_rebroadcast [OF assms(1,2)] by blast
  then have "list_all (\<lambda>t. slip_utxoset_key t \<noteq> slip_get_utxoset_key s) (tx_from (tx_generate X pk i bid rtx))"
    using key_amount_differs [of s "slip_amount s * m"] assms(3) by (simp add: tx_generate_from)
  with r(1) show ?thesis using wind_keeps_other_key [of u, OF assms(4)] by blast
qed

theorem rebroadcast_leaves_original_spendable_witness:
  "\<exists>cv' rtx. atr_single demo_ext tx_default 3 1 (slip_default\<lparr>slip_amount := 5\<rparr>) cv_new = Inr cv' \<and>
     c_rebroadcasts cv' = [rtx] \<and>
     tx_on_chain_reorganization (tx_generate demo_ext [] 0 12 rtx)
       [slip_get_utxoset_key (slip_default\<lparr>slip_amount := 5\<rparr>) \<mapsto> True] True
       (slip_get_utxoset_key (slip_default\<lparr>slip_amount := 5\<rparr>)) = Some True"
proof -
  let ?s = "slip_default\<lparr>slip_amount := 5\<rparr>"
  obtain cv' where cv': "atr_single demo_ext tx_default 3 1 ?s cv_new = Inr cv'"
    by (simp add: atr_single_def tx_create_rebroadcast_transaction_def Let_def)
  have "c_rebroadcasts cv_new = []" by (simp add: cv_new_def)
  then show ?thesis
    using rebroadcast_leaves_original_spendable
      [OF cv', of "[slip_get_utxoset_key ?s \<mapsto> True]" "[]" 0 12] cv' by auto
qed

text \<open>
  An NFT group is rebroadcast without a fee: the fee is added to the fees of the block, but
  the rebroadcast transaction pays out as much as it takes in.
\<close>

theorem nft_rebroadcast_charges_no_fee:
  assumes "nft_triple s1 s2 s3" and "slip_amount s2 * m > fee"
  shows "\<exists>rtx. c_rebroadcasts (atr_group X tx m fee s1 s2 s3 cv) = c_rebroadcasts cv @ [rtx] \<and>
    tx_total_fees rtx = 0 \<and>
    c_total_fees_atr (atr_group X tx m fee s1 s2 s3 cv) = c_total_fees_atr cv + fee"
  using assms
  by (auto simp: atr_group_def Let_def cv_push_rebroadcast_def nft_triple_def
      tx_create_rebroadcast_bound_transaction_def tx_generate_total_fees_def tx_add_from_slip_def
      tx_add_to_slip_def tx_default_def tx_stamp_output_def slip_counted_amount_def)

theorem nft_rebroadcast_charges_no_fee_witness:
  "\<exists>rtx. c_rebroadcasts (atr_group demo_ext tx_default 1 2 (slip_default\<lparr>slip_slip_type := ST_Bound\<rparr>)
       (slip_default\<lparr>slip_amount := 5\<rparr>) (slip_default\<lparr>slip_slip_type := ST_Bound\<rparr>) cv_new) = [rtx] \<and>
     tx_total_fees rtx = 0"
proof -
  let ?s = "slip_default\<lparr>slip_slip_type := ST_Bound\<rparr>" and ?t = "slip_default\<lparr>slip_amount := 5\<rparr>"
  have "nft_triple ?s ?t ?s" by (simp add: nft_triple_def slip_default_def)
  moreover have "slip_amount ?t * 1 > 2" "c_rebroadcasts cv_new = []" by (simp_all add: cv_new_def)
  ultimately show ?thesis
    using nft_rebroadcast_charges_no_fee [of ?s ?t ?s 2 1 demo_ext tx_default cv_new] by force
qed

end
