(* ===== verification/Winding.thy ===== *)
theory Winding
  imports Consensus_Rules Wallet
begin

text \<open>
  Moving the tip of the chain (\<^verbatim>\<open>consensus/blockchain.rs\<close>): winding and unwinding one block,
  the bookkeeping of \<^verbatim>\<open>on_chain_reorganization\<close> (genesis period, deletion and pruning of old
  blocks, fork id), and the machine of \<^verbatim>\<open>validate\<close> that unwinds the old chain and winds the
  new one. The state is the blockchain with the wallet behind its lock and the disk.

  Indices are \<open>nat\<close>; \<open>length old_chain - 1\<close> is only computed on non-empty chains. The machine
  of \<^verbatim>\<open>validate\<close> is a partial function: \<open>None\<close> when its loop never ends.
\<close>

section \<open>State\<close>

record node =
  nd_blockchain :: Blockchain
  nd_wallet :: Wallet
  nd_disk :: disk

definition with_block :: "bytes \<Rightarrow> block \<Rightarrow> Blockchain \<Rightarrow> Blockchain" where
  "with_block h b bc = bc\<lparr>bc_blocks := AList.update h b (bc_blocks bc)\<rparr>"

section \<open>Loading transactions\<close>

definition upgrade_indexed_block ::
  "ext \<Rightarrow> node_config \<Rightarrow> disk \<Rightarrow> bytes \<Rightarrow> Blockchain \<Rightarrow> Blockchain res" where
  "upgrade_indexed_block X conf dk h bc =
     rbind (ok_or Panic (map_of (bc_blocks bc) h)) (\<lambda>b.
     rbind (block_upgrade_block_to_block_type X dk BT_Full (cfg_is_spv_mode conf) b) (\<lambda>(ok, b').
       Inr (with_block h b' bc)))"

text \<open>The loop over the preceding ids, up to \<^verbatim>\<open>max_staker_recursions\<close> of them.\<close>

fun upgrade_previous_loop ::
  "ext \<Rightarrow> node_config \<Rightarrow> disk \<Rightarrow> u64 \<Rightarrow> u64 list \<Rightarrow> Blockchain \<Rightarrow> Blockchain res" where
  "upgrade_previous_loop X conf dk latest_block_id [] bc = Inr bc"
| "upgrade_previous_loop X conf dk latest_block_id (i # is) bc =
     (if i \<ge> latest_block_id then Inr bc
      else
        rbind (br_get_longest_chain_block_hash_at_block_id (latest_block_id - i) (bc_blockring bc))
          (\<lambda>r. case r of
             Some h \<Rightarrow>
               if bc_is_block_indexed bc h
               then rbind (upgrade_indexed_block X conf dk h bc)
                      (upgrade_previous_loop X conf dk latest_block_id is)
               else upgrade_previous_loop X conf dk latest_block_id is bc
           | None \<Rightarrow> upgrade_previous_loop X conf dk latest_block_id is bc))"

definition upgrade_blocks_for_wind_chain ::
  "ext \<Rightarrow> node_config \<Rightarrow> disk \<Rightarrow> bytes \<Rightarrow> Blockchain \<Rightarrow> Blockchain res" where
  "upgrade_blocks_for_wind_chain X conf dk block_hash bc =
     rbind (upgrade_indexed_block X conf dk block_hash bc) (\<lambda>bc1.
     rbind (ok_or Panic (map_of (bc_blocks bc1) block_hash)) (\<lambda>b.
       upgrade_previous_loop X conf dk (b_id b)
         (map of_nat [1..<unat (cfg_max_staker_recursions conf)]) bc1))"

definition has_total_supply_loaded :: "u64 \<Rightarrow> Blockchain \<Rightarrow> bool res" where
  "has_total_supply_loaded genesis_period bc =
     rbind (br_get_longest_chain_block_hash_at_block_id 1 (bc_blockring bc)) (\<lambda>genesis.
     rbind (bc_get_latest_block_id bc) (\<lambda>latest_block_id.
     rbind (if latest_block_id > genesis_period
            then rbind (br_get_longest_chain_block_hash_at_block_id
                          (latest_block_id - genesis_period) (bc_blockring bc))
                   (\<lambda>r. Inr (r \<noteq> None))
            else Inr False) (\<lambda>has_genesis_period_of_blocks.
       Inr (genesis \<noteq> None \<or> has_genesis_period_of_blocks))))"

section \<open>Validating a block in the state of the chain\<close>

text \<open>
  \<^verbatim>\<open>Block::validate\<close> with the consensus values computed where the source computes them: after
  the checks on the transactions and the signature, and, without using them, in SPV mode.
\<close>

definition validate_in_chain ::
  "ext \<Rightarrow> node_config \<Rightarrow> disk \<Rightarrow> Blockchain \<Rightarrow> bool \<Rightarrow> block \<Rightarrow> bool res" where
  "validate_in_chain X conf dk bc validate_against_utxo b =
     (if b_id b = 0 then Inl Panic
      else if cfg_is_spv_mode conf
        then rbind (generate_consensus_values X conf bc dk b) (\<lambda>_. Inr True)
      else if b_block_type b = BT_Ghost then Inr True
      else if b_transactions b = [] \<and> b_id b \<noteq> 1 \<and> bc_blocks bc \<noteq> [] then Inr False
      else if \<not> verify_signature X (b_pre_hash b) (b_signature b) (b_creator b) then Inr False
      else rbind (generate_consensus_values X conf bc dk b) (\<lambda>cv.
           rbind (bc_context bc) (\<lambda>bx.
             block_validate X conf bx (bc_utxoset bc) cv validate_against_utxo b)))"

section \<open>Old blocks\<close>

definition bc_delete_block :: "ext \<Rightarrow> u64 \<Rightarrow> bytes \<Rightarrow> node \<Rightarrow> (bool \<times> node) res" where
  "bc_delete_block X delete_block_id delete_block_hash nd =
     (let bc = nd_blockchain nd in
      rbind (ok_or Panic (map_of (bc_blocks bc) delete_block_hash)) (\<lambda>b.
        let block_filename = generate_block_filepath X (nd_disk nd) b;
            (w, status) = wallet_delete_block b (nd_wallet nd);
            utxoset = snd (block_delete (bc_utxoset bc) b);
            dk = snd (delete_block_from_disk block_filename (nd_disk nd))
        in rbind (br_delete_block delete_block_id delete_block_hash (bc_blockring bc)) (\<lambda>br.
             Inr (status, nd\<lparr>nd_wallet := w, nd_disk := dk,
               nd_blockchain := bc\<lparr>bc_utxoset := utxoset, bc_blockring := br,
                 bc_blocks := AList.delete delete_block_hash (bc_blocks bc)\<rparr>\<rparr>))))"

fun delete_blocks_loop :: "ext \<Rightarrow> u64 \<Rightarrow> bytes list \<Rightarrow> bool \<Rightarrow> node \<Rightarrow> (bool \<times> node) res" where
  "delete_blocks_loop X delete_block_id [] status nd = Inr (status, nd)"
| "delete_blocks_loop X delete_block_id (h # hs) status nd =
     rbind (bc_delete_block X delete_block_id h nd) (\<lambda>(s, nd').
       delete_blocks_loop X delete_block_id hs (status \<or> s) nd')"

definition bc_delete_blocks :: "ext \<Rightarrow> u64 \<Rightarrow> node \<Rightarrow> (bool \<times> node) res" where
  "bc_delete_blocks X delete_block_id nd =
     rbind (br_get_block_hashes_at_block_id delete_block_id (bc_blockring (nd_blockchain nd)))
       (\<lambda>block_hashes. delete_blocks_loop X delete_block_id block_hashes False nd)"

definition update_genesis_period :: "ext \<Rightarrow> node_config \<Rightarrow> node \<Rightarrow> (bool \<times> node) res" where
  "update_genesis_period X conf nd =
     (let bc = nd_blockchain nd; genesis_period = cfg_genesis_period conf in
      rbind (bc_get_latest_block_id bc) (\<lambda>latest_block_id.
        if latest_block_id \<ge> genesis_period * 2 + 1 then
          (let purge_bid = latest_block_id - genesis_period * 2;
               nd1 = nd\<lparr>nd_blockchain :=
                 bc\<lparr>bc_genesis_block_id := latest_block_id - genesis_period\<rparr>\<rparr>
           in if purge_bid > 0 then bc_delete_blocks X purge_bid nd1 else Inr (False, nd1))
        else Inr (False, nd)))"

fun downgrade_loop :: "bytes list \<Rightarrow> Blockchain \<Rightarrow> Blockchain" where
  "downgrade_loop [] bc = bc"
| "downgrade_loop (h # hs) bc =
     (case map_of (bc_blocks bc) h of
        Some b \<Rightarrow>
          downgrade_loop hs
            (if b_safe_to_prune_transactions b
             then with_block h (snd (block_downgrade_block_to_block_type BT_Pruned b)) bc else bc)
      | None \<Rightarrow> downgrade_loop hs bc)"

definition downgrade_blockchain_data :: "node_config \<Rightarrow> Blockchain \<Rightarrow> Blockchain res" where
  "downgrade_blockchain_data conf bc =
     rbind (bc_get_latest_block_id bc) (\<lambda>latest_block_id.
       if cfg_prune_after_blocks conf > latest_block_id then Inr bc
       else
         rbind (br_get_block_hashes_at_block_id (latest_block_id - cfg_prune_after_blocks conf)
                  (bc_blockring bc)) (\<lambda>hashes. Inr (downgrade_loop hashes bc)))"

section \<open>Bookkeeping at the tip\<close>

text \<open>The fork id replaces the old one when it is not all zero.\<close>

definition bc_update_fork_id :: "u64 \<Rightarrow> Blockchain \<Rightarrow> Blockchain res" where
  "bc_update_fork_id block_id bc =
     rbind (bc_generate_fork_id bc block_id) (\<lambda>f.
       Inr (case f of
         Some fork_id \<Rightarrow> if fork_id \<noteq> replicate 32 0 then bc_set_fork_id fork_id bc else bc
       | None \<Rightarrow> bc))"

definition bc_record_tip :: "u64 \<Rightarrow> bytes \<Rightarrow> Blockchain \<Rightarrow> Blockchain" where
  "bc_record_tip block_id block_hash bc =
     (case map_of (bc_blocks bc) block_hash of
        Some b \<Rightarrow>
          (let bc1 = bc\<lparr>bc_last_block_id := block_id, bc_last_block_hash := b_hash b,
                 bc_last_timestamp := b_timestamp b, bc_last_burnfee := b_burnfee b\<rparr>
           in if bc_lowest_acceptable_timestamp bc1 = 0
              then bc1\<lparr>bc_lowest_acceptable_block_id := block_id,
                       bc_lowest_acceptable_block_hash := b_hash b,
                       bc_lowest_acceptable_timestamp := b_timestamp b\<rparr>
              else bc1)
      | None \<Rightarrow> bc)"

definition bc_downgrade :: "node_config \<Rightarrow> node \<Rightarrow> node res" where
  "bc_downgrade conf nd =
     rbind (downgrade_blockchain_data conf (nd_blockchain nd)) (\<lambda>bc.
       Inr (nd\<lparr>nd_blockchain := bc\<rparr>))"

text \<open>
  Nothing but the pruning happens when a block with this id was already at the tip; the wallet
  then counts as updated.
\<close>

definition bc_on_chain_reorganization ::
  "ext \<Rightarrow> node_config \<Rightarrow> u64 \<Rightarrow> bytes \<Rightarrow> bool \<Rightarrow> node \<Rightarrow> (bool \<times> node) res" where
  "bc_on_chain_reorganization X conf block_id block_hash longest_chain nd =
     (if bc_last_block_id (nd_blockchain nd) \<ge> block_id
      then rbind (bc_downgrade conf nd) (\<lambda>nd1. Inr (True, nd1))
      else
        rbind (if longest_chain
               then rbind (update_genesis_period X conf (nd\<lparr>nd_blockchain :=
                             bc_record_tip block_id block_hash (nd_blockchain nd)\<rparr>)) (\<lambda>(updated, nd1).
                    rbind (bc_update_fork_id block_id (nd_blockchain nd1)) (\<lambda>bc.
                      Inr (updated, nd1\<lparr>nd_blockchain := bc\<rparr>)))
               else Inr (False, nd)) (\<lambda>(updated, nd2).
        rbind (bc_downgrade conf nd2) (\<lambda>nd3. Inr (updated, nd3))))"

section \<open>Winding and unwinding one block\<close>

datatype WindingResult =
    Wind nat bool bool
  | Unwind nat bool "bytes list" bool
  | FinishWithSuccess bool
  | FinishWithFailure

text \<open>The updates for a block that validates.\<close>

definition wind_block ::
  "ext \<Rightarrow> node_config \<Rightarrow> bytes \<Rightarrow> block \<Rightarrow> node \<Rightarrow> (bool \<times> node) res" where
  "wind_block X conf block_hash b nd =
     (let bc = nd_blockchain nd in
      rbind (br_on_chain_reorganization (b_id b) (b_hash b) True (bc_blockring bc)) (\<lambda>br.
      rbind (wallet_on_chain_reorganization b True (cfg_genesis_period conf) (nd_wallet nd))
        (\<lambda>(w, updated1).
        let (utxoset, b') = block_on_chain_reorganization (bc_utxoset bc) True b in
        rbind (bc_on_chain_reorganization X conf (b_id b) block_hash True
                 (nd\<lparr>nd_wallet := w, nd_blockchain :=
                    with_block block_hash b' (bc\<lparr>bc_blockring := br, bc_utxoset := utxoset\<rparr>)\<rparr>))
          (\<lambda>(updated2, nd'). Inr (updated1 \<or> updated2, nd')))))"

definition wind_chain ::
  "ext \<Rightarrow> node_config \<Rightarrow> bytes list \<Rightarrow> bytes list \<Rightarrow> nat \<Rightarrow> bool \<Rightarrow> node \<Rightarrow>
   (WindingResult \<times> node) res" where
  "wind_chain X conf new_chain old_chain current_wind_index wind_failure nd =
     (if wind_failure \<and> new_chain = [] then Inr (FinishWithFailure, nd)
      else
        rbind (index_r new_chain current_wind_index) (\<lambda>block_hash.
        rbind (upgrade_blocks_for_wind_chain X conf (nd_disk nd) block_hash (nd_blockchain nd))
          (\<lambda>bc.
        rbind (ok_or Panic (map_of (bc_blocks bc) block_hash)) (\<lambda>b.
        let nd1 = nd\<lparr>nd_blockchain := bc\<rparr> in
        if b_has_checkpoint b then Inr (FinishWithFailure, nd1)
        else
          rbind (has_total_supply_loaded (cfg_genesis_period conf) bc) (\<lambda>validate_against_utxo.
          rbind (validate_in_chain X conf (nd_disk nd) bc validate_against_utxo b)
            (\<lambda>does_block_validate.
            if does_block_validate then
              rbind (wind_block X conf block_hash b nd1) (\<lambda>(wallet_updated, nd2).
                Inr (if current_wind_index = 0
                     then (if wind_failure then FinishWithFailure
                           else FinishWithSuccess wallet_updated)
                     else Wind (current_wind_index - 1) False wallet_updated, nd2))
            else
              Inr (if current_wind_index = length new_chain - 1
                   then (if old_chain \<noteq> [] then Wind (length old_chain - 1) True False
                         else FinishWithFailure)
                   else Unwind 0 True (drop (current_wind_index + 1) new_chain) False, nd1)))))))"

definition unwind_block ::
  "ext \<Rightarrow> node_config \<Rightarrow> bytes \<Rightarrow> block \<Rightarrow> node \<Rightarrow> (bool \<times> node) res" where
  "unwind_block X conf old_hash b0 nd =
     (let bc = nd_blockchain nd in
      rbind (block_upgrade_block_to_block_type X (nd_disk nd) BT_Full (cfg_is_spv_mode conf) b0)
        (\<lambda>(ok, b).
        let (utxoset, b') = block_on_chain_reorganization (bc_utxoset bc) False b in
        rbind (br_on_chain_reorganization (b_id b') (b_hash b') False (bc_blockring bc)) (\<lambda>br.
        rbind (wallet_on_chain_reorganization b' False (cfg_genesis_period conf) (nd_wallet nd))
          (\<lambda>(w, updated1).
        rbind (bc_on_chain_reorganization X conf (b_id b) (b_hash b) False
                 (nd\<lparr>nd_wallet := w, nd_blockchain :=
                    with_block old_hash b' (bc\<lparr>bc_blockring := br, bc_utxoset := utxoset\<rparr>)\<rparr>))
          (\<lambda>(updated2, nd'). Inr (updated1 \<or> updated2, nd'))))))"

definition unwind_chain ::
  "ext \<Rightarrow> node_config \<Rightarrow> bytes list \<Rightarrow> bytes list \<Rightarrow> nat \<Rightarrow> bool \<Rightarrow> node \<Rightarrow>
   (WindingResult \<times> node) res" where
  "unwind_chain X conf new_chain old_chain current_unwind_index wind_failure nd =
     rbind (index_r old_chain current_unwind_index) (\<lambda>old_hash.
     rbind (ok_or Panic (map_of (bc_blocks (nd_blockchain nd)) old_hash)) (\<lambda>b0.
       if b_has_checkpoint b0 then Inr (FinishWithFailure, nd)
       else
         rbind (unwind_block X conf old_hash b0 nd) (\<lambda>(wallet_updated, nd').
           Inr (if current_unwind_index = length old_chain - 1
                then Wind (length new_chain - 1) wind_failure wallet_updated
                else Unwind (current_unwind_index + 1) wind_failure old_chain wallet_updated,
                nd'))))"

section \<open>The machine of validate\<close>

text \<open>One round of the loop; the unwinding carries the chain it unwinds.\<close>

definition winding_round ::
  "ext \<Rightarrow> node_config \<Rightarrow> bytes list \<Rightarrow> bytes list \<Rightarrow> WindingResult \<Rightarrow> node \<Rightarrow>
   (WindingResult \<times> node) res" where
  "winding_round X conf new_chain old_chain r nd =
     (case r of
        Wind i wind_failure status \<Rightarrow> wind_chain X conf new_chain old_chain i wind_failure nd
      | Unwind i wind_failure chain status \<Rightarrow> unwind_chain X conf new_chain chain i wind_failure nd
      | _ \<Rightarrow> Inr (r, nd))"

fun winding_status :: "WindingResult \<Rightarrow> bool" where
  "winding_status (Wind i wind_failure status) = status"
| "winding_status (Unwind i wind_failure chain status) = status"
| "winding_status (FinishWithSuccess status) = status"
| "winding_status FinishWithFailure = False"

partial_function (option) winding_loop ::
  "ext \<Rightarrow> node_config \<Rightarrow> bytes list \<Rightarrow> bytes list \<Rightarrow> WindingResult \<Rightarrow> bool \<Rightarrow> node \<Rightarrow>
   ((bool \<times> bool) \<times> node) res option" where
  "winding_loop X conf new_chain old_chain r status nd =
     (case r of
        FinishWithSuccess wallet_updated \<Rightarrow> Some (Inr ((True, status \<or> wallet_updated), nd))
      | FinishWithFailure \<Rightarrow> Some (Inr ((False, status), nd))
      | _ \<Rightarrow>
          (case winding_round X conf new_chain old_chain r nd of
             Inl e \<Rightarrow> Some (Inl e)
           | Inr (r', nd') \<Rightarrow>
               winding_loop X conf new_chain old_chain r' (status \<or> winding_status r) nd'))"

definition bc_validate ::
  "ext \<Rightarrow> node_config \<Rightarrow> bytes list \<Rightarrow> bytes list \<Rightarrow> node \<Rightarrow> ((bool \<times> bool) \<times> node) res option" where
  "bc_validate X conf new_chain old_chain nd =
     (case rbind (index_r new_chain 0) (\<lambda>h. ok_or Panic (map_of (bc_blocks (nd_blockchain nd)) h)) of
        Inl e \<Rightarrow> Some (Inl e)
      | Inr b \<Rightarrow>
          if \<not> bc_is_golden_ticket_count_valid (nd_blockchain nd) (b_previous_block_hash b)
                 (b_has_golden_ticket b) (cfg_is_browser conf) (cfg_is_spv_mode conf)
          then Some (Inr ((False, False), nd))
          else winding_loop X conf new_chain old_chain
                 (if old_chain = [] then Wind (length new_chain - 1) False False
                  else Unwind 0 True old_chain False) False nd)"

end
