(* ===== verification/Block_Rules.thy ===== *)
theory Block_Rules
  imports Block_Codec
begin

text \<open>
  What the rules for blocks give: the effect of a block on the UTXO set can be undone when its
  transactions do not spend each other's outputs, the block hash commits to the signed part of
  the header, an accepted block satisfies the header rules, and exactly which transactions the
  double-spend checks of \<^verbatim>\<open>generate\<close> and \<^verbatim>\<open>validate\<close> look at.
\<close>

section \<open>Winding and unwinding a block\<close>

definition block_wind :: "block \<Rightarrow> utxoset \<Rightarrow> utxoset" where
  "block_wind b u = fst (block_on_chain_reorganization u True b)"

definition block_unwind :: "block \<Rightarrow> utxoset \<Rightarrow> utxoset" where
  "block_unwind b u = fst (block_on_chain_reorganization u False b)"

definition positive_keys :: "slip list \<Rightarrow> bytes set" where
  "positive_keys ss = slip_utxoset_key ` {s \<in> set ss. slip_amount s > 0}"

definition block_inputs :: "block \<Rightarrow> slip list" where
  "block_inputs b = concat (map tx_from (b_transactions b))"

definition block_outputs :: "block \<Rightarrow> slip list" where
  "block_outputs b = concat (map tx_to (b_transactions b))"

lemma positive_keys_iff:
  "k \<in> positive_keys ss \<longleftrightarrow> (\<exists>s \<in> set ss. slip_amount s > 0 \<and> slip_utxoset_key s = k)"
  by (auto simp: positive_keys_def)

lemma positive_keys_append [simp]:
  "positive_keys (xs @ ys) = positive_keys xs \<union> positive_keys ys"
  by (auto simp: positive_keys_def)

lemma tx_reorg_keys:
  "tx_on_chain_reorganization tx u lc k =
     (if k \<in> positive_keys (tx_to tx) then (if lc then Some True else None)
      else if k \<in> positive_keys (tx_from tx) then (if lc then None else Some True) else u k)"
  unfolding positive_keys_iff by (rule tx_reorg_lookup)

text \<open>When no transaction touches a key as input that another creates, the order is immaterial.\<close>

lemma fold_tx_reorg:
  assumes "positive_keys (concat (map tx_from txs)) \<inter> positive_keys (concat (map tx_to txs)) = {}"
  shows "fold (\<lambda>tx u. tx_on_chain_reorganization tx u lc) txs u k =
     (if k \<in> positive_keys (concat (map tx_to txs)) then (if lc then Some True else None)
      else if k \<in> positive_keys (concat (map tx_from txs)) then (if lc then None else Some True)
      else u k)"
  using assms
proof (induction txs arbitrary: u)
  case Nil
  then show ?case by (simp add: positive_keys_def)
next
  case (Cons tx txs)
  then have "positive_keys (concat (map tx_from txs)) \<inter> positive_keys (concat (map tx_to txs)) = {}"
    by auto
  with Cons show ?case by (auto simp: tx_reorg_keys)
qed

text \<open>
  Admissible on a UTXO set, as validation checks it: every input of the block is spendable
  before the block, every output is new.
\<close>

definition block_applicable :: "block \<Rightarrow> utxoset \<Rightarrow> bool" where
  "block_applicable b u \<longleftrightarrow>
     list_all (\<lambda>s. slip_validate s u) (block_inputs b) \<and>
     list_all (\<lambda>s. slip_amount s > 0 \<longrightarrow> u (slip_utxoset_key s) = None) (block_outputs b)"

lemma block_unwind_wind:
  assumes "block_applicable b u"
  shows "block_unwind b (block_wind b u) = u"
proof
  fix k
  have ins: "u k = Some True" if "k \<in> positive_keys (block_inputs b)" for k
    using assms that by (auto simp: block_applicable_def positive_keys_def list_all_iff slip_validate_iff)
  have outs: "u k = None" if "k \<in> positive_keys (block_outputs b)" for k
    using assms that by (auto simp: block_applicable_def positive_keys_def list_all_iff)
  have "positive_keys (block_inputs b) \<inter> positive_keys (block_outputs b) = {}"
    using ins outs by fastforce
  then show "block_unwind b (block_wind b u) k = u k"
    using ins [of k] outs [of k]
    by (simp add: block_unwind_def block_wind_def block_on_chain_reorganization_def
        block_inputs_def block_outputs_def fold_tx_reorg)
qed

interpretation block_rev: reversible block_wind block_unwind block_applicable
  by unfold_locales (rule block_unwind_wind)


text \<open>
  Unwinding handles the transactions of a block in the order of the block, not in reverse:
  when a transaction spends an output created earlier in the same block, winding and unwinding
  the block leaves that output spendable although it did not exist before.
\<close>

theorem block_unwind_keeps_chained_output:
  assumes "b_transactions b = [t1, t2]" and "s \<in> set (tx_to t1)" and "s \<in> set (tx_from t2)"
    and "slip_amount s > 0" and "slip_utxoset_key s \<notin> positive_keys (tx_to t2)"
    and "u (slip_utxoset_key s) = None"
  shows "block_unwind b (block_wind b u) (slip_utxoset_key s) = Some True"
proof -
  have "slip_utxoset_key s \<in> positive_keys (tx_from t2)" "slip_utxoset_key s \<in> positive_keys (tx_to t1)"
    using assms(2-4) by (auto simp: positive_keys_def)
  with assms show ?thesis
    by (simp add: block_unwind_def block_wind_def block_on_chain_reorganization_def tx_reorg_keys)
qed

definition demo_chained :: block where
  "demo_chained = block_new\<lparr>b_transactions :=
     [tx_default\<lparr>tx_to := [demo_out 1]\<rparr>,
      tx_default\<lparr>tx_from := [demo_out 1], tx_to := [demo_out 2]\<rparr>]\<rparr>"

lemma demo_out_facts:
  "slip_amount (demo_out n) = 5"
  "slip_utxoset_key (demo_out 1) \<noteq> slip_utxoset_key (demo_out 2)"
  by (simp_all add: demo_out_def slip_get_utxoset_key_def slip_default_def)

theorem block_unwind_keeps_chained_output_witness:
  "block_unwind demo_chained (block_wind demo_chained Map.empty) (slip_utxoset_key (demo_out 1)) =
   Some True"
proof -
  have "slip_utxoset_key (demo_out 1) \<notin> positive_keys [demo_out 2]"
    using demo_out_facts(2) by (auto simp: positive_keys_def)
  then show ?thesis
    using block_unwind_keeps_chained_output
      [of demo_chained "tx_default\<lparr>tx_to := [demo_out 1]\<rparr>"
        "tx_default\<lparr>tx_from := [demo_out 1], tx_to := [demo_out 2]\<rparr>" "demo_out 1" Map.empty]
    by (simp add: demo_chained_def demo_out_facts)
qed

definition demo_block1 :: block where
  "demo_block1 = block_new\<lparr>b_transactions := [tx_default\<lparr>tx_to := [demo_out 1]\<rparr>]\<rparr>"

definition demo_block2 :: block where
  "demo_block2 = block_new\<lparr>b_transactions :=
     [tx_default\<lparr>tx_from := [demo_out 1], tx_to := [demo_out 2]\<rparr>]\<rparr>"


section \<open>What the block hash commits to\<close>

definition block_hash_of :: "ext \<Rightarrow> block \<Rightarrow> bytes" where
  "block_hash_of X b = b_hash (block_generate_hash X (block_generate_pre_hash X b))"

lemma block_hash_of_eq:
  "block_hash_of X b = hash X (b_previous_block_hash b @ hash X (block_serialize_for_signature b))"
  by (simp add: block_hash_of_def block_generate_hash_def block_generate_pre_hash_def
      block_serialize_for_hash_def block_serialize_for_signature_def)

text \<open>The two strings hashed for each block.\<close>

definition block_hash_inputs :: "ext \<Rightarrow> block \<Rightarrow> bytes list" where
  "block_hash_inputs X b =
     [block_serialize_for_signature b,
      b_previous_block_hash b @ hash X (block_serialize_for_signature b)]"

definition block_signed_fields :: "block \<Rightarrow> u64 list \<times> bytes list" where
  "block_signed_fields b =
     ([b_id b, b_timestamp b, b_graveyard b, b_treasury b, b_burnfee b, b_difficulty b,
       b_avg_fee_per_byte b, b_avg_nolan_rebroadcast_per_block b, b_previous_block_unpaid b,
       b_avg_total_fees b, b_avg_total_fees_new b, b_avg_total_fees_atr b,
       b_avg_payout_routing b, b_avg_payout_mining b],
      [b_previous_block_hash b, b_creator b, b_merkle_root b])"

lemma block_signature_injective:
  assumes "block_wf b" and "block_wf b'"
    and "block_serialize_for_signature b = block_serialize_for_signature b'"
  shows "block_signed_fields b = block_signed_fields b'"
  using assms
  by (simp add: block_serialize_for_signature_def block_signed_fields_def block_wf_def
      to_be_inject_u64)

definition collision_free :: "ext \<Rightarrow> bytes list \<Rightarrow> bytes list \<Rightarrow> bool" where
  "collision_free X xs ys \<longleftrightarrow>
     list_all (\<lambda>a. list_all (\<lambda>b. hash X a = hash X b \<longrightarrow> a = b) ys) xs"

text \<open>
  C32. The hash of a block commits to the part of the header that is signed: two blocks with the
  same hash agree on those fields, unless two of the four strings hashed for them collide. It
  commits to nothing else: the other header values (total fees, total payouts, three of the
  payout averages, the fee per byte) and the signature can be changed without changing the
  hash.
\<close>

theorem block_hash_commits:
  assumes "block_wf b" and "block_wf b'"
    and "collision_free X (block_hash_inputs X b) (block_hash_inputs X b')"
    and "block_hash_of X b = block_hash_of X b'"
  shows "block_signed_fields b = block_signed_fields b' \<and>
    block_hash_of X (b\<lparr>b_total_fees := v1, b_total_fees_new := v2, b_total_fees_atr := v3,
      b_total_fees_cumulative := v4, b_total_payout_routing := v5, b_total_payout_mining := v6,
      b_total_payout_treasury := v7, b_total_payout_graveyard := v8, b_total_payout_atr := v9,
      b_avg_payout_treasury := v10, b_avg_payout_graveyard := v11, b_avg_payout_atr := v12,
      b_fee_per_byte := v13, b_signature := sig\<rparr>) = block_hash_of X b"
proof -
  have "b_previous_block_hash b @ hash X (block_serialize_for_signature b) =
      b_previous_block_hash b' @ hash X (block_serialize_for_signature b')"
    using assms(3,4) by (simp add: collision_free_def block_hash_inputs_def block_hash_of_eq)
  then have "hash X (block_serialize_for_signature b) = hash X (block_serialize_for_signature b')"
    using assms(1,2) by (simp add: block_wf_def)
  then have "block_serialize_for_signature b = block_serialize_for_signature b'"
    using assms(3) by (simp add: collision_free_def block_hash_inputs_def)
  then show ?thesis
    using block_signature_injective [OF assms(1,2)]
    by (simp add: block_hash_of_eq block_serialize_for_signature_def)
qed

theorem block_hash_commits_witness:
  "\<exists>b b'. block_wf b \<and> block_wf b' \<and> b \<noteq> b' \<and>
     collision_free demo_ext (block_hash_inputs demo_ext b) (block_hash_inputs demo_ext b') \<and>
     block_hash_of demo_ext b = block_hash_of demo_ext b' \<and>
     block_signed_fields b = block_signed_fields b'"
proof -
  let ?b = "block_new\<lparr>b_id := 1\<rparr>" and ?b' = "block_new\<lparr>b_id := 1, b_total_fees := 1\<rparr>"
  have wf: "block_wf ?b" "block_wf ?b'" by (simp_all add: block_wf_def block_new_def)
  have ser: "block_serialize_for_signature ?b' = block_serialize_for_signature ?b"
    by (simp add: block_serialize_for_signature_def)
  have one: "to_be (1 :: u64) = [0, 0, 0, 0, 0, 0, 0, 1]" by code_simp
  have "demo_hash (block_serialize_for_signature ?b) ! 7 = 1"
    "demo_hash (b_previous_block_hash ?b @ r) ! 7 = 0" for r
    by (simp_all add: demo_hash_def block_serialize_for_signature_def one nth_append block_new_def)
  then have "hash demo_ext (block_serialize_for_signature ?b) \<noteq> hash demo_ext (b_previous_block_hash ?b @ r)" for r
    unfolding hash_def demo_ext_def by (metis ext.select_convs(1) zero_neq_one)
  then have cf: "collision_free demo_ext (block_hash_inputs demo_ext ?b) (block_hash_inputs demo_ext ?b')"
    using ser by (simp add: collision_free_def block_hash_inputs_def)
      (metis (no_types, lifting))
  have eq: "block_hash_of demo_ext ?b = block_hash_of demo_ext ?b'"
    using ser by (simp add: block_hash_of_eq)
  have "?b \<noteq> ?b'" by (simp add: block_new_def)
  then show ?thesis
    using wf cf eq block_hash_commits [OF wf cf eq] by blast
qed

section \<open>What an accepted block satisfies\<close>

text \<open>The keys the double-spend check counts.\<close>

definition counted_keys :: "slip list \<Rightarrow> bytes list" where
  "counted_keys ss = map slip_get_utxoset_key
     (filter (\<lambda>s. slip_amount s \<noteq> 0 \<and> slip_slip_type s \<noteq> ST_Bound) ss)"

lemma block_spend_keys_iff:
  "(\<exists>keys'. block_spend_keys ss keys = Some keys') \<longleftrightarrow>
     distinct (counted_keys ss) \<and> set (counted_keys ss) \<inter> set keys = {}"
  by (induction ss keys rule: block_spend_keys.induct) (auto simp: counted_keys_def)

lemma block_spend_keys_set:
  "block_spend_keys ss keys = Some keys' \<Longrightarrow> set keys' = set (counted_keys ss) \<union> set keys"
  by (induction ss keys rule: block_spend_keys.induct) (auto simp: counted_keys_def split: if_splits)

lemma counted_keys_append [simp]: "counted_keys (xs @ ys) = counted_keys xs @ counted_keys ys"
  by (simp add: counted_keys_def)

text \<open>The transactions whose inputs the check looks at: the valid ones that are not fees.\<close>

definition checked_txs :: "ext \<Rightarrow> utxoset \<Rightarrow> chain_view \<Rightarrow> bool \<Rightarrow> transaction list \<Rightarrow> transaction list" where
  "checked_txs X u bc v txs =
     filter (\<lambda>tx. tx_validate X u bc v tx = Inr True \<and> tx_transaction_type tx \<noteq> TT_Fee) txs"

lemma transactions_valid_eq:
  "block_transactions_valid X u bc v txs keys =
     Inr (distinct (counted_keys (concat (map tx_from (checked_txs X u bc v txs)))) \<and>
          set (counted_keys (concat (map tx_from (checked_txs X u bc v txs)))) \<inter> set keys = {})"
proof (induction txs arbitrary: keys)
  case Nil
  then show ?case by (simp add: checked_txs_def counted_keys_def)
next
  case (Cons tx txs)
  obtain r where r: "tx_validate X u bc v tx = Inr r" using tx_validate_total by blast
  show ?case
  proof (cases "r \<and> tx_transaction_type tx \<noteq> TT_Fee")
    case True
    then have chk: "checked_txs X u bc v (tx # txs) = tx # checked_txs X u bc v txs"
      using r by (simp add: checked_txs_def)
    show ?thesis
    proof (cases "block_spend_keys (tx_from tx) keys")
      case None
      then have "\<not> (distinct (counted_keys (tx_from tx)) \<and> set (counted_keys (tx_from tx)) \<inter> set keys = {})"
        using block_spend_keys_iff [of "tx_from tx" keys] by simp
      with None True r chk show ?thesis by auto
    next
      case (Some keys')
      then have "distinct (counted_keys (tx_from tx)) \<and> set (counted_keys (tx_from tx)) \<inter> set keys = {}"
        using block_spend_keys_iff [of "tx_from tx" keys] by simp
      with Some True r chk show ?thesis
        using Cons.IH [of keys'] block_spend_keys_set [OF Some] by auto
    qed
  next
    case False
    then have "checked_txs X u bc v (tx # txs) = checked_txs X u bc v txs"
      using r by (auto simp: checked_txs_def)
    with False r Cons.IH show ?thesis by auto
  qed
qed

text \<open>
  The transaction check of a block is a double-spend check only: it fails exactly when two
  inputs of the transactions that validate (fees apart) are the same slip. A transaction that
  does not validate never makes it fail, because the closure returns true for it.
\<close>

theorem block_transaction_check_exact:
  "block_transactions_valid X u bc v txs [] =
     Inr (distinct (counted_keys (concat (map tx_from (checked_txs X u bc v txs)))))"
  by (simp add: transactions_valid_eq)

lemma block_validate_True:
  assumes "block_validate X conf bx u cv v b = Inr True"
    and "\<not> cfg_is_spv_mode conf" and "b_block_type b \<noteq> BT_Ghost"
    and "map_of (bx_blocks bx) (b_previous_block_hash b) = Some p" and "b_block_type p \<noteq> BT_Ghost"
  shows "block_validate_header X bx cv v b"
    and "block_validate_previous X conf cv v p b = Inr (Some True)"
    and "block_validate_contents X conf bx u cv v b = Inr True"
proof -
  have not_ghost: "block_validate_previous X conf cv v p b \<noteq> Inr None"
    using assms(5) unfolding block_validate_previous_def Let_def
    by (simp split: option.split)
  from assms(1-4) have header: "block_validate_header X bx cv v b"
    and rest: "rbind (block_validate_previous X conf cv v p b) (\<lambda>prev.
        case prev of None \<Rightarrow> Inr True | Some False \<Rightarrow> Inr False
        | Some True \<Rightarrow> block_validate_contents X conf bx u cv v b) = Inr True"
    unfolding block_validate_def by (simp_all split: if_splits)
  from rest obtain prev where "block_validate_previous X conf cv v p b = Inr prev"
    "(case prev of None \<Rightarrow> Inr True | Some False \<Rightarrow> Inr False
      | Some True \<Rightarrow> block_validate_contents X conf bx u cv v b) = Inr True"
    by (simp only: rbind_eq_Inr) blast
  with not_ghost header show "block_validate_header X bx cv v b"
    "block_validate_previous X conf cv v p b = Inr (Some True)"
    "block_validate_contents X conf bx u cv v b = Inr True"
    by (auto split: option.splits bool.splits)
qed

lemma block_validate_contents_True:
  assumes "block_validate_contents X conf bx u cv v b = Inr True"
  shows "v \<longrightarrow> c_rebroadcast_hash cv = b_rebroadcast_hash b"
    and "block_transactions_valid X u (bx_view bx) v (b_transactions b) [] = Inr True"
  using assms unfolding block_validate_contents_def by (auto split: if_splits)

text \<open>What the rules on the previous block give.\<close>

lemma block_validate_previous_True:
  assumes "block_validate_previous X conf cv v p b = Inr (Some True)"
  shows "b_total_work b \<ge> return_routing_work_needed_to_produce_block_in_nolan
      (b_burnfee p) (b_timestamp b) (b_timestamp p) (cfg_heartbeat_interval conf) \<and>
    (v \<longrightarrow> b_treasury b = b_treasury p + c_total_payout_treasury cv - c_total_payout_atr cv \<and>
           b_graveyard b = b_graveyard p + c_total_payout_graveyard cv) \<and>
    (case c_gt_index cv of
       None \<Rightarrow> b_previous_block_unpaid b = b_total_fees p
     | Some i \<Rightarrow> b_previous_block_unpaid b = 0 \<and> i < length (b_transactions b) \<and>
         (\<exists>g. gt_deserialize_from_net (tx_data (b_transactions b ! i)) = Inr g \<and>
              gt_validate X (gt_create (b_hash p) (gt_random g) (gt_public_key g)) (b_difficulty p)))"
  using assms
  by (auto simp: block_validate_previous_def index_r_def Let_def not_less split: if_splits option.splits)

text \<open>
  C27. A full block that validates against its previous block is signed by its creator, carries
  the computed burn fee and difficulty (and, when checked against the UTXO set, all computed
  fees, payouts, treasury and graveyard), has at least the routing work the elapsed time
  requires, settles the previous block's fees exactly as its golden ticket or the lack of one
  demands, has a golden ticket that meets the previous block's difficulty for that block's
  hash, and no two valid non-fee transactions in it spend the same slip.
\<close>

theorem validated_block_sound:
  assumes "block_validate X conf bx u cv v b = Inr True"
    and "\<not> cfg_is_spv_mode conf" and "b_block_type b \<noteq> BT_Ghost"
    and "map_of (bx_blocks bx) (b_previous_block_hash b) = Some p" and "b_block_type p \<noteq> BT_Ghost"
  shows "verify_signature X (b_pre_hash b) (b_signature b) (b_creator b) \<and>
    b_burnfee b = c_burnfee cv \<and> b_difficulty b = c_difficulty cv \<and>
    (v \<longrightarrow> block_matches_cv cv b \<and> b_rebroadcast_hash b = c_rebroadcast_hash cv \<and>
       b_treasury b = b_treasury p + c_total_payout_treasury cv - c_total_payout_atr cv \<and>
       b_graveyard b = b_graveyard p + c_total_payout_graveyard cv) \<and>
    b_total_work b \<ge> return_routing_work_needed_to_produce_block_in_nolan
      (b_burnfee p) (b_timestamp b) (b_timestamp p) (cfg_heartbeat_interval conf) \<and>
    (case c_gt_index cv of
       None \<Rightarrow> b_previous_block_unpaid b = b_total_fees p
     | Some i \<Rightarrow> b_previous_block_unpaid b = 0 \<and> i < length (b_transactions b) \<and>
         (\<exists>g. gt_deserialize_from_net (tx_data (b_transactions b ! i)) = Inr g \<and>
              gt_validate X (gt_create (b_hash p) (gt_random g) (gt_public_key g)) (b_difficulty p))) \<and>
    distinct (counted_keys (concat (map tx_from (checked_txs X u (bx_view bx) v (b_transactions b)))))"
proof -
  note parts = block_validate_True [OF assms]
  note contents = block_validate_contents_True [OF parts(3)]
  have "distinct (counted_keys (concat (map tx_from (checked_txs X u (bx_view bx) v (b_transactions b)))))"
    using contents(2) by (simp add: transactions_valid_eq)
  moreover note block_validate_previous_True [OF parts(2)]
  moreover have "verify_signature X (b_pre_hash b) (b_signature b) (b_creator b)"
    "b_burnfee b = c_burnfee cv" "b_difficulty b = c_difficulty cv" "v \<longrightarrow> block_matches_cv cv b"
    using parts(1) unfolding block_validate_header_def by simp_all
  ultimately show ?thesis using contents(1) by metis
qed

text \<open>
  C33. An accepted block stays accepted, for the same consensus values, when a transaction that
  does not validate is appended to it: neither the transaction nor the Merkle root, which is
  recomputed only when it is zero, is checked.
\<close>

theorem block_accepts_invalid_transaction:
  assumes "block_validate X conf bx u cv v b = Inr True"
    and "b_merkle_root b \<noteq> replicate 32 0" and "b_transactions b \<noteq> []"
    and "tx_validate X u (bx_view bx) v tx = Inr False"
    and "\<forall>i. c_ft_index cv = Some i \<or> c_gt_index cv = Some i \<longrightarrow> i < length (b_transactions b)"
  shows "block_validate X conf bx u cv v (b\<lparr>b_transactions := b_transactions b @ [tx]\<rparr>) = Inr True"
proof -
  let ?b = "b\<lparr>b_transactions := b_transactions b @ [tx]\<rparr>"
  have idx: "index_r (b_transactions b @ [tx]) i = index_r (b_transactions b) i"
    if "c_ft_index cv = Some i \<or> c_gt_index cv = Some i" for i
    using assms(5) that by (auto simp: index_r_def nth_append)
  have "block_validate_previous X conf cv v p ?b = block_validate_previous X conf cv v p b" for p
    using idx by (auto simp: block_validate_previous_def split: option.split)
  moreover have fee: "block_validate_fee_transaction X cv v ?b = block_validate_fee_transaction X cv v b"
    using idx by (auto simp: block_validate_fee_transaction_def split: option.split)
  moreover have chk: "checked_txs X u (bx_view bx) v (b_transactions b @ [tx]) =
      checked_txs X u (bx_view bx) v (b_transactions b)"
    using assms(4) by (simp add: checked_txs_def)
  then have "block_transactions_valid X u (bx_view bx) v (b_transactions b @ [tx]) [] =
      block_transactions_valid X u (bx_view bx) v (b_transactions b) []"
    by (simp add: transactions_valid_eq)
  then have "block_validate_contents X conf bx u cv v ?b = block_validate_contents X conf bx u cv v b"
    using fee assms(2) by (simp add: block_validate_contents_def cong: if_cong)
  moreover have "block_validate_header X bx cv v ?b = block_validate_header X bx cv v b"
    using assms(3) by (simp add: block_validate_header_def block_matches_cv_def)
  ultimately have "block_validate X conf bx u cv v ?b = block_validate X conf bx u cv v b"
    by (simp add: block_validate_def cong: option.case_cong)
  with assms(1) show ?thesis by simp
qed

section \<open>The double-spend check of generate\<close>

lemma block_note_type_flag:
  "b_created_hashmap_of_slips_spent_this_block (snd (block_note_type X i tx (l, b))) =
   b_created_hashmap_of_slips_spent_this_block b"
  by (simp add: block_note_type_def split: TransactionType.split)

lemma block_sweep_unchecked:
  "b_created_hashmap_of_slips_spent_this_block b \<Longrightarrow> \<exists>r. block_sweep X i txs l b = Inr r"
proof (induction txs arbitrary: i l b)
  case (Cons tx txs)
  obtain c tx' where c: "tx_generate_cumulative_fees (gl_cumulative_fees l) tx = (c, tx')" by fastforce
  define l1 where "l1 = l\<lparr>gl_cumulative_fees := c, gl_total_work := gl_total_work l + tx_total_work_for_me tx'\<rparr>"
  obtain l2 b2 where n: "block_note_type X i tx' (l1, b) = (l2, b2)" by fastforce
  have "b_created_hashmap_of_slips_spent_this_block b2"
    using block_note_type_flag [of X i tx' l1 b] n Cons.prems by simp
  then obtain r where "block_sweep X (i + 1) txs l2 b2 = Inr r" using Cons.IH by blast
  then show ?case using Cons.prems c n by (cases r) (simp add: l1_def)
qed simp

lemma block_sweep_first:
  assumes "spend_inputs (tx_from tx) (b_slips_spent_this_block b) = Inr spent"
    and "tx_transaction_type tx \<noteq> TT_Fee"
  shows "\<exists>r. block_sweep X i (tx # txs) l b = Inr r"
proof (cases "b_created_hashmap_of_slips_spent_this_block b")
  case True
  then show ?thesis by (rule block_sweep_unchecked)
next
  case False
  define b1 where "b1 = b\<lparr>b_slips_spent_this_block := spent,
    b_created_hashmap_of_slips_spent_this_block := True\<rparr>"
  obtain c tx' where c: "tx_generate_cumulative_fees (gl_cumulative_fees l) tx = (c, tx')" by fastforce
  then have tx': "tx_from tx' = tx_from tx" "tx_transaction_type tx' = tx_transaction_type tx"
    by (auto simp: tx_generate_cumulative_fees_def Let_def)
  define l1 where "l1 = l\<lparr>gl_cumulative_fees := c, gl_total_work := gl_total_work l + tx_total_work_for_me tx'\<rparr>"
  obtain l2 b2 where n: "block_note_type X i tx' (l1, b1) = (l2, b2)" by fastforce
  have "b_created_hashmap_of_slips_spent_this_block b2"
    using block_note_type_flag [of X i tx' l1 b1] n by (simp add: b1_def)
  then obtain r where "block_sweep X (i + 1) txs l2 b2 = Inr r" using block_sweep_unchecked by blast
  then show ?thesis
    using assms False c n tx' by (cases r) (simp add: l1_def b1_def)
qed

lemma spend_inputs_new:
  "distinct (map slip_get_utxoset_key (filter (\<lambda>s. slip_amount s \<noteq> 0) ss)) \<Longrightarrow>
   set (map slip_get_utxoset_key (filter (\<lambda>s. slip_amount s \<noteq> 0) ss)) \<inter> fst ` set spent = {} \<Longrightarrow>
   \<exists>spent'. spend_inputs ss spent = Inr spent'"
proof (induction ss arbitrary: spent)
  case (Cons s ss)
  show ?case
  proof (cases "slip_amount s = 0")
    case False
    with Cons.prems have "map_of spent (slip_get_utxoset_key s) = None"
      by (auto simp: map_of_eq_None_iff)
    moreover have "\<exists>spent'. spend_inputs ss (AList.update (slip_get_utxoset_key s) 1 spent) = Inr spent'"
      using Cons.prems False by (intro Cons.IH) (auto simp: dom_update)
    ultimately show ?thesis using False by (simp add: Let_def)
  qed (use Cons in auto)
qed simp

lemma block_merkle_root_total:
  assumes "list_all (\<lambda>tx. tx_hash_for_signature tx \<noteq> None) (b_transactions b)"
  shows "\<exists>r. block_generate_merkle_root X False False b = Inr r"
proof (cases "b_transactions b = []")
  case True
  then show ?thesis by (simp add: block_generate_merkle_root_def merkle_generate_def)
next
  case False
  let ?hs = "map (the \<circ> mt_hash) (merkle_leaves (b_transactions b))"
  have "mt_hash n \<noteq> None" if "n \<in> set (merkle_leaves (b_transactions b))" for n
  proof -
    have "\<exists>p \<in> set (enumerate 0 (b_transactions b)). n \<in> set (tx_leaves (fst p) (snd p))"
      using that by (simp add: merkle_leaves_def case_prod_beta)
    then obtain p where "p \<in> set (enumerate 0 (b_transactions b))" "n \<in> set (tx_leaves (fst p) (snd p))" ..
    moreover from this(1) have "snd p \<in> set (b_transactions b)"
      by (metis add.right_neutral diff_zero in_set_enumerate_eq nth_mem)
    ultimately have "n \<in> set (tx_leaves (fst p) (snd p))" "snd p \<in> set (b_transactions b)" by simp_all
    with assms show ?thesis by (auto simp: tx_leaves_def list_all_iff split: if_splits)
  qed
  then have "map mt_hash (merkle_leaves (b_transactions b)) = map Some ?hs"
    by (auto intro!: map_cong [OF refl])
  with False obtain t where "merkle_combine X (merkle_leaves (b_transactions b)) = Inr [t]"
    "mt_hash t = Some (root_of X ?hs)"
    using merkle_combine_root [of "merkle_leaves (b_transactions b)" ?hs X] by auto
  with False show ?thesis
    by (simp add: block_generate_merkle_root_def merkle_generate_def index_r_def get_root_hash_def)
qed

lemma block_generate_txs_hashed:
  "list_all (\<lambda>tx. tx_hash_for_signature tx \<noteq> None) (block_generate_txs X c bid k txs)"
  by (induction txs arbitrary: k)
    (auto simp: tx_generate_def tx_generate_total_work_def tx_generate_total_fees_def Let_def
      tx_generate_hash_for_signature_def split: list.split option.split)

lemma block_generate_txs_Cons_from:
  "tx_from (hd (block_generate_txs X c bid k (tx # txs))) = map slip_generate_utxoset_key (tx_from tx)"
  by (simp add: tx_generate_from)

lemma block_hashmap_fields [simp]:
  "b_transactions (block_generate_transaction_hashmap b) = b_transactions b"
  "b_merkle_root (block_generate_transaction_hashmap b) = b_merkle_root b"
  "b_slips_spent_this_block (block_generate_transaction_hashmap b) = b_slips_spent_this_block b"
  "b_created_hashmap_of_slips_spent_this_block (block_generate_transaction_hashmap b) =
     b_created_hashmap_of_slips_spent_this_block b"
  by (simp_all add: block_generate_transaction_hashmap_def)

lemma block_generate_Inr:
  assumes "\<And>b4. b_transactions b4 = block_generate_txs X (b_creator b) (b_id b) 0 (b_transactions b) \<Longrightarrow>
      b_slips_spent_this_block b4 = b_slips_spent_this_block b \<Longrightarrow>
      b_created_hashmap_of_slips_spent_this_block b4 = b_created_hashmap_of_slips_spent_this_block b \<Longrightarrow>
      \<exists>r. block_sweep X 0 (b_transactions b4) generate_locals_init b4 = Inr r"
  shows "\<exists>b'. block_generate X b = Inr b'"
proof -
  define gtxs where "gtxs = block_generate_txs X (b_creator b) (b_id b) 0 (b_transactions b)"
  define b2 where "b2 = block_generate_transaction_hashmap (b\<lparr>b_total_rebroadcast_slips := 0,
     b_rebroadcast_hash := replicate 32 0, b_transactions := gtxs\<rparr>)"
  have "list_all (\<lambda>tx. tx_hash_for_signature tx \<noteq> None) (b_transactions b2)"
    using block_generate_txs_hashed by (simp add: b2_def gtxs_def del: not_None_eq)
  then obtain r where "block_generate_merkle_root X False False b2 = Inr r"
    using block_merkle_root_total by blast
  then obtain b3 where b3: "(if b_merkle_root b2 = replicate 32 0
      then rbind (block_generate_merkle_root X False False b2) (\<lambda>r. Inr (b2\<lparr>b_merkle_root := r\<rparr>))
      else Inr b2) = Inr b3" and b3_fields: "b_transactions b3 = gtxs"
      "b_slips_spent_this_block b3 = b_slips_spent_this_block b"
      "b_created_hashmap_of_slips_spent_this_block b3 = b_created_hashmap_of_slips_spent_this_block b"
    by (cases "b_merkle_root b2 = replicate 32 0")
      (auto simp: b2_def block_generate_transaction_hashmap_def)
  define b4 where "b4 = block_generate_hash X (block_generate_pre_hash X b3)"
  have "\<exists>r. block_sweep X 0 (b_transactions b4) generate_locals_init b4 = Inr r"
    using b3_fields
    by (intro assms) (simp_all add: b4_def gtxs_def block_generate_hash_def block_generate_pre_hash_def)
  then obtain txs' l b5 where "block_sweep X 0 (b_transactions b4) generate_locals_init b4 = Inr (txs', l, b5)"
    by auto
  then show ?thesis
    unfolding block_generate_def Let_def gtxs_def [symmetric] b2_def [symmetric] b3
    by (simp add: b4_def)
qed

lemma block_generate_swept:
  "b_created_hashmap_of_slips_spent_this_block b \<Longrightarrow> \<exists>b'. block_generate X b = Inr b'"
  by (rule block_generate_Inr, rule block_sweep_unchecked) simp

text \<open>
  The double-spend check of \<^verbatim>\<open>generate\<close> looks at one transaction only: if the first
  transaction is not a fee transaction and does not itself name a slip twice, generation
  succeeds whatever the other transactions spend, because the flag that the inputs have been
  recorded is set inside the loop.
\<close>

theorem block_generate_checks_first_tx_only:
  assumes "b_transactions b = tx # txs" and "tx_transaction_type tx \<noteq> TT_Fee"
    and "b_slips_spent_this_block b = []"
    and "distinct (map slip_get_utxoset_key (filter (\<lambda>s. slip_amount s \<noteq> 0) (tx_from tx)))"
  shows "\<exists>b'. block_generate X b = Inr b'"
proof (rule block_generate_Inr)
  fix b4 :: block
  assume b4: "b_transactions b4 = block_generate_txs X (b_creator b) (b_id b) 0 (b_transactions b)"
    "b_slips_spent_this_block b4 = b_slips_spent_this_block b"
  obtain g gs where g: "b_transactions b4 = g # gs" "tx_from g = map slip_generate_utxoset_key (tx_from tx)"
    "tx_transaction_type g = tx_transaction_type tx"
    using assms(1) b4(1) by (simp add: tx_generate_from)
  have "\<exists>spent. spend_inputs (tx_from g) (b_slips_spent_this_block b4) = Inr spent"
    using assms(3,4) b4(2) by (intro spend_inputs_new) (simp_all add: g(2) filter_map comp_def)
  then obtain spent where "spend_inputs (tx_from g) (b_slips_spent_this_block b4) = Inr spent" ..
  then show "\<exists>r. block_sweep X 0 (b_transactions b4) generate_locals_init b4 = Inr r"
    using block_sweep_first [of g] assms(2) by (simp add: g(1,3))
qed

section \<open>Witnesses\<close>

definition demo_signed_block :: block where
  "demo_signed_block = block_new\<lparr>b_id := 2, b_timestamp := 10, b_merkle_root := replicate 32 1,
     b_pre_hash := replicate 32 3, b_creator := 2 # replicate 32 7,
     b_signature := replicate 32 3 @ replicate 32 7, b_previous_block_hash := replicate 32 9,
     b_transactions := [tx_default\<lparr>tx_transaction_type := TT_Fee\<rparr>]\<rparr>"

definition demo_previous_block :: block where
  "demo_previous_block = block_new\<lparr>b_id := 1, b_timestamp := 1, b_hash := replicate 32 9\<rparr>"

definition demo_cv :: ConsensusValues where
  "demo_cv = \<lparr>c_fee_transaction = None, c_st_num = 0, c_st_index = None, c_it_num = 0,
     c_it_index = None, c_ft_num = 0, c_ft_index = None, c_gt_num = 0, c_gt_index = None,
     c_total_fees = 0, c_total_fees_new = 0, c_total_fees_atr = 0, c_total_fees_cumulative = 0,
     c_avg_total_fees = 0, c_avg_total_fees_new = 0, c_avg_total_fees_atr = 0,
     c_total_bytes_new = 0, c_total_payout_routing = 0, c_total_payout_mining = 0,
     c_total_payout_treasury = 0, c_total_payout_graveyard = 0, c_total_payout_atr = 0,
     c_avg_payout_routing = 0, c_avg_payout_mining = 0, c_avg_payout_treasury = 0,
     c_avg_payout_graveyard = 0, c_avg_payout_atr = 0, c_avg_fee_per_byte = 0,
     c_fee_per_byte = 0, c_burnfee = 0, c_difficulty = 0, c_total_rebroadcast_slips = 0,
     c_total_rebroadcast_nolan = 0, c_rebroadcasts = [], c_rebroadcast_hash = replicate 32 0,
     c_avg_nolan_rebroadcast_per_block = 0, c_total_rebroadcast_fees_nolan = 0,
     c_total_rebroadcast_staking_payouts_nolan = 0,
     c_total_fees_paid_by_nonrebroadcast_atr_transactions = 0, c_expected_difficulty = 0\<rparr>"

definition demo_config :: node_config where
  "demo_config = \<lparr>cfg_is_spv_mode = False, cfg_is_browser = False, cfg_heartbeat_interval = 2,
     cfg_genesis_period = 10, cfg_prune_after_blocks = 8, cfg_max_staker_recursions = 3,
     cfg_issuance_writing_block_interval = 0, cfg_initial_loading_completed = True\<rparr>"

definition demo_context :: block_context where
  "demo_context = \<lparr>bx_blocks = [(replicate 32 9, demo_previous_block)],
     bx_view = \<lparr>cv_utxoset = Map.empty, cv_social_stake_requirement = 0,
                cv_latest_unlocked_stake_block_id = 0\<rparr>\<rparr>"

lemma demo_block_validates:
  "block_validate demo_ext demo_config demo_context Map.empty demo_cv True demo_signed_block = Inr True"
proof -
  have prev: "map_of (bx_blocks demo_context) (b_previous_block_hash demo_signed_block) = Some demo_previous_block"
    by (simp add: demo_context_def demo_signed_block_def)
  have work: "return_routing_work_needed_to_produce_block_in_nolan 0 10 1 2 = 0"
    by (simp add: return_routing_work_needed_to_produce_block_in_nolan_def Let_def max_def
        word_le_nat_alt)
  have "block_validate_header demo_ext demo_context demo_cv True demo_signed_block"
    by (simp add: block_validate_header_def block_matches_cv_def demo_cv_def demo_signed_block_def
        demo_context_def verify_signature_def demo_ext_def block_new_def)
  moreover have "block_validate_previous demo_ext demo_config demo_cv True demo_previous_block
      demo_signed_block = Inr (Some True)"
    using work
    by (simp add: block_validate_previous_def demo_config_def demo_cv_def demo_previous_block_def
        demo_signed_block_def block_new_def)
  moreover have "block_validate_contents demo_ext demo_config demo_context Map.empty demo_cv True
      demo_signed_block = Inr True"
    by (simp add: block_validate_contents_def block_validate_fee_transaction_def demo_cv_def
        demo_signed_block_def block_new_def tx_validate_def tx_default_def)
  moreover have "b_id demo_signed_block \<noteq> 0" "\<not> cfg_is_spv_mode demo_config"
    "b_block_type demo_signed_block \<noteq> BT_Ghost"
    by (simp_all add: demo_signed_block_def demo_config_def block_new_def)
  ultimately show ?thesis
    using prev by (simp add: block_validate_def)
qed

theorem validated_block_sound_witness:
  "block_validate demo_ext demo_config demo_context Map.empty demo_cv True demo_signed_block = Inr True \<and>
   b_previous_block_unpaid demo_signed_block = b_total_fees demo_previous_block"
proof -
  have "\<not> cfg_is_spv_mode demo_config" "b_block_type demo_signed_block \<noteq> BT_Ghost"
    "map_of (bx_blocks demo_context) (b_previous_block_hash demo_signed_block) = Some demo_previous_block"
    "b_block_type demo_previous_block \<noteq> BT_Ghost" "c_gt_index demo_cv = None"
    by (simp_all add: demo_signed_block_def demo_config_def demo_context_def demo_previous_block_def
        demo_cv_def block_new_def)
  then show ?thesis
    using validated_block_sound [OF demo_block_validates] demo_block_validates by simp
qed

theorem block_accepts_invalid_transaction_witness:
  "tx_validate demo_ext Map.empty (bx_view demo_context) True tx_default = Inr False \<and>
   block_validate demo_ext demo_config demo_context Map.empty demo_cv True
     (demo_signed_block\<lparr>b_transactions := b_transactions demo_signed_block @ [tx_default]\<rparr>) = Inr True"
proof -
  have "tx_validate demo_ext Map.empty (bx_view demo_context) True tx_default = Inr False"
    by (simp add: tx_validate_def tx_default_def)
  moreover have "b_merkle_root demo_signed_block \<noteq> replicate 32 0" "b_transactions demo_signed_block \<noteq> []"
    "c_ft_index demo_cv = None" "c_gt_index demo_cv = None"
    by (simp_all add: demo_signed_block_def demo_cv_def numeral_eq_Suc)
  ultimately show ?thesis
    using block_accepts_invalid_transaction [OF demo_block_validates, of tx_default] by simp
qed

theorem block_generate_checks_first_tx_only_witness:
  "\<exists>b'. block_generate demo_ext (block_new\<lparr>b_transactions :=
     [tx_default, tx_default\<lparr>tx_from := [demo_out 1, demo_out 1]\<rparr>,
      tx_default\<lparr>tx_from := [demo_out 1]\<rparr>]\<rparr>) = Inr b'"
  by (rule block_generate_checks_first_tx_only [of _ tx_default
        "[tx_default\<lparr>tx_from := [demo_out 1, demo_out 1]\<rparr>, tx_default\<lparr>tx_from := [demo_out 1]\<rparr>]"])
    (simp_all add: block_new_def tx_default_def)

end
