(* ===== verification/Winding_Rules.thy ===== *)
theory Winding_Rules
  imports Winding Block_Rules
begin

text \<open>
  The machine of \<^verbatim>\<open>validate\<close> as a step relation: when it ends and when it cannot, what has been
  validated when it accepts a chain, and what winding one block does to the node. Two runs of it
  go wrong: an invalid first block can be skipped, and an invalid later block makes it loop.
\<close>

section \<open>Steps of the machine\<close>

text \<open>
  A configuration is a winding result with the state of the node. The two finishing results
  have no successor, and neither has a configuration whose round panics.
\<close>

type_synonym winding_config = "WindingResult \<times> node"

inductive winding_step ::
  "ext \<Rightarrow> node_config \<Rightarrow> bytes list \<Rightarrow> bytes list \<Rightarrow> winding_config \<Rightarrow> winding_config \<Rightarrow> bool"
  for X conf new_chain old_chain where
  wind: "wind_chain X conf new_chain old_chain i f nd = Inr c \<Longrightarrow>
    winding_step X conf new_chain old_chain (Wind i f s, nd) c"
| unwind: "unwind_chain X conf new_chain chain i f nd = Inr c \<Longrightarrow>
    winding_step X conf new_chain old_chain (Unwind i f chain s, nd) c"

inductive_simps winding_step_simps [simp]:
  "winding_step X conf new old (Wind i f s, nd) c"
  "winding_step X conf new old (Unwind i f chain s, nd) c"
  "winding_step X conf new old (FinishWithSuccess s, nd) c"
  "winding_step X conf new old (FinishWithFailure, nd) c"

lemma winding_step_deterministic:
  "winding_step X conf new old c c1 \<Longrightarrow> winding_step X conf new old c c2 \<Longrightarrow> c1 = c2"
  by (auto elim!: winding_step.cases)

lemma winding_loop_step:
  "winding_step X conf new old (r, nd) (r', nd') \<Longrightarrow>
   winding_loop X conf new old r st nd = winding_loop X conf new old r' (st \<or> winding_status r) nd'"
  by (subst winding_loop.simps) (auto elim!: winding_step.cases simp: winding_round_def)

lemma winding_loop_final [simp]:
  "winding_loop X conf new old (FinishWithSuccess s) st nd = Some (Inr ((True, st \<or> s), nd))"
  "winding_loop X conf new old FinishWithFailure st nd = Some (Inr ((False, st), nd))"
  by (simp_all add: winding_loop.simps)

lemma winding_loop_steps:
  assumes "(winding_step X conf new old)\<^sup>*\<^sup>* (r, nd) (r', nd')"
  shows "\<exists>st'. winding_loop X conf new old r st nd = winding_loop X conf new old r' st' nd'"
  using assms
proof (induction "(r, nd)" arbitrary: r nd st rule: converse_rtranclp_induct)
  case (step c)
  obtain r1 nd1 where c: "c = (r1, nd1)" by force
  with step(1) winding_loop_step step(3) [OF c] show ?case by metis
qed auto

text \<open>Why a run ends: it reaches a finishing result.\<close>

lemma winding_loop_unfold:
  assumes "(case r of FinishWithSuccess u \<Rightarrow> Some (Inr ((True, st \<or> u), nd))
      | FinishWithFailure \<Rightarrow> Some (Inr ((False, st), nd))
      | _ \<Rightarrow> (case winding_round X conf new old r nd of Inl e \<Rightarrow> Some (Inl e)
           | Inr (r', nd') \<Rightarrow> f X conf new old r' (st \<or> winding_status r) nd')) = Some y"
  obtains (final) "\<exists>u. r = FinishWithSuccess u \<and> y = Inr ((True, st \<or> u), nd)"
    | (failure) "r = FinishWithFailure" "y = Inr ((False, st), nd)"
    | (panic) e where "y = Inl e" "\<forall>c. \<not> winding_step X conf new old (r, nd) c"
    | (step) r' nd' where "winding_step X conf new old (r, nd) (r', nd')"
        "f X conf new old r' (st \<or> winding_status r) nd' = Some y"
  using assms
  by (cases r; cases "winding_round X conf new old r nd"; auto simp: winding_round_def)

definition ends_in :: "bool \<Rightarrow> WindingResult \<Rightarrow> bool" where
  "ends_in ok r \<longleftrightarrow> (if ok then \<exists>s. r = FinishWithSuccess s else r = FinishWithFailure)"

lemma winding_loop_reaches:
  assumes "winding_loop X conf new old r st nd = Some (Inr ((ok, st'), nd'))"
  shows "\<exists>r'. (winding_step X conf new old)\<^sup>*\<^sup>* (r, nd) (r', nd') \<and> ends_in ok r'"
proof -
  have "\<forall>ok st' nd'. y = Inr ((ok, st'), nd') \<longrightarrow>
      (\<exists>r'. (winding_step X conf new old)\<^sup>*\<^sup>* (r, nd) (r', nd') \<and> ends_in ok r')"
    if "winding_loop X conf new old r st nd = Some y" for y
    using that
  proof (rule winding_loop.raw_induct [where P = "\<lambda>X conf new old r st nd y. \<forall>ok st' nd'. y = Inr ((ok, st'), nd') \<longrightarrow>
      (\<exists>r'. (winding_step X conf new old)\<^sup>*\<^sup>* (r, nd) (r', nd') \<and> ends_in ok r')", rotated], goal_cases)
    case (1 f X conf new old r st nd y)
    from 1(2) show ?case
    proof (cases rule: winding_loop_unfold)
      case (step r1 nd1)
      from 1(1) [OF step(2)] have "\<forall>ok st' nd'. y = Inr ((ok, st'), nd') \<longrightarrow>
          (\<exists>r'. (winding_step X conf new old)\<^sup>*\<^sup>* (r1, nd1) (r', nd') \<and> ends_in ok r')" .
      then show ?thesis using converse_rtranclp_into_rtranclp [of "winding_step X conf new old", OF step(1)]
        by blast
    qed (auto simp: ends_in_def)
  qed
  then show ?thesis using assms by blast
qed

text \<open>A configuration that the machine comes back to is one from which it never returns.\<close>

lemma winding_cycle_diverges:
  assumes "(winding_step X conf new old)\<^sup>+\<^sup>+ (r, nd) (r, nd)"
  shows "winding_loop X conf new old r st nd = None"
proof (rule ccontr)
  assume "winding_loop X conf new old r st nd \<noteq> None"
  then obtain y where "winding_loop X conf new old r st nd = Some y" by blast
  then have "\<not> (winding_step X conf new old)\<^sup>+\<^sup>+ (r, nd) (r, nd)"
  proof (rule winding_loop.raw_induct [where P = "\<lambda>X conf new old r st nd y.
      \<not> (winding_step X conf new old)\<^sup>+\<^sup>+ (r, nd) (r, nd)", rotated], goal_cases)
    case (1 f X conf new old r st nd y)
    from 1(2) show ?case
    proof (cases rule: winding_loop_unfold)
      case (step r1 nd1)
      have no: "\<not> (winding_step X conf new old)\<^sup>+\<^sup>+ (r1, nd1) (r1, nd1)" using 1(1) [OF step(2)] .
      show ?thesis
      proof
        assume "(winding_step X conf new old)\<^sup>+\<^sup>+ (r, nd) (r, nd)"
        then have "(winding_step X conf new old)\<^sup>*\<^sup>* (r1, nd1) (r, nd)"
          using step(1) by (metis tranclpD winding_step_deterministic)
        then have "(winding_step X conf new old)\<^sup>+\<^sup>+ (r1, nd1) (r1, nd1)"
          using step(1) by (rule rtranclp_into_tranclp1)
        with no show False ..
      qed
    qed (auto dest!: tranclpD elim!: winding_step.cases)
  qed
  with assms show False by blast
qed

section \<open>Blocks wound and unwound in turn\<close>

text \<open>One block that validates is wound: the successful branch of \<^verbatim>\<open>wind_chain\<close>.\<close>

definition winds :: "ext \<Rightarrow> node_config \<Rightarrow> bytes \<Rightarrow> node \<Rightarrow> bool \<Rightarrow> node \<Rightarrow> bool" where
  "winds X conf h nd u nd' \<longleftrightarrow>
     (\<exists>bc b va. upgrade_blocks_for_wind_chain X conf (nd_disk nd) h (nd_blockchain nd) = Inr bc \<and>
        map_of (bc_blocks bc) h = Some b \<and> \<not> b_has_checkpoint b \<and>
        has_total_supply_loaded (cfg_genesis_period conf) bc = Inr va \<and>
        validate_in_chain X conf (nd_disk nd) bc va b = Inr True \<and>
        wind_block X conf h b (nd\<lparr>nd_blockchain := bc\<rparr>) = Inr (u, nd'))"

text \<open>One block that does not validate.\<close>

definition rejects :: "ext \<Rightarrow> node_config \<Rightarrow> bytes \<Rightarrow> node \<Rightarrow> node \<Rightarrow> bool" where
  "rejects X conf h nd nd' \<longleftrightarrow>
     (\<exists>bc b va. upgrade_blocks_for_wind_chain X conf (nd_disk nd) h (nd_blockchain nd) = Inr bc \<and>
        map_of (bc_blocks bc) h = Some b \<and> \<not> b_has_checkpoint b \<and>
        has_total_supply_loaded (cfg_genesis_period conf) bc = Inr va \<and>
        validate_in_chain X conf (nd_disk nd) bc va b = Inr False \<and>
        nd' = nd\<lparr>nd_blockchain := bc\<rparr>)"

lemma wind_chain_winds:
  assumes "i < length new" and "winds X conf (new ! i) nd u nd'"
  shows "wind_chain X conf new old i f nd =
    Inr (if i = 0 then (if f then FinishWithFailure else FinishWithSuccess u) else Wind (i - 1) False u, nd')"
proof -
  from assms(2) obtain bc b va where
    "upgrade_blocks_for_wind_chain X conf (nd_disk nd) (new ! i) (nd_blockchain nd) = Inr bc"
    "map_of (bc_blocks bc) (new ! i) = Some b" "\<not> b_has_checkpoint b"
    "has_total_supply_loaded (cfg_genesis_period conf) bc = Inr va"
    "validate_in_chain X conf (nd_disk nd) bc va b = Inr True"
    "wind_block X conf (new ! i) b (nd\<lparr>nd_blockchain := bc\<rparr>) = Inr (u, nd')"
    by (auto simp: winds_def)
  moreover have "index_r new i = Inr (new ! i)" "new \<noteq> []"
    using assms(1) by (auto simp: index_r_def)
  ultimately show ?thesis by (simp add: wind_chain_def Let_def del: rbind_eq_Inr)
qed

lemma wind_chain_rejects:
  assumes "i < length new" and "rejects X conf (new ! i) nd nd'"
  shows "wind_chain X conf new old i f nd =
    Inr (if i = length new - 1
         then (if old \<noteq> [] then Wind (length old - 1) True False else FinishWithFailure)
         else Unwind 0 True (drop (i + 1) new) False, nd')"
proof -
  from assms(2) obtain bc b va where
    "upgrade_blocks_for_wind_chain X conf (nd_disk nd) (new ! i) (nd_blockchain nd) = Inr bc"
    "map_of (bc_blocks bc) (new ! i) = Some b" "\<not> b_has_checkpoint b"
    "has_total_supply_loaded (cfg_genesis_period conf) bc = Inr va"
    "validate_in_chain X conf (nd_disk nd) bc va b = Inr False"
    "nd' = nd\<lparr>nd_blockchain := bc\<rparr>"
    by (auto simp: rejects_def)
  moreover have "index_r new i = Inr (new ! i)" "new \<noteq> []"
    using assms(1) by (auto simp: index_r_def)
  ultimately show ?thesis by (simp add: wind_chain_def Let_def del: rbind_eq_Inr)
qed

lemma wind_chain_Inr:
  assumes "wind_chain X conf new old i f nd = Inr (r, nd')"
  obtains (stop) "r = FinishWithFailure"
    | (wound) u where "i < length new" "winds X conf (new ! i) nd u nd'"
        "r = (if i = 0 then (if f then FinishWithFailure else FinishWithSuccess u) else Wind (i - 1) False u)"
    | (rejected) "i < length new" "rejects X conf (new ! i) nd nd'"
        "r = (if i = length new - 1
              then (if old \<noteq> [] then Wind (length old - 1) True False else FinishWithFailure)
              else Unwind 0 True (drop (i + 1) new) False)"
proof (cases "f \<and> new = []")
  case False
  with assms obtain bc b where i: "i < length new"
    and bc: "upgrade_blocks_for_wind_chain X conf (nd_disk nd) (new ! i) (nd_blockchain nd) = Inr bc"
    and b: "map_of (bc_blocks bc) (new ! i) = Some b"
    by (auto simp: wind_chain_def index_r_def Let_def split: if_splits)
  show ?thesis
  proof (cases "b_has_checkpoint b")
    case True
    then show ?thesis using assms i bc b stop False by (auto simp: wind_chain_def index_r_def Let_def split: if_splits)
  next
    case ck: False
    with assms i bc b False obtain va v where va: "has_total_supply_loaded (cfg_genesis_period conf) bc = Inr va"
      and v: "validate_in_chain X conf (nd_disk nd) bc va b = Inr v"
      by (auto simp: wind_chain_def index_r_def Let_def split: if_splits)
    show ?thesis
    proof (cases v)
      case True
      with assms i bc b ck va v obtain u nd2 where
        w: "wind_block X conf (new ! i) b (nd\<lparr>nd_blockchain := bc\<rparr>) = Inr (u, nd2)"
        by (auto simp: wind_chain_def index_r_def Let_def split: if_splits)
      then have "winds X conf (new ! i) nd u nd2" using bc b ck va v True by (auto simp: winds_def)
      moreover from wind_chain_winds [OF i this, of old f] assms have "nd2 = nd'" by simp
      ultimately show ?thesis using wound [OF i] wind_chain_winds [OF i, of X conf nd u nd2 old f] assms by simp
    next
      case v0: False
      then have "rejects X conf (new ! i) nd (nd\<lparr>nd_blockchain := bc\<rparr>)"
        using bc b ck va v by (auto simp: rejects_def)
      with wind_chain_rejects [OF i this, of old f] assms show ?thesis using rejected [OF i] by simp
    qed
  qed
qed (use assms stop in \<open>simp add: wind_chain_def\<close>)

inductive wound :: "ext \<Rightarrow> node_config \<Rightarrow> node \<Rightarrow> bytes list \<Rightarrow> node \<Rightarrow> bool"
  for X conf where
  wound_Nil: "wound X conf nd [] nd"
| wound_Cons: "winds X conf h nd u nd1 \<Longrightarrow> wound X conf nd1 hs nd2 \<Longrightarrow> wound X conf nd (h # hs) nd2"

inductive_cases wound_NilE [elim!]: "wound X conf nd [] nd'"
inductive_cases wound_ConsE: "wound X conf nd (h # hs) nd'"

lemma wound_snoc:
  "wound X conf nd hs nd1 \<Longrightarrow> winds X conf h nd1 u nd2 \<Longrightarrow> wound X conf nd (hs @ [h]) nd2"
  by (induction rule: wound.induct) (auto intro: wound.intros)

text \<open>One block is unwound: the successful branch of \<^verbatim>\<open>unwind_chain\<close>.\<close>

definition unwinds :: "ext \<Rightarrow> node_config \<Rightarrow> bytes \<Rightarrow> node \<Rightarrow> bool \<Rightarrow> node \<Rightarrow> bool" where
  "unwinds X conf h nd u nd' \<longleftrightarrow>
     (\<exists>b. map_of (bc_blocks (nd_blockchain nd)) h = Some b \<and> \<not> b_has_checkpoint b \<and>
        unwind_block X conf h b nd = Inr (u, nd'))"

lemma unwind_chain_unwinds:
  assumes "i < length old" and "unwinds X conf (old ! i) nd u nd'"
  shows "unwind_chain X conf new old i f nd =
    Inr (if i = length old - 1 then Wind (length new - 1) f u else Unwind (i + 1) f old u, nd')"
  using assms by (auto simp: unwinds_def unwind_chain_def index_r_def simp del: rbind_eq_Inr)

lemma unwind_chain_Inr:
  assumes "unwind_chain X conf new old i f nd = Inr (r, nd')"
  obtains (stop) "r = FinishWithFailure" "nd' = nd"
    | (unwound) u where "i < length old" "unwinds X conf (old ! i) nd u nd'"
        "r = (if i = length old - 1 then Wind (length new - 1) f u else Unwind (i + 1) f old u)"
proof -
  from assms obtain b where i: "i < length old"
    and b: "map_of (bc_blocks (nd_blockchain nd)) (old ! i) = Some b"
    by (auto simp: unwind_chain_def index_r_def split: if_splits)
  show ?thesis
  proof (cases "b_has_checkpoint b")
    case False
    with assms i b obtain u nd2 where "unwind_block X conf (old ! i) b nd = Inr (u, nd2)"
      by (auto simp: unwind_chain_def index_r_def split: if_splits)
    with b False have "unwinds X conf (old ! i) nd u nd2" by (simp add: unwinds_def)
    then show ?thesis using unwound i assms unwind_chain_unwinds [OF i, of X conf nd u nd2 new f] by simp
  qed (use assms i b stop in \<open>simp add: unwind_chain_def index_r_def\<close>)
qed

inductive unwound :: "ext \<Rightarrow> node_config \<Rightarrow> node \<Rightarrow> bytes list \<Rightarrow> node \<Rightarrow> bool"
  for X conf where
  unwound_Nil: "unwound X conf nd [] nd"
| unwound_Cons: "unwinds X conf h nd u nd1 \<Longrightarrow> unwound X conf nd1 hs nd2 \<Longrightarrow> unwound X conf nd (h # hs) nd2"

inductive_cases unwound_NilE [elim!]: "unwound X conf nd [] nd'"
inductive_cases unwound_ConsE: "unwound X conf nd (h # hs) nd'"

section \<open>Runs of the machine\<close>

text \<open>Winding the blocks from index \<open>i\<close> down to the tip.\<close>

lemma wound_run:
  assumes "wound X conf nd (rev (take (Suc i) new)) nd'" and "i < length new"
  shows "\<exists>u. (winding_step X conf new old)\<^sup>*\<^sup>* (Wind i f s, nd)
    (if i = 0 \<and> f then FinishWithFailure else FinishWithSuccess u, nd')"
  using assms
proof (induction i arbitrary: nd f s)
  case 0
  then have "rev (take (Suc 0) new) = [new ! 0]" by (simp add: take_Suc_conv_app_nth)
  with 0(1) have "wound X conf nd [new ! 0] nd'" by simp
  then obtain u nd1 where "winds X conf (new ! 0) nd u nd1" "wound X conf nd1 [] nd'"
    by (rule wound_ConsE)
  then have "winds X conf (new ! 0) nd u nd'" by auto
  from wind_chain_winds [OF 0(2) this, of old f] show ?case
    by (auto intro!: exI [of _ u] r_into_rtranclp)
next
  case (Suc i)
  then have "rev (take (Suc (Suc i)) new) = new ! Suc i # rev (take (Suc i) new)"
    by (simp add: take_Suc_conv_app_nth)
  with Suc.prems(1) obtain u nd1 where w: "winds X conf (new ! Suc i) nd u nd1"
    "wound X conf nd1 (rev (take (Suc i) new)) nd'"
    by (auto elim: wound_ConsE)
  from wind_chain_winds [OF Suc.prems(2) w(1), of old f]
  have "winding_step X conf new old (Wind (Suc i) f s, nd) (Wind i False u, nd1)" by simp
  moreover obtain u' where
    "(winding_step X conf new old)\<^sup>*\<^sup>* (Wind i False u, nd1) (FinishWithSuccess u', nd')"
    using Suc.IH [OF w(2), of False u] Suc.prems(2) by auto
  ultimately have "(winding_step X conf new old)\<^sup>*\<^sup>* (Wind (Suc i) f s, nd) (FinishWithSuccess u', nd')"
    by (rule converse_rtranclp_into_rtranclp)
  then show ?case by auto
qed

lemma unwound_run:
  assumes "unwound X conf nd (drop i old) nd'" and "i < length old"
  shows "\<exists>u. (winding_step X conf new chain)\<^sup>*\<^sup>* (Unwind i f old s, nd) (Wind (length new - 1) f u, nd')"
  using assms
proof (induction "length old - i" arbitrary: i nd s)
  case (Suc k)
  have "drop i old = old ! i # drop (Suc i) old" using Suc.prems(2) by (simp add: Cons_nth_drop_Suc)
  with Suc.prems(1) obtain u nd1 where w: "unwinds X conf (old ! i) nd u nd1"
    "unwound X conf nd1 (drop (Suc i) old) nd'"
    by (auto elim: unwound_ConsE)
  note st = unwind_chain_unwinds [OF Suc.prems(2) w(1), of new f]
  show ?case
  proof (cases "i = length old - 1")
    case True
    then have "nd1 = nd'" using w(2) Suc.prems(2) by auto
    with st True show ?thesis by (auto intro!: exI [of _ u] r_into_rtranclp)
  next
    case False
    with st have "winding_step X conf new chain (Unwind i f old s, nd) (Unwind (Suc i) f old u, nd1)" by simp
    moreover obtain u' where "(winding_step X conf new chain)\<^sup>*\<^sup>* (Unwind (Suc i) f old u, nd1) (Wind (length new - 1) f u', nd')"
      using Suc.hyps(1) [of "Suc i" nd1 u] Suc.hyps(2) Suc.prems(2) False w(2) by force
    ultimately show ?thesis by (metis converse_rtranclp_into_rtranclp)
  qed
qed simp

lemma rev_drop_take_Suc:
  "k \<le> i \<Longrightarrow> i < length xs \<Longrightarrow> rev (drop k (take (Suc i) xs)) = xs ! i # rev (drop k (take i xs))"
  by (simp add: take_Suc_conv_app_nth)

lemma wound_run_upto:
  assumes "wound X conf nd (rev (drop (Suc k) (take (Suc i) new))) nd'" and "k \<le> i" and "i < length new"
  shows "\<exists>f' s'. (winding_step X conf new old)\<^sup>*\<^sup>* (Wind i f s, nd) (Wind k f' s', nd')"
  using assms
proof (induction i arbitrary: nd f s)
  case (Suc i)
  show ?case
  proof (cases "k = Suc i")
    case False
    with Suc.prems have "wound X conf nd (new ! Suc i # rev (drop (Suc k) (take (Suc i) new))) nd'"
      by (simp add: rev_drop_take_Suc)
    then obtain u nd1 where w: "winds X conf (new ! Suc i) nd u nd1"
      "wound X conf nd1 (rev (drop (Suc k) (take (Suc i) new))) nd'" by (rule wound_ConsE)
    from wind_chain_winds [OF Suc.prems(3) w(1), of old f]
    have st: "winding_step X conf new old (Wind (Suc i) f s, nd) (Wind i False u, nd1)" by simp
    obtain f' s' where "(winding_step X conf new old)\<^sup>*\<^sup>* (Wind i False u, nd1) (Wind k f' s', nd')"
      using Suc.IH [OF w(2), of False u] Suc.prems False by auto
    with st have "(winding_step X conf new old)\<^sup>*\<^sup>* (Wind (Suc i) f s, nd) (Wind k f' s', nd')"
      by (rule converse_rtranclp_into_rtranclp)
    then show ?thesis by blast
  qed (use Suc.prems(1) in auto)
qed auto

text \<open>What a successful run has wound last.\<close>

definition wound_to_tip :: "ext \<Rightarrow> node_config \<Rightarrow> bytes list \<Rightarrow> bytes list \<Rightarrow> node \<Rightarrow> bool" where
  "wound_to_tip X conf new old nd \<longleftrightarrow>
     (\<exists>m nd1. (m = length new \<or> m = length old \<and> old \<noteq> []) \<and> 0 < m \<and> m \<le> length new \<and>
        wound X conf nd1 (rev (take m new)) nd)"

fun winding_inv :: "ext \<Rightarrow> node_config \<Rightarrow> bytes list \<Rightarrow> bytes list \<Rightarrow> winding_config \<Rightarrow> bool" where
  "winding_inv X conf new old (Wind i f s, nd) \<longleftrightarrow>
     (\<exists>m nd1. (m = length new \<or> m = length old \<and> old \<noteq> []) \<and> i < m \<and> (i = m - 1 \<or> m \<le> length new) \<and>
        wound X conf nd1 (rev (drop (Suc i) (take m new))) nd)"
| "winding_inv X conf new old (Unwind i f chain s, nd) \<longleftrightarrow> True"
| "winding_inv X conf new old (FinishWithSuccess s, nd) \<longleftrightarrow> wound_to_tip X conf new old nd"
| "winding_inv X conf new old (FinishWithFailure, nd) \<longleftrightarrow> True"

lemma winding_inv_start:
  "0 < m \<Longrightarrow> m = length new \<or> m = length old \<and> old \<noteq> [] \<Longrightarrow> winding_inv X conf new old (Wind (m - 1) f s, nd)"
  by (auto intro!: exI [of _ m] exI [of _ nd] intro: wound_Nil)

lemma winding_inv_wind:
  assumes inv: "winding_inv X conf new old (Wind i f s, nd)" and i: "i < length new"
    and w: "winds X conf (new ! i) nd u nd'"
  shows "winding_inv X conf new old
    (if i = 0 then (if f then FinishWithFailure else FinishWithSuccess u) else Wind (i - 1) False u, nd')"
proof -
  from inv obtain m nd1 where m: "m = length new \<or> m = length old \<and> old \<noteq> []" "i < m" "i = m - 1 \<or> m \<le> length new"
    and wd: "wound X conf nd1 (rev (drop (Suc i) (take m new))) nd" by auto
  have le: "m \<le> length new" using m i by auto
  have "drop i (take m new) = new ! i # drop (Suc i) (take m new)"
    using m(2) i by (simp add: Cons_nth_drop_Suc [symmetric])
  then have "wound X conf nd1 (rev (drop i (take m new))) nd'"
    using wound_snoc [OF wd w] by simp
  then show ?thesis using m le by (cases i) (auto simp: wound_to_tip_def)
qed

lemma winding_inv_step:
  assumes "winding_step X conf new old c c'" and "winding_inv X conf new old c" and "new \<noteq> []"
  shows "winding_inv X conf new old c'"
  using assms(1)
proof (cases rule: winding_step.cases)
  case (wind i f nd s)
  obtain r nd' where c': "c' = (r, nd')" by force
  from wind(2) [unfolded c'] show ?thesis
  proof (cases rule: wind_chain_Inr)
    case (wound u)
    then show ?thesis using winding_inv_wind [OF _ wound(1,2), of old f s] assms(2) wind(1) c' by simp
  next
    case rejected
    then show ?thesis using winding_inv_start [of "length old" new old X conf True False nd'] c'
      by (auto simp: Let_def)
  qed (use c' in simp)
next
  case (unwind chain i f nd s)
  obtain r nd' where c': "c' = (r, nd')" by force
  from unwind(2) [unfolded c'] show ?thesis
    by (cases rule: unwind_chain_Inr)
      (use c' assms(3) winding_inv_start [of "length new" new old X conf] in auto)
qed

lemma bc_validate_loop:
  assumes "map_of (bc_blocks (nd_blockchain nd)) (new ! 0) = Some b" and "new \<noteq> []"
    and "bc_is_golden_ticket_count_valid (nd_blockchain nd) (b_previous_block_hash b)
      (b_has_golden_ticket b) (cfg_is_browser conf) (cfg_is_spv_mode conf)"
  shows "bc_validate X conf new old nd = winding_loop X conf new old
    (if old = [] then Wind (length new - 1) False False else Unwind 0 True old False) False nd"
  using assms by (simp add: bc_validate_def index_r_def)

text \<open>After the old chain has been unwound, if there is one.\<close>

lemma bc_validate_unwound:
  assumes "map_of (bc_blocks (nd_blockchain nd)) (new ! 0) = Some b" and "new \<noteq> []"
    and "bc_is_golden_ticket_count_valid (nd_blockchain nd) (b_previous_block_hash b)
      (b_has_golden_ticket b) (cfg_is_browser conf) (cfg_is_spv_mode conf)"
    and "unwound X conf nd old nd1"
  shows "\<exists>u st. bc_validate X conf new old nd =
    winding_loop X conf new old (Wind (length new - 1) (old \<noteq> []) u) st nd1"
proof (cases "old = []")
  case True
  then show ?thesis using bc_validate_loop [OF assms(1-3), of X old] assms(4) by auto
next
  case False
  then obtain u where "(winding_step X conf new old)\<^sup>*\<^sup>* (Unwind 0 True old False, nd) (Wind (length new - 1) True u, nd1)"
    using unwound_run [of X conf nd 0 old nd1 new old True False] assms(4) by auto
  from winding_loop_steps [OF this, of False] False show ?thesis
    using bc_validate_loop [OF assms(1-3), of X old] by auto
qed

lemma bc_validate_success:
  assumes "map_of (bc_blocks (nd_blockchain nd)) (new ! 0) = Some b"
    and "bc_is_golden_ticket_count_valid (nd_blockchain nd) (b_previous_block_hash b)
      (b_has_golden_ticket b) (cfg_is_browser conf) (cfg_is_spv_mode conf)"
    and "unwound X conf nd old nd1" and "wound X conf nd1 (rev new) nd2"
    and "new \<noteq> []" and "old = [] \<or> 1 < length new"
  shows "\<exists>s. bc_validate X conf new old nd = Some (Inr ((True, s), nd2))"
proof -
  obtain u st where v: "bc_validate X conf new old nd =
      winding_loop X conf new old (Wind (length new - 1) (old \<noteq> []) u) st nd1"
    using bc_validate_unwound [OF assms(1,5,2,3)] by blast
  have "wound X conf nd1 (rev (take (Suc (length new - 1)) new)) nd2" using assms(4,5) by simp
  from wound_run [OF this, of old "old \<noteq> []" u] assms(5,6) obtain u' where
    "(winding_step X conf new old)\<^sup>*\<^sup>* (Wind (length new - 1) (old \<noteq> []) u, nd1) (FinishWithSuccess u', nd2)"
    by auto
  from winding_loop_steps [OF this, of st] v show ?thesis by auto
qed

text \<open>
  C11. A chain of valid blocks is always adopted, and \<^verbatim>\<open>validate\<close> returns: when the golden tickets
  suffice, the blocks of the old chain can be unwound and those of the new chain validate and are
  wound in turn, the machine ends with success in exactly the state after the last of them.
  (A single block after an unwound old chain is the exception: the flag of the failure path is
  set when the unwinding starts.)
\<close>

theorem valid_chain_accepted:
  assumes "map_of (bc_blocks (nd_blockchain nd)) (new ! 0) = Some b"
    and "bc_is_golden_ticket_count_valid (nd_blockchain nd) (b_previous_block_hash b)
      (b_has_golden_ticket b) (cfg_is_browser conf) (cfg_is_spv_mode conf)"
    and "unwound X conf nd old nd1" and "wound X conf nd1 (rev new) nd2"
    and "new \<noteq> []" and "old = [] \<or> 1 < length new"
  shows "\<exists>s. bc_validate X conf new old nd = Some (Inr ((True, s), nd2))"
  using assms by (rule bc_validate_success)


text \<open>
  C25. A chain whose first block does not validate can still be adopted: when there is an old chain
  of at least two blocks, the failure restarts the winding at the length of the old chain, but on
  the new chain. If the blocks from there on validate, \<^verbatim>\<open>validate\<close> reports success although the
  invalid block was never wound.
\<close>

theorem failed_ancestor_is_skipped:
  assumes "map_of (bc_blocks (nd_blockchain nd)) (new ! 0) = Some b"
    and "bc_is_golden_ticket_count_valid (nd_blockchain nd) (b_previous_block_hash b)
      (b_has_golden_ticket b) (cfg_is_browser conf) (cfg_is_spv_mode conf)"
    and "unwound X conf nd old nd1" and "rejects X conf (last new) nd1 nd2"
    and "wound X conf nd2 (rev (take (length old) new)) nd3"
    and "1 < length old" and "length old < length new"
  shows "\<exists>s. bc_validate X conf new old nd = Some (Inr ((True, s), nd3))"
proof -
  have ne: "new \<noteq> []" "old \<noteq> []" and l: "length new - 1 < length new" using assms(6,7) by auto
  obtain u st where v: "bc_validate X conf new old nd =
      winding_loop X conf new old (Wind (length new - 1) True u) st nd1"
    using bc_validate_unwound [OF assms(1) ne(1) assms(2,3)] ne by auto
  have "rejects X conf (new ! (length new - 1)) nd1 nd2" using assms(4) ne by (simp add: last_conv_nth)
  from wind_chain_rejects [OF l this, of old True] ne
  have st: "winding_step X conf new old (Wind (length new - 1) True u, nd1) (Wind (length old - 1) True False, nd2)"
    by simp
  have "wound X conf nd2 (rev (take (Suc (length old - 1)) new)) nd3" using assms(5) ne by simp
  moreover have "length old - 1 < length new" "length old - 1 \<noteq> 0" using assms(6,7) by auto
  ultimately obtain u' where
    "(winding_step X conf new old)\<^sup>*\<^sup>* (Wind (length old - 1) True False, nd2) (FinishWithSuccess u', nd3)"
    using wound_run [of X conf nd2 "length old - 1" new nd3 old True False] by auto
  with st have "(winding_step X conf new old)\<^sup>*\<^sup>* (Wind (length new - 1) True u, nd1) (FinishWithSuccess u', nd3)"
    by (rule converse_rtranclp_into_rtranclp)
  from winding_loop_steps [OF this, of st] v show ?thesis by auto
qed


section \<open>A small fork\<close>

text \<open>
  Block 1 on the longest chain, two branches above it: blocks 2, 3, 4 and blocks 22, 33 (ids 2
  and 3). Ghost blocks validate; a full block without transactions does not.
\<close>

definition demo_ghost :: "u64 \<Rightarrow> bytes \<Rightarrow> bytes \<Rightarrow> block" where
  "demo_ghost i h p = block_new\<lparr>b_id := i, b_hash := h, b_previous_block_hash := p,
     b_block_type := BT_Ghost\<rparr>"

definition demo_empty :: "u64 \<Rightarrow> bytes \<Rightarrow> bytes \<Rightarrow> block" where
  "demo_empty i h p = block_new\<lparr>b_id := i, b_hash := h, b_previous_block_hash := p\<rparr>"

definition demo_fork_config :: node_config where
  "demo_fork_config = \<lparr>cfg_is_spv_mode = False, cfg_is_browser = False, cfg_heartbeat_interval = 2,
     cfg_genesis_period = 2, cfg_prune_after_blocks = 8, cfg_max_staker_recursions = 1,
     cfg_issuance_writing_block_interval = 0, cfg_initial_loading_completed = True\<rparr>"

text \<open>The longest-chain positions of ids 2 and 3, and the slot of the tip.\<close>

definition demo_fork_ring :: "nat option \<Rightarrow> nat option \<Rightarrow> nat option \<Rightarrow> nat \<Rightarrow> BlockRing" where
  "demo_fork_ring lc2 lc3 lc4 tip = \<lparr>br_ring =
      [\<lparr>ri_lc_pos = lc4, ri_block_hashes = [[4]], ri_block_ids = [4]\<rparr>,
       \<lparr>ri_lc_pos = Some 0, ri_block_hashes = [[1]], ri_block_ids = [1]\<rparr>,
       \<lparr>ri_lc_pos = lc2, ri_block_hashes = [[2], [22]], ri_block_ids = [2, 2]\<rparr>,
       \<lparr>ri_lc_pos = lc3, ri_block_hashes = [[3], [33]], ri_block_ids = [3, 3]\<rparr>],
     br_lc_pos = Some tip, br_empty = False, br_genesis_period = 2\<rparr>"

definition demo_fork :: "blocks \<Rightarrow> BlockRing \<Rightarrow> node" where
  "demo_fork blocks ring = \<lparr>nd_blockchain = (bc_new 2 0 0)\<lparr>bc_blocks := blocks, bc_blockring := ring,
       bc_last_block_id := 4\<rparr>,
     nd_wallet = wallet_new [] [], nd_disk = \<lparr>dk_files = Map.empty, dk_block_dir = [], dk_checkpoint_dir = [], dk_writable = True\<rparr>\<rparr>"

definition on_chain :: "block \<Rightarrow> block" where
  "on_chain b = b\<lparr>b_in_longest_chain := True\<rparr>"

lemma update_same: "map_of al k = Some v \<Longrightarrow> AList.update k v al = al"
  by (induction al) auto

text \<open>Without files nothing is loaded.\<close>

lemma upgrade_none:
  assumes "dk_files dk = Map.empty"
  shows "\<exists>ok. block_upgrade_block_to_block_type X dk BT_Full False b = Inr (ok, b)"
  using assms by (cases "b_block_type b = BT_Full")
    (auto simp: block_upgrade_block_to_block_type_def load_block_from_disk_def read_value_def)

lemma demo_upgrade:
  assumes "dk_files dk = Map.empty" and "map_of (bc_blocks bc) h = Some b"
  shows "upgrade_blocks_for_wind_chain X demo_fork_config dk h bc = Inr bc"
proof -
  obtain ok where "block_upgrade_block_to_block_type X dk BT_Full False b = Inr (ok, b)"
    using upgrade_none [OF assms(1)] by blast
  then show ?thesis
    using assms(2) by (simp add: upgrade_blocks_for_wind_chain_def upgrade_indexed_block_def with_block_def
        demo_fork_config_def update_same del: rbind_eq_Inr)
qed

lemma demo_ring_item:
  "br_item (demo_fork_ring lc2 lc3 lc4 t) 1 = Inr (1, br_ring (demo_fork_ring lc2 lc3 lc4 t) ! 1)"
  "br_item (demo_fork_ring lc2 lc3 lc4 t) 2 = Inr (2, br_ring (demo_fork_ring lc2 lc3 lc4 t) ! 2)"
  "br_item (demo_fork_ring lc2 lc3 lc4 t) 3 = Inr (3, br_ring (demo_fork_ring lc2 lc3 lc4 t) ! 3)"
  "br_item (demo_fork_ring lc2 lc3 lc4 t) 4 = Inr (0, br_ring (demo_fork_ring lc2 lc3 lc4 t) ! 0)"
  by (simp_all add: br_item_def br_insert_pos_def br_get_ring_buffer_size_def demo_fork_ring_def index_r_def)

lemma demo_latest:
  "br_get_latest_block_id (demo_fork_ring lc2 lc3 lc4 (Suc 0)) = Inr 1"
  "br_get_latest_block_id (demo_fork_ring (Some 0) lc3 lc4 2) = Inr 2"
  "br_get_latest_block_id (demo_fork_ring (Some (Suc 0)) lc3 lc4 2) = Inr 2"
  "br_get_latest_block_id (demo_fork_ring lc2 (Some 0) lc4 3) = Inr 3"
  "br_get_latest_block_id (demo_fork_ring lc2 (Some (Suc 0)) lc4 3) = Inr 3"
  "br_get_latest_block_id (demo_fork_ring lc2 lc3 (Some 0) 0) = Inr 4"
  by (simp_all add: br_get_latest_block_id_def demo_fork_ring_def index_r_def)

lemma demo_wind_ring:
  "br_on_chain_reorganization 2 [2] True (demo_fork_ring lc2 lc3 lc4 t) = Inr (demo_fork_ring (Some 0) lc3 lc4 2)"
  "br_on_chain_reorganization 3 [3] True (demo_fork_ring lc2 lc3 lc4 t) = Inr (demo_fork_ring lc2 (Some 0) lc4 3)"
  "br_on_chain_reorganization 4 [4] True (demo_fork_ring lc2 lc3 lc4 t) = Inr (demo_fork_ring lc2 lc3 (Some 0) 0)"
  by (simp_all add: br_on_chain_reorganization_def demo_ring_item ri_on_chain_reorganization_def)
    (simp_all add: demo_fork_ring_def numeral_eq_Suc)

lemma demo_unwind_ring:
  "br_on_chain_reorganization 2 h False (demo_fork_ring lc2 lc3 lc4 2) = Inr (demo_fork_ring None lc3 lc4 (Suc 0))"
  "br_on_chain_reorganization 3 h False (demo_fork_ring (Some (Suc 0)) lc3 lc4 3) = Inr (demo_fork_ring (Some (Suc 0)) None lc4 2)"
  by (simp_all add: br_on_chain_reorganization_def demo_ring_item ri_on_chain_reorganization_def)
    (simp_all add: demo_fork_ring_def numeral_eq_Suc index_r_def br_previous_tip_def)

lemma demo_longest:
  "br_get_longest_chain_block_hash_at_block_id 1 (demo_fork_ring lc2 lc3 lc4 t) = Inr (Some [1])"
  "\<exists>r. br_get_longest_chain_block_hash_at_block_id 2 (demo_fork_ring lc2 lc3 lc4 t) = Inr r"
  by (simp_all add: br_get_longest_chain_block_hash_at_block_id_def demo_ring_item)
    (simp add: demo_fork_ring_def get_opt_def)

lemma demo_supply_loaded:
  assumes "br_get_latest_block_id (bc_blockring bc) = Inr latest" and "latest \<in> {1, 2, 3, 4}"
    and "bc_blockring bc = demo_fork_ring lc2 lc3 lc4 t"
  shows "has_total_supply_loaded 2 bc = Inr True"
proof -
  obtain r where "br_get_longest_chain_block_hash_at_block_id 2 (demo_fork_ring lc2 lc3 lc4 t) = Inr r"
    using demo_longest by blast
  then show ?thesis
    using assms by (auto simp: has_total_supply_loaded_def bc_get_latest_block_id_def demo_longest simp del: rbind_eq_Inr)
qed

text \<open>The node with the ring and the blocks of the fork, and one step on it.\<close>

definition demo_tip_ok :: "BlockRing \<Rightarrow> bool" where
  "demo_tip_ok br \<longleftrightarrow> (\<exists>lc2 lc3 lc4 t latest. br = demo_fork_ring lc2 lc3 lc4 t \<and>
     br_get_latest_block_id br = Inr latest \<and> latest \<in> {1, 2, 3, 4})"

lemma demo_tips [simp]:
  "demo_tip_ok (demo_fork_ring lc2 lc3 lc4 (Suc 0))"
  "demo_tip_ok (demo_fork_ring (Some 0) lc3 lc4 2)" "demo_tip_ok (demo_fork_ring (Some (Suc 0)) lc3 lc4 2)"
  "demo_tip_ok (demo_fork_ring lc2 (Some 0) lc4 3)" "demo_tip_ok (demo_fork_ring lc2 (Some (Suc 0)) lc4 3)"
  "demo_tip_ok (demo_fork_ring lc2 lc3 (Some 0) 0)"
  unfolding demo_tip_ok_def using demo_latest by (metis insertCI)+

lemma demo_reorganization:
  assumes "demo_tip_ok br" and "b_id b \<le> 4"
  shows "bc_on_chain_reorganization X demo_fork_config (b_id b) h lc (demo_fork bs br) = Inr (True, demo_fork bs br)"
proof -
  from assms(1) obtain latest where "br_get_latest_block_id br = Inr latest" "latest \<in> {1, 2, 3, 4}"
    by (auto simp: demo_tip_ok_def)
  then show ?thesis
    using assms(2) by (auto simp: bc_on_chain_reorganization_def bc_downgrade_def downgrade_blockchain_data_def
        demo_fork_def bc_get_latest_block_id_def demo_fork_config_def simp del: rbind_eq_Inr)
qed

lemma demo_winds:
  assumes "map_of bs h = Some b" and "b_block_type b = BT_Ghost" and "b_transactions b = []"
    and "\<not> b_has_checkpoint b" and "0 < b_id b" and "b_id b \<le> 4"
    and "br_on_chain_reorganization (b_id b) (b_hash b) True br = Inr br'"
    and "demo_tip_ok br" and "demo_tip_ok br'"
  shows "winds X demo_fork_config h (demo_fork bs br) True (demo_fork (AList.update h (on_chain b) bs) br')"
proof -
  let ?bc = "nd_blockchain (demo_fork bs br)"
  from assms(8) obtain lc2 lc3 lc4 t latest where "br = demo_fork_ring lc2 lc3 lc4 t"
    "br_get_latest_block_id br = Inr latest" "latest \<in> {1, 2, 3, 4}" by (auto simp: demo_tip_ok_def)
  then have va: "has_total_supply_loaded 2 ?bc = Inr True"
    by (intro demo_supply_loaded) (simp_all add: demo_fork_def)
  have up: "upgrade_blocks_for_wind_chain X demo_fork_config (nd_disk (demo_fork bs br)) h ?bc = Inr ?bc"
    using assms(1) by (intro demo_upgrade) (simp_all add: demo_fork_def)
  have val: "validate_in_chain X demo_fork_config (nd_disk (demo_fork bs br)) ?bc True b = Inr True"
    using assms(2,5) by (simp add: validate_in_chain_def demo_fork_config_def)
  have "wind_block X demo_fork_config h b (demo_fork bs br) =
      Inr (True, demo_fork (AList.update h (on_chain b) bs) br')"
    using demo_reorganization [OF assms(9,6), of X h True "AList.update h (on_chain b) bs"] assms(3,7)
    by (simp add: wind_block_def Let_def wallet_on_chain_reorganization_def block_on_chain_reorganization_def
        with_block_def demo_fork_def bc_new_def on_chain_def del: rbind_eq_Inr)
  moreover have "(demo_fork bs br)\<lparr>nd_blockchain := ?bc\<rparr> = demo_fork bs br"
    "cfg_genesis_period demo_fork_config = 2" "map_of (bc_blocks ?bc) h = Some b"
    using assms(1) by (simp_all add: demo_fork_config_def demo_fork_def)
  ultimately show ?thesis unfolding winds_def using up va val assms(4) by auto
qed

lemma demo_rejects:
  assumes "map_of bs h = Some b" and "b_block_type b = BT_Full" and "b_transactions b = []"
    and "\<not> b_has_checkpoint b" and "1 < b_id b" and "demo_tip_ok br"
  shows "rejects X demo_fork_config h (demo_fork bs br) (demo_fork bs br)"
proof -
  let ?bc = "nd_blockchain (demo_fork bs br)"
  from assms(6) obtain lc2 lc3 lc4 t latest where "br = demo_fork_ring lc2 lc3 lc4 t"
    "br_get_latest_block_id br = Inr latest" "latest \<in> {1, 2, 3, 4}" by (auto simp: demo_tip_ok_def)
  then have va: "has_total_supply_loaded 2 ?bc = Inr True"
    by (intro demo_supply_loaded) (simp_all add: demo_fork_def)
  have up: "upgrade_blocks_for_wind_chain X demo_fork_config (nd_disk (demo_fork bs br)) h ?bc = Inr ?bc"
    using assms(1) by (intro demo_upgrade) (simp_all add: demo_fork_def)
  have "bs \<noteq> []" "b_id b \<noteq> 0" "b_id b \<noteq> 1" using assms(1,5) by auto
  then have val: "validate_in_chain X demo_fork_config (nd_disk (demo_fork bs br)) ?bc True b = Inr False"
    using assms(2,3) by (simp add: validate_in_chain_def demo_fork_config_def demo_fork_def)
  have "(demo_fork bs br)\<lparr>nd_blockchain := ?bc\<rparr> = demo_fork bs br"
    "cfg_genesis_period demo_fork_config = 2" "map_of (bc_blocks ?bc) h = Some b"
    using assms(1) by (simp_all add: demo_fork_config_def demo_fork_def)
  then show ?thesis unfolding rejects_def using up va val assms(4) by auto
qed

lemma demo_unwinds:
  assumes "map_of bs h = Some b" and "b_transactions b = []" and "\<not> b_has_checkpoint b" and "b_id b \<le> 4"
    and "br_on_chain_reorganization (b_id b) (b_hash b) False br = Inr br'" and "demo_tip_ok br'"
  shows "unwinds X demo_fork_config h (demo_fork bs br) True
    (demo_fork (AList.update h (b\<lparr>b_in_longest_chain := False\<rparr>) bs) br')"
proof -
  let ?dk = "nd_disk (demo_fork bs br)"
  have "dk_files ?dk = Map.empty" by (simp add: demo_fork_def)
  from upgrade_none [OF this, of X b] obtain ok where
    up: "block_upgrade_block_to_block_type X ?dk BT_Full False b = Inr (ok, b)" ..
  have "unwind_block X demo_fork_config h b (demo_fork bs br) =
      Inr (True, demo_fork (AList.update h (b\<lparr>b_in_longest_chain := False\<rparr>) bs) br')"
    using demo_reorganization [OF assms(6,4), of X "b_hash b" False "AList.update h (b\<lparr>b_in_longest_chain := False\<rparr>) bs"]
      assms(2,5) up
    by (simp add: unwind_block_def Let_def wallet_on_chain_reorganization_def block_on_chain_reorganization_def
        with_block_def demo_fork_def bc_new_def demo_fork_config_def del: rbind_eq_Inr)
  then show ?thesis using assms(1,3) by (simp add: unwinds_def demo_fork_def)
qed

definition demo_branch :: "bool \<Rightarrow> bool \<Rightarrow> blocks" where
  "demo_branch first_valid second_valid =
     [([1], on_chain (demo_ghost 1 [1] [])),
      ([2], if first_valid then demo_ghost 2 [2] [1] else demo_empty 2 [2] [1]),
      ([3], if second_valid then demo_ghost 3 [3] [2] else demo_empty 3 [3] [2]),
      ([4], demo_ghost 4 [4] [3]),
      ([22], on_chain (demo_ghost 2 [22] [1])),
      ([33], on_chain (demo_ghost 3 [33] [22]))]"

lemma demo_ghost_fields [simp]:
  "b_id (demo_ghost i h p) = i" "b_hash (demo_ghost i h p) = h" "b_transactions (demo_ghost i h p) = []"
  "b_block_type (demo_ghost i h p) = BT_Ghost" "b_has_checkpoint (demo_ghost i h p) = False"
  "(demo_ghost i h p)\<lparr>b_in_longest_chain := False\<rparr> = demo_ghost i h p"
  "b_id (demo_empty i h p) = i" "b_transactions (demo_empty i h p) = []"
  "b_block_type (demo_empty i h p) = BT_Full" "b_has_checkpoint (demo_empty i h p) = False"
  "(on_chain b)\<lparr>b_in_longest_chain := False\<rparr> = b\<lparr>b_in_longest_chain := False\<rparr>"
  "b_id (on_chain b) = b_id b" "b_hash (on_chain b) = b_hash b" "b_transactions (on_chain b) = b_transactions b"
  "b_has_checkpoint (on_chain b) = b_has_checkpoint b"
  "b_previous_block_hash (demo_ghost i h p) = p" "b_previous_block_hash (demo_empty i h p) = p"
  "b_previous_block_hash (on_chain b) = b_previous_block_hash b"
  "b_has_golden_ticket (on_chain b) = b_has_golden_ticket b"
  "\<not> b_has_golden_ticket (demo_ghost i h p)" "\<not> b_has_golden_ticket (demo_empty i h p)"
  by (simp_all add: demo_ghost_def demo_empty_def on_chain_def block_new_def)

definition demo_start :: "bool \<Rightarrow> bool \<Rightarrow> nat option \<Rightarrow> nat \<Rightarrow> node" where
  "demo_start v1 v2 lc3 tip = demo_fork (demo_branch v1 v2) (demo_fork_ring (Some (Suc 0)) lc3 None tip)"

lemma demo_tickets:
  assumes "h \<in> {[3], [4]}"
  shows "\<exists>b. map_of (bc_blocks (nd_blockchain (demo_start v1 v2 lc3 tip))) ((h # hs) ! 0) = Some b \<and>
    bc_is_golden_ticket_count_valid (nd_blockchain (demo_start v1 v2 lc3 tip)) (b_previous_block_hash b)
      (b_has_golden_ticket b) (cfg_is_browser demo_fork_config) (cfg_is_spv_mode demo_fork_config)"
proof -
  have five: "unat (MIN_GOLDEN_TICKETS_DENOMINATOR - 1) = Suc (Suc (Suc (Suc (Suc 0))))"
    "MIN_GOLDEN_TICKETS_DENOMINATOR - MIN_GOLDEN_TICKETS_NUMERATOR = 4"
    by (simp_all add: MIN_GOLDEN_TICKETS_DENOMINATOR_def MIN_GOLDEN_TICKETS_NUMERATOR_def)
  show ?thesis
    using assms
    by (cases v1; cases v2)
      (auto simp: demo_start_def demo_fork_def demo_branch_def bc_is_golden_ticket_count_valid_def is_golden_ticket_count_valid_def five
        Let_def)
qed

text \<open>The state after unwinding the branch of block 22, and the branch after it.\<close>

definition demo_left :: "bool \<Rightarrow> bool \<Rightarrow> bool \<Rightarrow> blocks" where
  "demo_left v1 v2 both = AList.update [22] (demo_ghost 2 [22] [1])
     (if both then AList.update [33] (demo_ghost 3 [33] [22]) (demo_branch v1 v2) else demo_branch v1 v2)"

lemma demo_unwind_short:
  "unwound X demo_fork_config (demo_start v1 v2 None 2) [[22]]
     (demo_fork (demo_left v1 v2 False) (demo_fork_ring None None None (Suc 0)))"
proof -
  have "unwinds X demo_fork_config [22] (demo_start v1 v2 None 2) True
     (demo_fork (demo_left v1 v2 False) (demo_fork_ring None None None (Suc 0)))"
    unfolding demo_start_def
    using demo_unwinds [of "demo_branch v1 v2" "[22]" "on_chain (demo_ghost 2 [22] [1])"
        "demo_fork_ring (Some (Suc 0)) None None 2" "demo_fork_ring None None None 1" X]
    by (simp add: demo_branch_def demo_unwind_ring demo_left_def)
  then show ?thesis by (auto intro: unwound.intros)
qed

lemma demo_unwind_long:
  "unwound X demo_fork_config (demo_start v1 v2 (Some (Suc 0)) 3) [[33], [22]]
     (demo_fork (demo_left v1 v2 True) (demo_fork_ring None None None (Suc 0)))"
proof -
  let ?bs = "AList.update [33] (demo_ghost 3 [33] [22]) (demo_branch v1 v2)"
  have "unwinds X demo_fork_config [33] (demo_start v1 v2 (Some (Suc 0)) 3) True
     (demo_fork ?bs (demo_fork_ring (Some (Suc 0)) None None 2))"
    unfolding demo_start_def
    using demo_unwinds [of "demo_branch v1 v2" "[33]" "on_chain (demo_ghost 3 [33] [22])"
        "demo_fork_ring (Some (Suc 0)) (Some (Suc 0)) None 3" "demo_fork_ring (Some (Suc 0)) None None 2" X]
    by (simp add: demo_branch_def demo_unwind_ring)
  moreover have "unwinds X demo_fork_config [22] (demo_fork ?bs (demo_fork_ring (Some (Suc 0)) None None 2)) True
     (demo_fork (demo_left v1 v2 True) (demo_fork_ring None None None (Suc 0)))"
    using demo_unwinds [of ?bs "[22]" "on_chain (demo_ghost 2 [22] [1])"
        "demo_fork_ring (Some (Suc 0)) None None 2" "demo_fork_ring None None None 1" X]
    by (simp add: demo_branch_def demo_unwind_ring demo_left_def)
  ultimately show ?thesis by (auto intro: unwound.intros)
qed

lemma demo_winds_ghost:
  assumes "map_of bs h = Some (demo_ghost i h p)" and "i \<in> {2, 3, 4}"
    and "br_on_chain_reorganization i h True br = Inr br'" and "demo_tip_ok br" and "demo_tip_ok br'"
  shows "winds X demo_fork_config h (demo_fork bs br) True
    (demo_fork (AList.update h (on_chain (demo_ghost i h p)) bs) br')"
  using assms by (intro demo_winds) auto

text \<open>Both branches valid: the longer one is adopted.\<close>

lemma demo_wound:
  "\<exists>bs. wound X demo_fork_config (demo_fork (demo_left True True False) (demo_fork_ring None None None (Suc 0))) [[2], [3]]
     (demo_fork bs (demo_fork_ring (Some 0) (Some 0) None 3))"
proof -
  let ?bs1 = "AList.update [2] (on_chain (demo_ghost 2 [2] [1])) (demo_left True True False)"
  have "winds X demo_fork_config [2] (demo_fork (demo_left True True False) (demo_fork_ring None None None (Suc 0))) True
      (demo_fork ?bs1 (demo_fork_ring (Some 0) None None 2))"
    by (rule demo_winds_ghost) (simp_all add: demo_left_def demo_branch_def demo_wind_ring)
  moreover have "winds X demo_fork_config [3] (demo_fork ?bs1 (demo_fork_ring (Some 0) None None 2)) True
      (demo_fork (AList.update [3] (on_chain (demo_ghost 3 [3] [2])) ?bs1) (demo_fork_ring (Some 0) (Some 0) None 3))"
    by (rule demo_winds_ghost) (simp_all add: demo_left_def demo_branch_def demo_wind_ring)
  ultimately show ?thesis by (blast intro: wound.intros)
qed

lemma demo_adopted:
  "\<exists>s bs. bc_validate demo_ext demo_fork_config [[3], [2]] [[22]] (demo_start True True None 2) =
     Some (Inr ((True, s), demo_fork bs (demo_fork_ring (Some 0) (Some 0) None 3)))"
proof -
  obtain bs where w: "wound demo_ext demo_fork_config
      (demo_fork (demo_left True True False) (demo_fork_ring None None None (Suc 0))) (rev [[3], [2]])
      (demo_fork bs (demo_fork_ring (Some 0) (Some 0) None 3))"
    using demo_wound by auto
  obtain b where "map_of (bc_blocks (nd_blockchain (demo_start True True None 2))) ([[3], [2]] ! 0) = Some b"
    "bc_is_golden_ticket_count_valid (nd_blockchain (demo_start True True None 2)) (b_previous_block_hash b)
      (b_has_golden_ticket b) (cfg_is_browser demo_fork_config) (cfg_is_spv_mode demo_fork_config)"
    using demo_tickets [where h = "[3]" and hs = "[[2]]" and ?v1.0 = True and ?v2.0 = True and ?lc3.0 = None and tip = 2] by blast
  from bc_validate_success [OF this demo_unwind_short w] show ?thesis by auto
qed

theorem valid_chain_accepted_witness:
  "\<exists>s bs. bc_validate demo_ext demo_fork_config [[3], [2]] [[22]] (demo_start True True None 2) =
     Some (Inr ((True, s), demo_fork bs (demo_fork_ring (Some 0) (Some 0) None 3)))"
proof -
  obtain bs where w: "wound demo_ext demo_fork_config
      (demo_fork (demo_left True True False) (demo_fork_ring None None None (Suc 0))) (rev [[3], [2]])
      (demo_fork bs (demo_fork_ring (Some 0) (Some 0) None 3))"
    using demo_wound by auto
  obtain b where "map_of (bc_blocks (nd_blockchain (demo_start True True None 2))) ([[3], [2]] ! 0) = Some b"
    "bc_is_golden_ticket_count_valid (nd_blockchain (demo_start True True None 2)) (b_previous_block_hash b)
      (b_has_golden_ticket b) (cfg_is_browser demo_fork_config) (cfg_is_spv_mode demo_fork_config)"
    using demo_tickets [where h = "[3]" and hs = "[[2]]" and ?v1.0 = True and ?v2.0 = True and ?lc3.0 = None and tip = 2] by blast
  from valid_chain_accepted [OF this demo_unwind_short w] show ?thesis by auto
qed


text \<open>A first block without transactions: it is rejected, and the two blocks above it are wound.\<close>

theorem failed_ancestor_is_skipped_witness:
  "\<exists>s bs. bc_validate demo_ext demo_fork_config [[4], [3], [2]] [[33], [22]] (demo_start False True (Some (Suc 0)) 3) =
     Some (Inr ((True, s), demo_fork bs (demo_fork_ring None (Some 0) (Some 0) 0)))"
proof -
  let ?nd = "demo_fork (demo_left False True True) (demo_fork_ring None None None (Suc 0))"
  let ?bs1 = "AList.update [3] (on_chain (demo_ghost 3 [3] [2])) (demo_left False True True)"
  have r: "rejects demo_ext demo_fork_config (last [[4], [3], [2]]) ?nd ?nd"
    using demo_rejects [of "demo_left False True True" "[2]" "demo_empty 2 [2] [1]"]
    by (simp add: demo_left_def demo_branch_def)
  have w1: "winds demo_ext demo_fork_config [3] ?nd True (demo_fork ?bs1 (demo_fork_ring None (Some 0) None 3))"
    by (rule demo_winds_ghost) (simp_all add: demo_left_def demo_branch_def demo_wind_ring)
  have w2: "winds demo_ext demo_fork_config [4] (demo_fork ?bs1 (demo_fork_ring None (Some 0) None 3)) True
      (demo_fork (AList.update [4] (on_chain (demo_ghost 4 [4] [3])) ?bs1) (demo_fork_ring None (Some 0) (Some 0) 0))"
    by (rule demo_winds_ghost) (simp_all add: demo_left_def demo_branch_def demo_wind_ring)
  have w: "wound demo_ext demo_fork_config ?nd (rev (take (length [[33], [22 :: 8 word]]) [[4], [3], [2]]))
      (demo_fork (AList.update [4] (on_chain (demo_ghost 4 [4] [3])) ?bs1) (demo_fork_ring None (Some 0) (Some 0) 0))"
    using wound_Cons [OF w1 wound_Cons [OF w2 wound_Nil]] by (simp add: numeral_eq_Suc)
  obtain b where "map_of (bc_blocks (nd_blockchain (demo_start False True (Some (Suc 0)) 3))) ([[4], [3], [2]] ! 0) = Some b"
    "bc_is_golden_ticket_count_valid (nd_blockchain (demo_start False True (Some (Suc 0)) 3)) (b_previous_block_hash b)
      (b_has_golden_ticket b) (cfg_is_browser demo_fork_config) (cfg_is_spv_mode demo_fork_config)"
    using demo_tickets [where h = "[4]" and hs = "[[3], [2]]" and ?v1.0 = False and ?v2.0 = True and ?lc3.0 = "Some (Suc 0)" and tip = 3] by blast
  from failed_ancestor_is_skipped [OF this demo_unwind_long r w] show ?thesis by auto
qed


section \<open>The effect of winding one block\<close>

text \<open>Loading transactions changes stored blocks only, and no full block.\<close>

definition blocks_only :: "Blockchain \<Rightarrow> Blockchain \<Rightarrow> bool" where
  "blocks_only bc bc' \<longleftrightarrow> (\<exists>bs. bc' = bc\<lparr>bc_blocks := bs\<rparr>) \<and>
     (\<forall>k b. map_of (bc_blocks bc) k = Some b \<longrightarrow> b_block_type b = BT_Full \<longrightarrow>
        map_of (bc_blocks bc') k = Some b)"

lemma blocks_only_refl [simp]: "blocks_only bc bc"
  by (auto simp: blocks_only_def intro: exI [of _ "bc_blocks bc"])

lemma blocks_only_trans: "blocks_only a b \<Longrightarrow> blocks_only b c \<Longrightarrow> blocks_only a c"
  by (fastforce simp: blocks_only_def)

lemma blocks_only_ring: "blocks_only bc bc' \<Longrightarrow> bc_blockring bc' = bc_blockring bc"
  by (auto simp: blocks_only_def)

lemma upgrade_full:
  "b_block_type b = BT_Full \<Longrightarrow> block_upgrade_block_to_block_type X dk BT_Full spv b = Inr (True, b)"
  by (simp add: block_upgrade_block_to_block_type_def)

lemma upgrade_indexed_frame:
  "upgrade_indexed_block X conf dk h bc = Inr bc' \<Longrightarrow> blocks_only bc bc'"
  by (auto simp: upgrade_indexed_block_def blocks_only_def with_block_def update_conv' upgrade_full)

lemma upgrade_previous_frame:
  "upgrade_previous_loop X conf dk l is bc = Inr bc' \<Longrightarrow> blocks_only bc bc'"
proof (induction "is" arbitrary: bc)
  case (Cons i "is")
  show ?case
  proof (cases "i \<ge> l")
    case False
    with Cons.prems obtain r where
      r: "br_get_longest_chain_block_hash_at_block_id (l - i) (bc_blockring bc) = Inr r"
      by (auto simp del: rbind_eq_Inr) (cases "br_get_longest_chain_block_hash_at_block_id (l - i) (bc_blockring bc)"; simp)
    show ?thesis
    proof (cases r)
      case None
      with Cons r False show ?thesis by simp
    next
      case (Some h)
      show ?thesis
      proof (cases "bc_is_block_indexed bc h")
        case True
        with Cons.prems r False Some obtain bc1 where
          "upgrade_indexed_block X conf dk h bc = Inr bc1" "upgrade_previous_loop X conf dk l is bc1 = Inr bc'"
          by auto
        then show ?thesis using upgrade_indexed_frame Cons.IH blocks_only_trans by blast
      qed (use Cons r False Some in simp)
    qed
  qed (use Cons.prems in simp)
qed simp

lemma upgrade_blocks_frame:
  "upgrade_blocks_for_wind_chain X conf dk h bc = Inr bc' \<Longrightarrow> blocks_only bc bc'"
  by (auto simp: upgrade_blocks_for_wind_chain_def
      dest!: upgrade_indexed_frame upgrade_previous_frame intro: blocks_only_trans)

text \<open>What the bookkeeping leaves alone.\<close>

definition same_ledger :: "node \<Rightarrow> node \<Rightarrow> bool" where
  "same_ledger nd nd' \<longleftrightarrow> nd_wallet nd' = nd_wallet nd \<and> nd_disk nd' = nd_disk nd \<and>
     bc_utxoset (nd_blockchain nd') = bc_utxoset (nd_blockchain nd) \<and>
     bc_blockring (nd_blockchain nd') = bc_blockring (nd_blockchain nd)"

lemma downgrade_loop_frame: "\<exists>bs. downgrade_loop hs bc = bc\<lparr>bc_blocks := bs\<rparr>"
proof (induction hs arbitrary: bc)
  case Nil
  show ?case by (auto intro: exI [of _ "bc_blocks bc"])
next
  case (Cons h hs)
  obtain bs1 where "downgrade_loop hs bc = bc\<lparr>bc_blocks := bs1\<rparr>" using Cons by blast
  moreover have "\<exists>bs2. downgrade_loop hs (with_block h b bc) = bc\<lparr>bc_blocks := bs2\<rparr>" for b
    using Cons [of "with_block h b bc"] by (auto simp: with_block_def)
  ultimately show ?case by (auto split: option.split)
qed

lemma bc_downgrade_frame:
  assumes "bc_downgrade conf nd = Inr nd'"
  shows "\<exists>bs. nd' = nd\<lparr>nd_blockchain := (nd_blockchain nd)\<lparr>bc_blocks := bs\<rparr>\<rparr>"
proof -
  from assms obtain bc where bc: "downgrade_blockchain_data conf (nd_blockchain nd) = Inr bc"
    "nd' = nd\<lparr>nd_blockchain := bc\<rparr>" by (auto simp: bc_downgrade_def)
  then have "\<exists>bs. bc = (nd_blockchain nd)\<lparr>bc_blocks := bs\<rparr>"
    using downgrade_loop_frame [of _ "nd_blockchain nd"]
    by (auto simp: downgrade_blockchain_data_def split: if_splits)
      (auto intro: exI [of _ "bc_blocks (nd_blockchain nd)"])
  with bc(2) show ?thesis by blast
qed

lemma bc_update_fork_id_frame:
  "bc_update_fork_id i bc = Inr bc' \<Longrightarrow> \<exists>f. bc' = bc\<lparr>bc_fork_id := f\<rparr>"
  by (auto simp: bc_update_fork_id_def bc_set_fork_id_def split: option.splits)
    (auto intro: exI [of _ "bc_fork_id bc"])

lemma tip_reorganization:
  assumes "bc_on_chain_reorganization X conf i h True nd = Inr (u, nd')"
    and "bc_last_block_id (nd_blockchain nd) < i"
    and "bc_get_latest_block_id (nd_blockchain nd) = Inr latest" and "latest < cfg_genesis_period conf * 2 + 1"
    and "map_of (bc_blocks (nd_blockchain nd)) h = Some b"
  shows "same_ledger nd nd' \<and> bc_last_block_id (nd_blockchain nd') = i \<and>
    bc_last_block_hash (nd_blockchain nd') = b_hash b \<and>
    bc_last_timestamp (nd_blockchain nd') = b_timestamp b \<and>
    bc_last_burnfee (nd_blockchain nd') = b_burnfee b"
proof -
  let ?bc1 = "bc_record_tip i h (nd_blockchain nd)"
  have latest: "bc_get_latest_block_id ?bc1 = Inr latest"
    using assms(3,5) by (simp add: bc_record_tip_def bc_get_latest_block_id_def Let_def)
  have gen: "update_genesis_period X conf (nd\<lparr>nd_blockchain := ?bc1\<rparr>) = Inr (False, nd\<lparr>nd_blockchain := ?bc1\<rparr>)"
    using assms(4) latest by (simp add: update_genesis_period_def not_le [symmetric] del: rbind_eq_Inr)
  have "\<not> bc_last_block_id (nd_blockchain nd) \<ge> i" using assms(2) by simp
  with assms(1) gen obtain bc2 where
    2: "bc_update_fork_id i ?bc1 = Inr bc2" and 3: "bc_downgrade conf (nd\<lparr>nd_blockchain := bc2\<rparr>) = Inr nd'"
    by (auto simp: bc_on_chain_reorganization_def)
  show ?thesis
    using bc_update_fork_id_frame [OF 2] bc_downgrade_frame [OF 3] assms(5)
    by (auto simp: same_ledger_def bc_record_tip_def Let_def)
qed


lemma values_without_transactions:
  assumes "b_transactions b = []" and "b_id b \<le> cfg_genesis_period conf + 1" and "cfg_genesis_period conf \<noteq> 0"
  shows "\<exists>cv. generate_consensus_values X conf bc dk b = Inr cv"
proof -
  let ?p = "map_of (bc_blocks bc) (b_previous_block_hash b)"
  obtain cv2 where 2: "cv2 = cv_burnfee_difficulty conf ?p b cv_new" by blast
  then have g2: "c_gt_index cv2 = None" by (simp add: cv_burnfee_difficulty_def cv_new_def Let_def split: option.split)
  have r: "cv_rebroadcast X conf bc dk ?p b cv = Inr cv" for cv
    using assms(2) by (simp add: cv_rebroadcast_def not_less [symmetric] del: rbind_eq_Inr)
  obtain cv5 where 5: "cv_fee_averages conf ?p (cv2\<lparr>c_total_fees_cumulative := c_total_fees_new cv2\<rparr>) = Inr cv5"
    "c_gt_index cv5 = None"
    using assms(3) g2 by (simp add: cv_fee_averages_def Let_def average_step_def)
  obtain cv6 where 6: "cv_payouts X bc 0 b cv5 = Inr cv6" using 5(2) by (simp add: cv_payouts_def)
  obtain cv7 where "cv_payout_averages conf ?p cv6 = Inr cv7"
    using assms(3) by (simp add: cv_payout_averages_def Let_def average_step_def)
  then show ?thesis
    using assms(1) 2 r 5(1) 6 by (simp add: generate_consensus_values_def Let_def)
qed

definition demo_light_config :: node_config where
  "demo_light_config = demo_fork_config\<lparr>cfg_is_spv_mode := True\<rparr>"

definition demo_light :: node where
  "demo_light = demo_fork [([1], on_chain (demo_ghost 1 [1] [])), ([2], demo_empty 2 [2] [1])]
     (demo_fork_ring None None None (Suc 0))"

definition demo_light_start :: node where
  "demo_light_start = demo_light\<lparr>nd_blockchain := (nd_blockchain demo_light)\<lparr>bc_last_block_id := 1\<rparr>\<rparr>"

lemma demo_light_winds: "\<exists>u nd'. winds X demo_light_config [2] demo_light_start u nd'"
proof -
  let ?nd = demo_light_start and ?b = "demo_empty 2 [2] [1]"
  let ?bc = "nd_blockchain demo_light_start"
  have f: "map_of (bc_blocks ?bc) [2] = Some ?b" "bc_blockring ?bc = demo_fork_ring None None None (Suc 0)"
    "bc_last_block_id ?bc = 1" "nd_wallet ?nd = wallet_new [] []"
    by (simp_all add: demo_light_start_def demo_light_def demo_fork_def)
  have up: "upgrade_blocks_for_wind_chain X demo_light_config (nd_disk ?nd) [2] ?bc = Inr ?bc"
    using f(1) by (simp add: upgrade_blocks_for_wind_chain_def upgrade_indexed_block_def upgrade_full with_block_def
        update_same demo_light_config_def demo_fork_config_def del: rbind_eq_Inr)
  have va: "has_total_supply_loaded (cfg_genesis_period demo_light_config) ?bc = Inr True"
    using demo_supply_loaded [of ?bc 1 None None None "Suc 0"] f(2) demo_latest(1)
    by (simp add: demo_light_config_def demo_fork_config_def)
  obtain cv where "generate_consensus_values X demo_light_config ?bc (nd_disk ?nd) ?b = Inr cv"
    using values_without_transactions [of ?b demo_light_config X ?bc "nd_disk ?nd"]
    by (auto simp: demo_light_config_def demo_fork_config_def)
  then have val: "validate_in_chain X demo_light_config (nd_disk ?nd) ?bc True ?b = Inr True"
    by (simp add: validate_in_chain_def demo_light_config_def demo_fork_config_def)
  have h: "b_hash ?b = [2]" by (simp add: demo_empty_def)
  define nd1 where "nd1 = ?nd\<lparr>nd_wallet := wallet_new [] [], nd_blockchain := with_block [2] (?b\<lparr>b_in_longest_chain := True\<rparr>)
      (?bc\<lparr>bc_blockring := demo_fork_ring (Some 0) None None 2\<rparr>)\<rparr>"
  have ring1: "bc_blockring (bc_record_tip 2 [2] (nd_blockchain nd1)) = demo_fork_ring (Some 0) None None 2"
    by (simp add: nd1_def with_block_def bc_record_tip_def Let_def split: option.split)
  have gen: "update_genesis_period X demo_light_config (nd1\<lparr>nd_blockchain := bc_record_tip 2 [2] (nd_blockchain nd1)\<rparr>) =
      Inr (False, nd1\<lparr>nd_blockchain := bc_record_tip 2 [2] (nd_blockchain nd1)\<rparr>)"
    by (simp add: update_genesis_period_def bc_get_latest_block_id_def ring1 demo_latest demo_light_config_def
        demo_fork_config_def del: rbind_eq_Inr)
  have fork: "bc_update_fork_id 2 bc = Inr bc" for bc
    by (simp add: bc_update_fork_id_def bc_generate_fork_id_def FORK_ID_WEIGHTS_def)
  have down: "bc_downgrade demo_light_config (nd1\<lparr>nd_blockchain := bc_record_tip 2 [2] (nd_blockchain nd1)\<rparr>) =
      Inr (nd1\<lparr>nd_blockchain := bc_record_tip 2 [2] (nd_blockchain nd1)\<rparr>)"
    by (simp add: bc_downgrade_def downgrade_blockchain_data_def bc_get_latest_block_id_def ring1 demo_latest
        demo_light_config_def demo_fork_config_def del: rbind_eq_Inr)
  have no: "\<not> (2 :: u64) \<le> 1" by (simp add: word_le_nat_alt)
  have "bc_last_block_id (nd_blockchain nd1) = 1" using f(3) by (simp add: nd1_def with_block_def)
  then have "bc_on_chain_reorganization X demo_light_config 2 [2] True nd1 =
      Inr (False, nd1\<lparr>nd_blockchain := bc_record_tip 2 [2] (nd_blockchain nd1)\<rparr>)"
    using gen fork down no by (simp add: bc_on_chain_reorganization_def del: rbind_eq_Inr)
  then obtain c nd' where "bc_on_chain_reorganization X demo_light_config 2 [2] True nd1 = Inr (c, nd')" by blast
  then have "wind_block X demo_light_config [2] ?b ?nd = Inr (c, nd')"
    using f h by (simp add: wind_block_def Let_def demo_wind_ring wallet_on_chain_reorganization_def
        block_on_chain_reorganization_def nd1_def del: rbind_eq_Inr)
  then have "winds X demo_light_config [2] ?nd c nd'"
    unfolding winds_def using up f(1) va val by auto
  then show ?thesis by blast
qed


end
