(* ===== verification/Block_Create.thy ===== *)
theory Block_Create
  imports Consensus_Rules Block_Rules
begin

text \<open>
  Producing a block: \<^verbatim>\<open>Block::create\<close> of \<^verbatim>\<open>consensus/block.rs\<close>. The transactions drained from the
  mempool are an association list in the order the hash map yields them.
\<close>

text \<open>The header fields copied from the consensus values.\<close>

definition block_fill_header :: "ConsensusValues \<Rightarrow> u64 \<Rightarrow> u64 \<Rightarrow> block \<Rightarrow> block" where
  "block_fill_header cv previous_block_treasury previous_block_graveyard b =
     b\<lparr>b_total_fees_new := c_total_fees_new cv,
       b_total_fees_atr := c_total_fees_atr cv,
       b_total_fees_cumulative := c_total_fees_cumulative cv,
       b_total_fees := c_total_fees_new cv + c_total_fees_atr cv,
       b_avg_total_fees := c_avg_total_fees cv,
       b_avg_total_fees_new := c_avg_total_fees_new cv,
       b_avg_total_fees_atr := c_avg_total_fees_atr cv,
       b_total_payout_routing := c_total_payout_routing cv,
       b_total_payout_mining := c_total_payout_mining cv,
       b_total_payout_treasury := c_total_payout_treasury cv,
       b_total_payout_graveyard := c_total_payout_graveyard cv,
       b_total_payout_atr := c_total_payout_atr cv,
       b_avg_payout_routing := c_avg_payout_routing cv,
       b_avg_payout_mining := c_avg_payout_mining cv,
       b_avg_payout_treasury := c_avg_payout_treasury cv,
       b_avg_payout_graveyard := c_avg_payout_graveyard cv,
       b_avg_payout_atr := c_avg_payout_atr cv,
       b_avg_fee_per_byte := c_avg_fee_per_byte cv,
       b_fee_per_byte := c_fee_per_byte cv,
       b_avg_nolan_rebroadcast_per_block := c_avg_nolan_rebroadcast_per_block cv,
       b_burnfee := c_burnfee cv,
       b_difficulty := c_difficulty cv,
       b_treasury := previous_block_treasury + c_total_payout_treasury cv - c_total_payout_atr cv,
       b_graveyard := previous_block_graveyard + c_total_payout_graveyard cv\<rparr>"

text \<open>The inputs of every transaction but the fee transaction; a repeated key is an error.\<close>

fun spend_all_inputs :: "transaction list \<Rightarrow> (bytes \<times> u64) list \<Rightarrow> (bytes \<times> u64) list res" where
  "spend_all_inputs [] spent = Inr spent"
| "spend_all_inputs (tx # txs) spent =
     (if tx_transaction_type tx \<noteq> TT_Fee
      then rbind (spend_inputs (tx_from tx) spent) (spend_all_inputs txs)
      else spend_all_inputs txs spent)"

text \<open>\<^verbatim>\<open>tx.generate(public_key, index, block.id)\<close> over the rebroadcasts.\<close>

definition generate_rebroadcasts :: "ext \<Rightarrow> bytes \<Rightarrow> u64 \<Rightarrow> transaction list \<Rightarrow> transaction list" where
  "generate_rebroadcasts X public_key block_id txs =
     map (\<lambda>(i, tx). tx_generate X public_key (of_nat i) block_id tx) (enumerate 0 txs)"

definition block_seed ::
  "blocks \<Rightarrow> (bytes \<times> transaction) list \<Rightarrow> bytes \<Rightarrow> u64 \<Rightarrow> bytes \<Rightarrow> transaction option \<Rightarrow> block" where
  "block_seed blocks transactions previous_block_hash current_timestamp public_key golden_ticket =
     (let previous = map_of blocks previous_block_hash
      in block_new\<lparr>b_id := previous_value b_id previous + 1,
           b_previous_block_hash := previous_block_hash, b_timestamp := current_timestamp,
           b_creator := public_key,
           b_previous_block_unpaid :=
             (if golden_ticket \<noteq> None then 0 else previous_value b_total_fees previous),
           b_transactions := (case golden_ticket of Some gt \<Rightarrow> [gt] | None \<Rightarrow> []) @
             map snd transactions\<rparr>)"

definition block_create ::
  "ext \<Rightarrow> node_config \<Rightarrow> Blockchain \<Rightarrow> disk \<Rightarrow> (bytes \<times> transaction) list \<Rightarrow> bytes \<Rightarrow> u64 \<Rightarrow>
   bytes \<Rightarrow> bytes \<Rightarrow> transaction option \<Rightarrow> block res" where
  "block_create X conf bc dk transactions previous_block_hash current_timestamp public_key
     private_key golden_ticket =
     (let previous = map_of (bc_blocks bc) previous_block_hash;
          b0 = block_seed (bc_blocks bc) transactions previous_block_hash current_timestamp
                 public_key golden_ticket
      in rbind (generate_consensus_values X conf bc dk b0) (\<lambda>cv.
         let b1 = block_fill_header cv (previous_value b_treasury previous)
                    (previous_value b_graveyard previous) b0;
             b2 = b1\<lparr>b_transactions := b_transactions b1 @
                    generate_rebroadcasts X public_key (b_id b1) (c_rebroadcasts cv)\<rparr>
         in rbind (case c_fee_transaction cv of
                     Some fee_tx \<Rightarrow>
                       rbind (tx_sign X private_key (fee_tx\<lparr>tx_hash_for_signature :=
                                Some (hash X (tx_serialize_for_signature fee_tx))\<rparr>)) (\<lambda>fee_tx1.
                         Inr (block_add_transaction fee_tx1 b2))
                   | None \<Rightarrow> Inr b2) (\<lambda>b3.
            rbind (spend_all_inputs (b_transactions b3) (b_slips_spent_this_block b3)) (\<lambda>spent.
            let b4 = b3\<lparr>b_slips_spent_this_block := spent,
                        b_created_hashmap_of_slips_spent_this_block := True\<rparr>
            in rbind (block_generate_merkle_root X (cfg_is_browser conf) (cfg_is_spv_mode conf) b4)
                 (\<lambda>root.
                 let b5 = block_generate_pre_hash X (b4\<lparr>b_merkle_root := root\<rparr>)
                 in rbind (block_sign X private_key b5) (block_generate X))))))"

section \<open>What generate leaves alone\<close>

lemma header_frame [simp]:
  "block_header.truncate (b\<lparr>b_slips_spent_this_block := s\<rparr>) = block_header.truncate b"
  "block_header.truncate (b\<lparr>b_created_hashmap_of_slips_spent_this_block := f\<rparr>) = block_header.truncate b"
  "block_header.truncate (b\<lparr>b_rebroadcast_hash := h\<rparr>) = block_header.truncate b"
  "block_header.truncate (b\<lparr>b_total_rebroadcast_slips := n\<rparr>) = block_header.truncate b"
  "block_header.truncate (b\<lparr>b_has_staking_transaction := f\<rparr>) = block_header.truncate b"
  "block_header.truncate (b\<lparr>b_transactions := txs\<rparr>) = block_header.truncate b"
  "block_header.truncate (b\<lparr>b_pre_hash := h\<rparr>) = block_header.truncate b"
  "block_header.truncate (b\<lparr>b_hash := h\<rparr>) = block_header.truncate b"
  "block_header.truncate (b\<lparr>b_transaction_map := m\<rparr>) = block_header.truncate b"
  "block_header.truncate (b\<lparr>b_has_fee_transaction := f\<rparr>) = block_header.truncate b"
  "block_header.truncate (b\<lparr>b_has_golden_ticket := f\<rparr>) = block_header.truncate b"
  "block_header.truncate (b\<lparr>b_has_issuance_transaction := f\<rparr>) = block_header.truncate b"
  "block_header.truncate (b\<lparr>b_fee_transaction_index := i\<rparr>) = block_header.truncate b"
  "block_header.truncate (b\<lparr>b_golden_ticket_index := i\<rparr>) = block_header.truncate b"
  "block_header.truncate (b\<lparr>b_issuance_transaction_index := i\<rparr>) = block_header.truncate b"
  "block_header.truncate (b\<lparr>b_total_work := i\<rparr>) = block_header.truncate b"
  by (simp_all add: block_header.truncate_def)

lemma block_note_type_header:
  "block_note_type X i tx (l, b) = (l', b') \<Longrightarrow>
   block_header.truncate b' = block_header.truncate b \<and> b_pre_hash b' = b_pre_hash b"
  by (auto simp: block_note_type_def split: TransactionType.splits)

text \<open>The keys spent by the transactions of a block, the fee transaction apart.\<close>

definition spent_keys :: "transaction list \<Rightarrow> bytes list" where
  "spent_keys txs =
     concat (map (\<lambda>tx. map slip_get_utxoset_key (filter (\<lambda>s. slip_amount s \<noteq> 0) (tx_from tx)))
       (filter (\<lambda>tx. tx_transaction_type tx \<noteq> TT_Fee) txs))"

lemma spent_keys_Cons:
  "spent_keys (tx # txs) =
     (if tx_transaction_type tx = TT_Fee then []
      else map slip_get_utxoset_key (filter (\<lambda>s. slip_amount s \<noteq> 0) (tx_from tx))) @ spent_keys txs"
  by (simp add: spent_keys_def)

lemma block_sweep_frame:
  "block_sweep X i txs l b = Inr (txs', l', b') \<Longrightarrow>
   block_header.truncate b' = block_header.truncate b \<and> b_pre_hash b' = b_pre_hash b \<and>
   spent_keys txs' = spent_keys txs"
proof (induction txs arbitrary: i l b txs' l' b')
  case (Cons tx0 txs)
  obtain c tx where c: "tx_generate_cumulative_fees (gl_cumulative_fees l) tx0 = (c, tx)" by force
  then have tx: "tx_from tx = tx_from tx0" "tx_transaction_type tx = tx_transaction_type tx0"
    by (auto simp: tx_generate_cumulative_fees_def Let_def)
  let ?l1 = "l\<lparr>gl_cumulative_fees := c, gl_total_work := gl_total_work l + tx_total_work_for_me tx\<rparr>"
  from Cons.prems c obtain b1 txs1 where
    0: "(if \<not> b_created_hashmap_of_slips_spent_this_block b \<and> tx_transaction_type tx \<noteq> TT_Fee
         then rbind (spend_inputs (tx_from tx) (b_slips_spent_this_block b)) (\<lambda>spent.
           Inr (b\<lparr>b_slips_spent_this_block := spent,
                  b_created_hashmap_of_slips_spent_this_block := True\<rparr>))
         else Inr b) = Inr b1" and
    3: "block_sweep X (i + 1) txs (fst (block_note_type X i tx (?l1, b1)))
          (snd (block_note_type X i tx (?l1, b1))) = Inr (txs1, l', b')" "txs' = tx # txs1"
    by (auto simp: Let_def case_prod_beta simp del: not_not)
  have 1: "block_header.truncate b1 = block_header.truncate b \<and> b_pre_hash b1 = b_pre_hash b"
    using 0 by (auto split: if_splits)
  with 3 Cons.IH [OF 3(1)] block_note_type_header [of X i tx ?l1 b1] tx show ?case
    by (metis prod.collapse spent_keys_Cons)
qed (simp add: spent_keys_def)

lemma tx_generate_type: "tx_transaction_type (tx_generate X pk i bid tx) = tx_transaction_type tx"
  by (simp add: tx_generate_def tx_generate_total_work_def tx_generate_total_fees_def
      tx_generate_hash_for_signature_def Let_def split: list.split option.split)

lemma spent_keys_generate_txs: "spent_keys (block_generate_txs X pk bid i txs) = spent_keys txs"
proof (induction txs arbitrary: i)
  case (Cons tx txs)
  have "map slip_get_utxoset_key (filter (\<lambda>s. slip_amount s \<noteq> 0) (map slip_generate_utxoset_key ss)) =
      map slip_get_utxoset_key (filter (\<lambda>s. slip_amount s \<noteq> 0) ss)" for ss
    by (induction ss) auto
  then show ?case using Cons.IH by (simp add: spent_keys_Cons tx_generate_from tx_generate_type)
qed simp

lemma block_generate_frame:
  assumes "block_generate X b = Inr b'"
  shows "block_header.truncate b' = (block_header.truncate b)\<lparr>b_merkle_root := b_merkle_root b'\<rparr> \<and>
    (b_merkle_root b \<noteq> replicate 32 0 \<longrightarrow> b_merkle_root b' = b_merkle_root b) \<and>
    b_pre_hash b' = hash X (block_serialize_for_signature b') \<and>
    spent_keys (b_transactions b') = spent_keys (b_transactions b)"
proof -
  let ?b1 = "b\<lparr>b_total_rebroadcast_slips := 0, b_rebroadcast_hash := replicate 32 0,
    b_transactions := block_generate_txs X (b_creator b) (b_id b) 0 (b_transactions b)\<rparr>"
  let ?b2 = "block_generate_transaction_hashmap ?b1"
  from assms obtain b3 txs l b5 where
    3: "(if b_merkle_root ?b2 = replicate 32 0
         then rbind (block_generate_merkle_root X False False ?b2) (\<lambda>r. Inr (?b2\<lparr>b_merkle_root := r\<rparr>))
         else Inr ?b2) = Inr b3" and
    5: "block_sweep X 0 (b_transactions b3) generate_locals_init
          (block_generate_hash X (block_generate_pre_hash X b3)) = Inr (txs, l, b5)" and
    b': "block_header.truncate b' = block_header.truncate b5" "b_pre_hash b' = b_pre_hash b5"
      "b_transactions b' = txs"
    by (auto simp: block_generate_def Let_def block_generate_hash_def block_generate_pre_hash_def)
  have m: "b_merkle_root ?b2 = b_merkle_root b" "block_header.truncate ?b2 = block_header.truncate b"
    "b_transactions ?b2 = b_transactions ?b1"
    by (simp_all add: block_generate_transaction_hashmap_def)
  have h: "block_header.truncate (b\<lparr>b_merkle_root := r\<rparr>) = (block_header.truncate b)\<lparr>b_merkle_root := r\<rparr>" for b :: block and r
    by (simp add: block_header.truncate_def)
  have h0: "(block_header.truncate b)\<lparr>b_merkle_root := b_merkle_root b\<rparr> = block_header.truncate b"
    by (simp add: block_header.truncate_def)
  have s: "block_header.truncate x = block_header.truncate y \<Longrightarrow>
      block_serialize_for_signature x = block_serialize_for_signature y \<and> b_merkle_root x = b_merkle_root y"
    for x y :: block
    by (simp add: block_header.truncate_def block_serialize_for_signature_def)
  note fr = block_sweep_frame [OF 5]
  have b3: "block_header.truncate b3 = (block_header.truncate b)\<lparr>b_merkle_root := b_merkle_root b3\<rparr>"
    "b_merkle_root b \<noteq> replicate 32 0 \<longrightarrow> b_merkle_root b3 = b_merkle_root b"
    "b_transactions b3 = b_transactions ?b1"
    using 3 m h0 by (auto simp: h split: if_splits)
  have e: "block_header.truncate b' = block_header.truncate b3"
    "b_pre_hash b' = hash X (block_serialize_for_signature b3)"
    using fr b' by (simp_all add: block_generate_hash_def block_generate_pre_hash_def)
  show ?thesis
    using b3 e s [OF e(1)] fr b' spent_keys_generate_txs by simp
qed

section \<open>Created blocks\<close>

lemma spent_insert:
  assumes "distinct xs \<and> insert k D \<inter> S = {} \<and> D' = insert k D \<union> S \<and> P"
    and "set xs = S" and "k \<notin> D"
  shows "distinct (k # xs) \<and> D \<inter> insert k S = {} \<and> D' = D \<union> insert k S \<and> P"
  using assms by auto

lemma spend_inputs_Inr:
  assumes "spend_inputs ss spent = Inr spent'" and "\<forall>k e. map_of spent k = Some e \<longrightarrow> e = 1"
  shows "distinct (map slip_get_utxoset_key (filter (\<lambda>s. slip_amount s \<noteq> 0) ss)) \<and>
    dom (map_of spent) \<inter> slip_get_utxoset_key ` {s \<in> set ss. slip_amount s \<noteq> 0} = {} \<and>
    dom (map_of spent') = dom (map_of spent) \<union> slip_get_utxoset_key ` {s \<in> set ss. slip_amount s \<noteq> 0} \<and>
    (\<forall>k e. map_of spent' k = Some e \<longrightarrow> e = 1)"
  using assms
proof (induction ss arbitrary: spent)
  case (Cons s ss)
  show ?case
  proof (cases "slip_amount s = 0")
    case False
    let ?k = "slip_get_utxoset_key s"
    have new: "map_of spent ?k = None"
    proof (cases "map_of spent ?k")
      case (Some e)
      with Cons.prems(2) have "e = 1" by blast
      with Some Cons.prems(1) False show ?thesis by (simp add: Let_def word_gt_0)
    qed
    have 1: "spend_inputs ss (AList.update ?k 1 spent) = Inr spent'"
      using Cons.prems(1) False new by simp
    have 2: "\<forall>k e. map_of (AList.update ?k 1 spent) k = Some e \<longrightarrow> e = 1"
      using Cons.prems(2) by (simp add: update_conv')
    have 3: "dom (map_of (AList.update ?k 1 spent)) = insert ?k (dom (map_of spent))"
      by (simp add: update_conv')
    have 4: "slip_get_utxoset_key ` {t \<in> set (s # ss). slip_amount t \<noteq> 0} =
        insert ?k (slip_get_utxoset_key ` {t \<in> set ss. slip_amount t \<noteq> 0})"
      "map slip_get_utxoset_key (filter (\<lambda>s. slip_amount s \<noteq> 0) (s # ss)) =
        ?k # map slip_get_utxoset_key (filter (\<lambda>s. slip_amount s \<noteq> 0) ss)"
      using False by auto
    have 5: "?k \<notin> dom (map_of spent)" using new by (simp add: domIff)
    have 6: "set (map slip_get_utxoset_key (filter (\<lambda>s. slip_amount s \<noteq> 0) ss)) =
        slip_get_utxoset_key ` {t \<in> set ss. slip_amount t \<noteq> 0}" by auto
    show ?thesis unfolding 4 by (rule spent_insert [OF Cons.IH [OF 1 2, unfolded 3] 6 5])
  next
    case True
    then have "{t \<in> set (s # ss). slip_amount t \<noteq> 0} = {t \<in> set ss. slip_amount t \<noteq> 0}" by auto
    with True Cons show ?thesis by simp
  qed
qed simp

lemma spend_all_inputs_distinct:
  assumes "spend_all_inputs txs spent = Inr spent'" and "\<forall>k e. map_of spent k = Some e \<longrightarrow> e = 1"
  shows "distinct (spent_keys txs) \<and> dom (map_of spent) \<inter> set (spent_keys txs) = {}"
  using assms
proof (induction txs arbitrary: spent)
  case (Cons tx txs)
  show ?case
  proof (cases "tx_transaction_type tx = TT_Fee")
    case False
    with Cons.prems(1) obtain spent1 where 1: "spend_inputs (tx_from tx) spent = Inr spent1"
      and 2: "spend_all_inputs txs spent1 = Inr spent'" by auto
    note i = spend_inputs_Inr [OF 1 Cons.prems(2)]
    with Cons.IH [OF 2] False show ?thesis by (auto simp: spent_keys_Cons)
  next
    case True
    with Cons show ?thesis by (simp add: spent_keys_Cons)
  qed
qed (simp add: spent_keys_def)

lemma fee_stage_frame:
  assumes "(case f of Some fee_tx \<Rightarrow> rbind (g fee_tx) (\<lambda>t. Inr (block_add_transaction t b))
            | None \<Rightarrow> Inr b) = Inr b'"
  shows "block_header.truncate b' = block_header.truncate b \<and>
    b_slips_spent_this_block b' = b_slips_spent_this_block b"
  using assms by (auto simp: block_add_transaction_def split: option.splits)

lemma generated_total_fees:
  assumes "generate_consensus_values X conf bc dk b = Inr cv"
  shows "c_total_fees cv = c_total_fees_new cv + c_total_fees_atr cv"
proof -
  have 1: "c_total_fees cv' = c_total_fees_new cv' + c_total_fees_atr cv'"
    if "cv_fee_averages conf p cv0 = Inr cv'" for p cv0 cv'
    using that by (auto simp: cv_fee_averages_def Let_def)
  have 2: "c_total_fees cv' = c_total_fees cv0 \<and> c_total_fees_new cv' = c_total_fees_new cv0 \<and>
      c_total_fees_atr cv' = c_total_fees_atr cv0"
    if "cv_payouts X bc n b cv0 = Inr cv'" for n cv0 cv'
    using that by (auto simp: cv_payouts_def Let_def case_prod_beta split: option.splits)
  have 3: "c_total_fees cv' = c_total_fees cv0 \<and> c_total_fees_new cv' = c_total_fees_new cv0 \<and>
      c_total_fees_atr cv' = c_total_fees_atr cv0"
    if "cv_payout_averages conf p cv0 = Inr cv'" for p cv0 cv'
    using that by (auto simp: cv_payout_averages_def Let_def)
  from assms obtain cv4 cv5 cv6 n p where "cv_fee_averages conf p cv4 = Inr cv5"
    "cv_payouts X bc n b cv5 = Inr cv6" "cv_payout_averages conf p cv6 = Inr cv"
    by (auto simp: generate_consensus_values_def Let_def case_prod_beta)
  then show ?thesis using 1 2 3 by metis
qed

text \<open>
  C35. A block made by \<^verbatim>\<open>Block::create\<close> extends its parent and is consistent with the consensus
  values it was made from: every value \<^verbatim>\<open>validate\<close> compares agrees, treasury and graveyard follow
  from those of the parent, no output is spent twice by its transactions, its pre-hash is the
  hash of its signed fields, and it carries the creator's signature for the Merkle root it was
  signed with, which is the root of the block unless that root was the all-zero one.
\<close>

theorem created_block_consistent:
  assumes "block_create X conf bc dk txs h ts (pk_of_sk X sk) sk gt = Inr b"
    and "crypto_laws X" and "sk_ok X sk"
  shows "\<exists>cv. generate_consensus_values X conf bc dk
        (block_seed (bc_blocks bc) txs h ts (pk_of_sk X sk) gt) = Inr cv \<and>
    block_matches_cv cv b \<and> c_burnfee cv = b_burnfee b \<and> c_difficulty cv = b_difficulty b \<and>
    b_id b = previous_value b_id (map_of (bc_blocks bc) h) + 1 \<and> b_previous_block_hash b = h \<and>
    b_treasury b = previous_value b_treasury (map_of (bc_blocks bc) h) +
      c_total_payout_treasury cv - c_total_payout_atr cv \<and>
    b_graveyard b = previous_value b_graveyard (map_of (bc_blocks bc) h) +
      c_total_payout_graveyard cv \<and>
    distinct (spent_keys (b_transactions b)) \<and>
    b_pre_hash b = hash X (block_serialize_for_signature b) \<and>
    (\<exists>r. verify X (block_serialize_for_signature (b\<lparr>b_merkle_root := r\<rparr>)) (b_signature b) (b_creator b) \<and>
       (r = replicate 32 0 \<or> b_merkle_root b = r))"
proof -
  let ?p = "map_of (bc_blocks bc) h"
  let ?b0 = "block_seed (bc_blocks bc) txs h ts (pk_of_sk X sk) gt"
  obtain cv where cv: "generate_consensus_values X conf bc dk ?b0 = Inr cv"
    using assms(1) by (auto simp: block_create_def Let_def)
  let ?b1 = "block_fill_header cv (previous_value b_treasury ?p) (previous_value b_graveyard ?p) ?b0"
  let ?b2 = "?b1\<lparr>b_transactions := b_transactions ?b1 @
    generate_rebroadcasts X (pk_of_sk X sk) (b_id ?b1) (c_rebroadcasts cv)\<rparr>"
  from assms(1) cv obtain b3 spent r b6 where
    3: "(case c_fee_transaction cv of
           Some fee_tx \<Rightarrow> rbind (tx_sign X sk (fee_tx\<lparr>tx_hash_for_signature :=
               Some (hash X (tx_serialize_for_signature fee_tx))\<rparr>)) (\<lambda>t. Inr (block_add_transaction t ?b2))
         | None \<Rightarrow> Inr ?b2) = Inr b3" and
    4: "spend_all_inputs (b_transactions b3) (b_slips_spent_this_block b3) = Inr spent" and
    6: "block_sign X sk (block_generate_pre_hash X (b3\<lparr>b_slips_spent_this_block := spent,
         b_created_hashmap_of_slips_spent_this_block := True, b_merkle_root := r\<rparr>)) = Inr b6" and
    7: "block_generate X b6 = Inr b"
    by (auto simp: block_create_def Let_def)
  have "b_slips_spent_this_block ?b1 = []"
    by (simp add: block_fill_header_def block_seed_def block_new_def Let_def)
  then have b3: "block_header.truncate b3 = block_header.truncate ?b1" "b_slips_spent_this_block b3 = []"
    using fee_stage_frame [OF 3] by simp_all
  let ?b5 = "b3\<lparr>b_merkle_root := r\<rparr>"
  obtain sig where sig: "sign X (block_serialize_for_signature ?b5) sk = Inr sig"
    "verify X (block_serialize_for_signature ?b5) sig (pk_of_sk X sk)"
    using sign_Inr [OF assms(2,3)] by blast
  have b6: "block_header.truncate b6 = (block_header.truncate ?b5)\<lparr>b_signature := sig\<rparr>"
    "b_transactions b6 = b_transactions b3"
    using 6 sig(1) by (auto simp: block_sign_def block_generate_pre_hash_def block_serialize_for_signature_def
        block_header.truncate_def)
  note fr = block_generate_frame [OF 7]
  have d: "distinct (spent_keys (b_transactions b))"
    using spend_all_inputs_distinct [OF 4] b3(2) fr b6(2) by simp
  have hd: "block_header.truncate b =
      (block_header.truncate ?b1)\<lparr>b_merkle_root := b_merkle_root b, b_signature := sig\<rparr>"
    using fr b6(1) b3(1) by (simp add: block_header.truncate_def)
  have ser: "block_serialize_for_signature (b\<lparr>b_merkle_root := r\<rparr>) = block_serialize_for_signature ?b5"
    using hd b3(1) by (simp add: block_header.truncate_def block_serialize_for_signature_def)
  have id: "b_id ?b1 = previous_value b_id ?p + 1" "b_previous_block_hash ?b1 = h" "b_creator ?b1 = pk_of_sk X sk"
    by (simp_all add: block_fill_header_def block_seed_def block_new_def Let_def)
  have root: "r = replicate 32 0 \<or> b_merkle_root b = r"
    using fr b6(1) by (auto simp: block_header.truncate_def)
  have tf: "c_total_fees cv = c_total_fees_new cv + c_total_fees_atr cv"
    using cv by (rule generated_total_fees)
  show ?thesis
  proof (intro exI [of _ cv] conjI exI [of _ r] cv d root)
    show "verify X (block_serialize_for_signature (b\<lparr>b_merkle_root := r\<rparr>)) (b_signature b) (b_creator b)"
      using sig(2) ser hd id by (simp add: block_header.truncate_def)
    show "b_pre_hash b = hash X (block_serialize_for_signature b)" using fr by blast
    show "block_matches_cv cv b"
      using hd tf by (simp add: block_header.truncate_def block_matches_cv_def block_fill_header_def)
  qed (use hd id in \<open>simp_all add: block_header.truncate_def block_fill_header_def\<close>)
qed

section \<open>A created block\<close>

definition demo_spending_tx :: transaction where
  "demo_spending_tx = tx_default\<lparr>tx_from := [demo_out 1], tx_hash_for_signature := Some (replicate 32 7)\<rparr>"

lemma demo_seed:
  fixes pk :: bytes
  defines "b0 \<equiv> block_seed (bc_blocks demo_chain) [([], demo_spending_tx)] (replicate 32 9) 8 pk None"
  shows "\<exists>cv. generate_consensus_values demo_ext demo_node_config demo_chain demo_disk b0 = Inr cv \<and>
      c_rebroadcasts cv = [] \<and> c_fee_transaction cv = None"
proof -
  have p: "map_of (bc_blocks demo_chain) (b_previous_block_hash b0) = Some demo_parent"
    by (simp add: demo_chain_def b0_def block_seed_def Let_def)
  have t: "b_transactions b0 = [demo_spending_tx]" and i: "b_id b0 = 2"
    by (simp_all add: b0_def block_seed_def demo_chain_def previous_value_def demo_parent_def Let_def)
  obtain cv1 n where 1: "cv_count_txs 0 (b_transactions b0) (cv_new, 0) = (cv1, n)"
    "c_rebroadcasts cv1 = []" "c_fee_transaction cv1 = None" "c_gt_index cv1 = None"
    unfolding t by (simp add: cv_count_tx_def Let_def demo_spending_tx_def tx_is_golden_ticket_def tx_default_def
        tx_is_fee_transaction_def tx_is_normal_transaction_def tx_is_atr_transaction_def tx_is_staking_transaction_def
        tx_is_issuance_transaction_def cv_new_def)
  obtain cv2 where 2: "cv2 = cv_burnfee_difficulty demo_node_config (Some demo_parent) b0 cv1" by blast
  let ?cv3 = "cv2\<lparr>c_total_fees_cumulative := c_total_fees_new cv2\<rparr>"
  have r: "cv_rebroadcast demo_ext demo_node_config demo_chain demo_disk (Some demo_parent) b0 ?cv3 = Inr ?cv3"
    by (simp add: cv_rebroadcast_def demo_node_config_def i)
  obtain cv5 where 5: "cv_fee_averages demo_node_config (Some demo_parent) ?cv3 = Inr cv5"
    "c_rebroadcasts cv5 = []" "c_fee_transaction cv5 = None" "c_gt_index cv5 = None"
    using 1 by (simp add: cv_fee_averages_def Let_def average_step_def demo_node_config_def 2 cv_burnfee_difficulty_def)
  obtain cv6 where 6: "cv_payouts demo_ext demo_chain n b0 cv5 = Inr cv6"
    "c_rebroadcasts cv6 = []" "c_fee_transaction cv6 = None"
    using 5 by (simp add: cv_payouts_def)
  obtain cv7 where "cv_payout_averages demo_node_config (Some demo_parent) cv6 = Inr cv7"
    "c_rebroadcasts cv7 = []" "c_fee_transaction cv7 = None"
    using 6 by (simp add: cv_payout_averages_def Let_def average_step_def demo_node_config_def)
  then show ?thesis
    by (simp add: generate_consensus_values_def p 1 2 [symmetric] r 5 6 Let_def)
qed

lemma demo_created:
  "\<exists>b. block_create demo_ext demo_node_config demo_chain demo_disk [([], demo_spending_tx)]
     (replicate 32 9) 8 (pk_of_sk demo_ext (replicate 32 3)) (replicate 32 3) None = Inr b"
proof -
  let ?pk = "pk_of_sk demo_ext (replicate 32 3)"
  let ?b0 = "block_seed (bc_blocks demo_chain) [([], demo_spending_tx)] (replicate 32 9) 8 ?pk None"
  obtain cv where cv: "generate_consensus_values demo_ext demo_node_config demo_chain demo_disk ?b0 = Inr cv"
    "c_rebroadcasts cv = []" "c_fee_transaction cv = None"
    using demo_seed [of ?pk] by blast
  define b1 where "b1 = block_fill_header cv (previous_value b_treasury (Some demo_parent))
      (previous_value b_graveyard (Some demo_parent)) ?b0"
  have p: "map_of (bc_blocks demo_chain) (replicate 32 9) = Some demo_parent" by (simp add: demo_chain_def)
  have b1: "b_transactions b1 = [demo_spending_tx]" "b_slips_spent_this_block b1 = []"
    by (simp_all add: b1_def block_fill_header_def block_seed_def block_new_def Let_def)
  define b4 where "b4 = b1\<lparr>b_slips_spent_this_block := [(slip_get_utxoset_key (demo_out (Suc 0)), 1)],
      b_created_hashmap_of_slips_spent_this_block := True\<rparr>"
  have "list_all (\<lambda>tx. tx_hash_for_signature tx \<noteq> None) (b_transactions b4)"
    by (simp add: b4_def b1) (simp add: demo_spending_tx_def)
  then obtain r where r: "block_generate_merkle_root demo_ext False False b4 = Inr r"
    using block_merkle_root_total by blast
  define b5 where "b5 = block_generate_pre_hash demo_ext (b4\<lparr>b_merkle_root := r\<rparr>)"
  have "b_created_hashmap_of_slips_spent_this_block b5"
    by (simp add: b5_def b4_def block_generate_pre_hash_def)
  moreover have "sk_ok demo_ext (replicate 32 3)" by (simp add: demo_ext_def)
  ultimately obtain b6 where b6: "block_sign demo_ext (replicate 32 3) b5 = Inr b6"
    and "b_created_hashmap_of_slips_spent_this_block b6"
    using sign_Inr [OF crypto_laws_demo] by (fastforce simp: block_sign_def)
  then obtain b where b: "block_generate demo_ext b6 = Inr b"
    using block_generate_swept by blast
  have same: "b1\<lparr>b_transactions := [demo_spending_tx]\<rparr> = b1" using b1(1) by simp
  have spent: "spend_inputs (tx_from demo_spending_tx) [] = Inr [(slip_get_utxoset_key (demo_out (Suc 0)), 1)]"
    "tx_transaction_type demo_spending_tx \<noteq> TT_Fee"
    by (simp_all add: demo_spending_tx_def tx_default_def demo_out_def)
  have conf: "cfg_is_browser demo_node_config = False" "cfg_is_spv_mode demo_node_config = False"
    by (simp_all add: demo_node_config_def)
  show ?thesis
    by (simp only: block_create_def Let_def cv(1) p b1_def [symmetric] rbind.simps cv(2,3) option.case)
      (simp add: generate_rebroadcasts_def b1 same spent conf b4_def [symmetric] r b5_def [symmetric] b6 b)
qed

theorem created_block_consistent_witness:
  "\<exists>b. block_create demo_ext demo_node_config demo_chain demo_disk [([], demo_spending_tx)]
       (replicate 32 9) 8 (pk_of_sk demo_ext (replicate 32 3)) (replicate 32 3) None = Inr b \<and>
     b_id b = 2 \<and> b_previous_block_hash b = replicate 32 9 \<and>
     b_pre_hash b = hash demo_ext (block_serialize_for_signature b)"
proof -
  obtain b where b: "block_create demo_ext demo_node_config demo_chain demo_disk [([], demo_spending_tx)]
       (replicate 32 9) 8 (pk_of_sk demo_ext (replicate 32 3)) (replicate 32 3) None = Inr b"
    using demo_created by blast
  have "sk_ok demo_ext (replicate 32 3)" by (simp add: demo_ext_def)
  from created_block_consistent [OF b crypto_laws_demo this] b show ?thesis
    by (auto simp: previous_value_def demo_chain_def demo_parent_def)
qed

end
