(* ===== verification/Mempool.thy ===== *)
theory Mempool
  imports Block_Create Wallet
begin

text \<open>
  The mempool (\<^verbatim>\<open>consensus/mempool.rs\<close>): blocks waiting to be added, pending transactions and
  golden tickets, the routing work they carry and the outputs they spend; and the production of
  a block from them. Hash maps are association lists in the order the map yields them. The
  wallet behind \<^verbatim>\<open>wallet_lock\<close> is an argument of the operations that use it.
\<close>

record Mempool =
  mp_blocks_queue :: "block list"
  mp_transactions :: "(bytes \<times> transaction) list"
  mp_golden_tickets :: "(bytes \<times> transaction \<times> bool) list"
  mp_routing_work_in_mempool :: u64
  mp_new_tx_added :: bool
  mp_utxo_map :: "(bytes \<times> u64) list"

definition mp_new :: Mempool where
  "mp_new = \<lparr>mp_blocks_queue = [], mp_transactions = [], mp_golden_tickets = [],
     mp_routing_work_in_mempool = 0, mp_new_tx_added = False, mp_utxo_map = []\<rparr>"

section \<open>Adding\<close>

definition mp_add_block :: "block \<Rightarrow> Mempool \<Rightarrow> Mempool" where
  "mp_add_block b mp =
     (if list_ex (\<lambda>q. b_hash q = b_hash b) (mp_blocks_queue mp) then mp
      else mp\<lparr>mp_blocks_queue := mp_blocks_queue mp @ [b]\<rparr>)"

definition mp_add_golden_ticket :: "transaction \<Rightarrow> Mempool \<Rightarrow> Mempool res" where
  "mp_add_golden_ticket tx mp =
     rbind (gt_deserialize_from_net (tx_data tx)) (\<lambda>gt.
       Inr (if map_of (mp_golden_tickets mp) (gt_target gt) \<noteq> None then mp
            else mp\<lparr>mp_golden_tickets :=
                   AList.update (gt_target gt) (tx, False) (mp_golden_tickets mp)\<rparr>))"

text \<open>A new transaction that spends an output a pending one spends is refused.\<close>

definition mp_add_transaction :: "transaction \<Rightarrow> Mempool \<Rightarrow> Mempool res" where
  "mp_add_transaction tx mp =
     (if list_ex (\<lambda>input. map_of (mp_utxo_map mp) (slip_utxoset_key input) \<noteq> None \<and>
                   slip_amount input > 0) (tx_from tx)
      then Inr mp
      else if map_of (mp_transactions mp) (tx_signature tx) \<noteq> None then Inr mp
      else if tx_transaction_type tx = TT_GoldenTicket then Inl Panic
      else Inr (mp\<lparr>mp_routing_work_in_mempool :=
                    mp_routing_work_in_mempool mp + tx_total_work_for_me tx,
                  mp_transactions := AList.update (tx_signature tx) tx (mp_transactions mp),
                  mp_new_tx_added := True,
                  mp_utxo_map := fold (\<lambda>input. AList.update (slip_utxoset_key input) 1)
                    (tx_from tx) (mp_utxo_map mp)\<rparr>))"

definition mp_add_transaction_if_validates ::
  "ext \<Rightarrow> bytes \<Rightarrow> Blockchain \<Rightarrow> transaction \<Rightarrow> Mempool \<Rightarrow> Mempool res" where
  "mp_add_transaction_if_validates X public_key bc transaction mp =
     (let tx = tx_generate X public_key 0 0 transaction in
      rbind (bc_view bc) (\<lambda>view.
      rbind (tx_validate X (bc_utxoset bc) view True tx) (\<lambda>tx_valid.
        if tx_valid then mp_add_transaction tx mp else Inr mp)))"

section \<open>Deleting\<close>

definition mp_delete_block :: "bytes \<Rightarrow> Mempool \<Rightarrow> Mempool" where
  "mp_delete_block block_hash mp =
     mp\<lparr>mp_golden_tickets := AList.delete block_hash (mp_golden_tickets mp)\<rparr>"

fun mp_delete_loop :: "transaction list \<Rightarrow> Mempool \<Rightarrow> Mempool res" where
  "mp_delete_loop [] mp = Inr mp"
| "mp_delete_loop (tx # txs) mp =
     (if tx_transaction_type tx = TT_GoldenTicket
      then rbind (gt_deserialize_from_net (tx_data tx)) (\<lambda>gt.
             mp_delete_loop txs (mp\<lparr>mp_golden_tickets :=
               AList.delete (gt_target gt) (mp_golden_tickets mp)\<rparr>))
      else mp_delete_loop txs (mp\<lparr>mp_transactions :=
             AList.delete (tx_signature tx) (mp_transactions mp)\<rparr>))"

definition mp_delete_transactions :: "transaction list \<Rightarrow> Mempool \<Rightarrow> Mempool res" where
  "mp_delete_transactions txs mp =
     rbind (mp_delete_loop txs mp) (\<lambda>mp1.
       Inr (mp1\<lparr>mp_routing_work_in_mempool :=
         sum_list (map (\<lambda>(_, tx). tx_total_work_for_me tx) (mp_transactions mp1))\<rparr>))"

definition mp_get_routing_work_available :: "Mempool \<Rightarrow> u64" where
  "mp_get_routing_work_available mp = mp_routing_work_in_mempool mp"

section \<open>Producing a block\<close>

text \<open>The start of a node's turn: a delay below five seconds derived from its key and the tip.\<close>

definition bundling_delay :: "ext \<Rightarrow> bytes \<Rightarrow> block \<Rightarrow> u64" where
  "bundling_delay X public_key previous_block =
     of_nat (u256_low_u128 X (hash X (public_key @ b_hash previous_block)) mod 5000)"

definition mp_can_bundle_block ::
  "ext \<Rightarrow> node_config \<Rightarrow> Blockchain \<Rightarrow> u64 \<Rightarrow> transaction option \<Rightarrow> bytes \<Rightarrow> Mempool \<Rightarrow>
   u64 option res" where
  "mp_can_bundle_block X conf bc current_timestamp gt_tx public_key mp =
     (if bc_blocks bc = [] then Inr None
      else if mp_blocks_queue mp \<noteq> [] then Inr None
      else if mp_transactions mp = [] \<or> \<not> mp_new_tx_added mp then Inr None
      else
        rbind (bc_get_latest_block_hash bc) (\<lambda>latest_hash.
          if \<not> bc_is_golden_ticket_count_valid bc latest_hash (gt_tx \<noteq> None) (cfg_is_browser conf)
                 (cfg_is_spv_mode conf) then Inr None
          else
            rbind (bc_get_latest_block bc) (\<lambda>latest.
              case latest of
                Some previous_block \<Rightarrow>
                  (let work_available = mp_get_routing_work_available mp;
                       work_needed = return_routing_work_needed_to_produce_block_in_nolan
                         (b_burnfee previous_block) current_timestamp (b_timestamp previous_block)
                         (cfg_heartbeat_interval conf)
                   in Inr (if current_timestamp < b_timestamp previous_block +
                                bundling_delay X public_key previous_block then None
                           else if work_available \<ge> work_needed then Some work_available
                           else None))
              | None \<Rightarrow> Inr (Some 0))))"

text \<open>The inputs of the produced block are released.\<close>

definition mp_release_inputs :: "transaction list \<Rightarrow> (bytes \<times> u64) list \<Rightarrow> (bytes \<times> u64) list" where
  "mp_release_inputs txs m =
     fold (\<lambda>tx. fold (\<lambda>input. AList.delete (slip_utxoset_key input)) (tx_from tx)) txs m"

text \<open>
  \<^verbatim>\<open>Block::create\<close> drains the pending transactions whether or not it succeeds. The result is
  the block, if any, with the mempool and the wallet.
\<close>

definition mp_create_block ::
  "ext \<Rightarrow> node_config \<Rightarrow> Blockchain \<Rightarrow> disk \<Rightarrow> bytes \<Rightarrow> u64 \<Rightarrow> transaction option \<Rightarrow> Wallet \<Rightarrow>
   Mempool \<Rightarrow> (block option \<times> Mempool) res" where
  "mp_create_block X conf bc dk previous_block_hash current_timestamp gt_tx w mp =
     (let mp1 = mp\<lparr>mp_transactions := []\<rparr> in
      recover (block_create X conf bc dk (mp_transactions mp) previous_block_hash current_timestamp
                 (w_public_key w) (w_private_key w) gt_tx) (Inr (None, mp1)) (\<lambda>b.
      recover (block_generate X b) (Inr (None, mp1)) (\<lambda>b'.
        Inr (Some b', mp1\<lparr>mp_new_tx_added := False, mp_routing_work_in_mempool := 0\<rparr>))))"

definition mp_bundle_block ::
  "ext \<Rightarrow> node_config \<Rightarrow> Blockchain \<Rightarrow> disk \<Rightarrow> u64 \<Rightarrow> transaction option \<Rightarrow> Wallet \<Rightarrow> Mempool \<Rightarrow>
   (block option \<times> Mempool \<times> Wallet) res" where
  "mp_bundle_block X conf bc dk current_timestamp gt_tx w mp =
     rbind (bc_get_latest_block_hash bc) (\<lambda>previous_block_hash.
     rbind (bc_get_latest_block bc) (\<lambda>latest.
       let previous_block_timestamp = (case latest of None \<Rightarrow> 0 | Some b \<Rightarrow> b_timestamp b) in
       if \<not> current_timestamp > previous_block_timestamp then Inl Panic
       else
         rbind (mp_can_bundle_block X conf bc current_timestamp gt_tx (w_public_key w) mp) (\<lambda>work.
           case work of
             None \<Rightarrow> Inr (None, mp, w)
           | Some mempool_work \<Rightarrow>
               rbind (bc_get_latest_unlocked_stake_block_id bc) (\<lambda>unlocked.
               rbind (bc_get_latest_block_id bc) (\<lambda>latest_block_id.
                 recover (wallet_create_staking_transaction X (bc_social_stake_requirement bc) unlocked
                            (sat_sub (latest_block_id + 1) (cfg_genesis_period conf)) w)
                   (Inr (None, mp, w)) (\<lambda>(staking_tx, w1).
                   rbind (mp_add_transaction_if_validates X (w_public_key w1) bc staking_tx mp) (\<lambda>mp1.
                   rbind (mp_create_block X conf bc dk previous_block_hash current_timestamp gt_tx w1 mp1)
                     (\<lambda>(b, mp2).
                     case b of
                       None \<Rightarrow> Inr (None, mp2, w1)
                     | Some block \<Rightarrow>
                         Inr (Some block, mp2\<lparr>mp_utxo_map :=
                           mp_release_inputs (b_transactions block) (mp_utxo_map mp2)\<rparr>, w1)))))))))"

definition mp_bundle_genesis_block ::
  "ext \<Rightarrow> node_config \<Rightarrow> Blockchain \<Rightarrow> disk \<Rightarrow> u64 \<Rightarrow> Wallet \<Rightarrow> Mempool \<Rightarrow> (block \<times> Mempool) res" where
  "mp_bundle_genesis_block X conf bc dk current_timestamp w mp =
     rbind (mp_create_block X conf bc dk (replicate 32 0) current_timestamp None w mp) (\<lambda>(b, mp1).
     rbind (ok_or Panic b) (\<lambda>block. Inr (block, mp1)))"

end
