(* ===== verification/Mempool_Rules.thy ===== *)
theory Mempool_Rules
  imports Mempool
begin

section \<open>The pending transactions\<close>

text \<open>
  The invariant: every transaction is filed under its signature, every output it spends is
  recorded, no two transactions spend the same output of positive amount, and the routing work
  is that of the pending transactions.
\<close>

definition spends :: "transaction \<Rightarrow> bytes set" where
  "spends tx = slip_utxoset_key ` {s \<in> set (tx_from tx). slip_amount s > 0}"

definition pending_work :: "(bytes \<times> transaction) list \<Rightarrow> u64" where
  "pending_work txs = sum_list (map (\<lambda>(_, tx). tx_total_work_for_me tx) txs)"

definition pending_ok :: "(bytes \<times> transaction) list \<Rightarrow> (bytes \<times> u64) list \<Rightarrow> bool" where
  "pending_ok txs m \<longleftrightarrow> distinct (map fst txs) \<and>
     (\<forall>(k, tx) \<in> set txs. k = tx_signature tx \<and> slip_utxoset_key ` set (tx_from tx) \<subseteq> dom (map_of m)) \<and>
     (\<forall>(k, tx) \<in> set txs. \<forall>(k', tx') \<in> set txs. k \<noteq> k' \<longrightarrow> spends tx \<inter> spends tx' = {})"

definition mp_ok :: "Mempool \<Rightarrow> bool" where
  "mp_ok mp \<longleftrightarrow> pending_ok (mp_transactions mp) (mp_utxo_map mp) \<and>
     mp_routing_work_in_mempool mp = pending_work (mp_transactions mp)"

lemma mp_new_ok: "mp_ok mp_new"
  by (simp add: mp_ok_def mp_new_def pending_ok_def pending_work_def)

lemma mp_ok_update [simp]:
  "mp_ok (mp\<lparr>mp_blocks_queue := q\<rparr>) = mp_ok mp"
  "mp_ok (mp\<lparr>mp_golden_tickets := g\<rparr>) = mp_ok mp"
  "mp_ok (mp\<lparr>mp_new_tx_added := f\<rparr>) = mp_ok mp"
  by (simp_all add: mp_ok_def)

lemma fold_update_dom:
  "dom (map_of (fold (\<lambda>input. AList.update (slip_utxoset_key input) v) ss m)) =
     slip_utxoset_key ` set ss \<union> dom (map_of m)"
  by (induction ss arbitrary: m) (auto simp: update_conv')

lemma pending_work_update:
  "k \<notin> fst ` set txs \<Longrightarrow> pending_work (AList.update k tx txs) = pending_work txs + tx_total_work_for_me tx"
  by (induction txs) (auto simp: pending_work_def)

lemma set_update_new: "k \<notin> fst ` set xs \<Longrightarrow> AList.update k v xs = xs @ [(k, v)]"
  by (induction xs) auto

lemma pending_ok_subset:
  assumes "pending_ok txs m" and "set txs' \<subseteq> set txs" and "distinct (map fst txs')"
  shows "pending_ok txs' m"
  unfolding pending_ok_def
  using assms(3) subset_eq [THEN iffD1, OF assms(2)] assms(1) [unfolded pending_ok_def]
  by (intro conjI) (assumption, blast, blast)

lemma pending_ok_append:
  assumes "pending_ok txs m" and "tx_signature tx \<notin> fst ` set txs"
    and "\<And>k' tx'. (k', tx') \<in> set txs \<Longrightarrow> spends tx \<inter> spends tx' = {}"
    and "dom (map_of m') = slip_utxoset_key ` set (tx_from tx) \<union> dom (map_of m)"
  shows "pending_ok (txs @ [(tx_signature tx, tx)]) m'"
  unfolding pending_ok_def assms(4)
proof (intro conjI)
  show "distinct (map fst (txs @ [(tx_signature tx, tx)]))"
    using assms(1,2) by (simp add: pending_ok_def)
  show "\<forall>(k, t) \<in> set (txs @ [(tx_signature tx, tx)]). k = tx_signature t \<and>
      slip_utxoset_key ` set (tx_from t) \<subseteq> slip_utxoset_key ` set (tx_from tx) \<union> dom (map_of m)"
    using assms(1) by (simp add: pending_ok_def split_beta) blast
  show "\<forall>(k, t) \<in> set (txs @ [(tx_signature tx, tx)]). \<forall>(k', t') \<in> set (txs @ [(tx_signature tx, tx)]).
      k \<noteq> k' \<longrightarrow> spends t \<inter> spends t' = {}"
    using assms(1,3) by (simp add: pending_ok_def ball_Un Int_commute split_beta) (metis Int_commute prod.collapse)
qed

lemma mp_add_transaction_ok:
  assumes "mp_ok mp" and "mp_add_transaction tx mp = Inr mp'"
  shows "mp_ok mp'"
proof (cases "mp' = mp")
  case False
  with assms(2) have new: "map_of (mp_transactions mp) (tx_signature tx) = None"
    and free: "\<forall>s \<in> set (tx_from tx). slip_amount s > 0 \<longrightarrow> map_of (mp_utxo_map mp) (slip_utxoset_key s) = None"
    and mp': "mp' = mp\<lparr>mp_routing_work_in_mempool := mp_routing_work_in_mempool mp + tx_total_work_for_me tx,
        mp_transactions := AList.update (tx_signature tx) tx (mp_transactions mp), mp_new_tx_added := True,
        mp_utxo_map := fold (\<lambda>input. AList.update (slip_utxoset_key input) 1) (tx_from tx) (mp_utxo_map mp)\<rparr>"
    by (auto simp: mp_add_transaction_def list_ex_iff split: if_splits)
  have k: "tx_signature tx \<notin> fst ` set (mp_transactions mp)" using new by (simp add: map_of_eq_None_iff)
  have old: "pending_ok (mp_transactions mp) (mp_utxo_map mp)" using assms(1) by (simp add: mp_ok_def)
  have fresh: "spends tx \<inter> dom (map_of (mp_utxo_map mp)) = {}" using free by (auto simp: spends_def)
  have apart: "spends tx \<inter> spends tx' = {}" if "(k', tx') \<in> set (mp_transactions mp)" for k' tx'
  proof -
    have "spends tx' \<subseteq> dom (map_of (mp_utxo_map mp))"
      using old that by (fastforce simp: pending_ok_def spends_def)
    with fresh show ?thesis by blast
  qed
  have "pending_ok (mp_transactions mp @ [(tx_signature tx, tx)])
      (fold (\<lambda>input. AList.update (slip_utxoset_key input) 1) (tx_from tx) (mp_utxo_map mp))"
    using pending_ok_append [OF old k apart] by (simp add: fold_update_dom)
  then show ?thesis
    using assms(1) k by (simp add: mp' mp_ok_def set_update_new pending_work_def)
qed (use assms in simp)

lemma mp_delete_loop_subset:
  assumes "mp_delete_loop txs mp = Inr mp'" and "distinct (map fst (mp_transactions mp))"
  shows "set (mp_transactions mp') \<subseteq> set (mp_transactions mp) \<and> distinct (map fst (mp_transactions mp')) \<and>
    mp_utxo_map mp' = mp_utxo_map mp"
  using assms
proof (induction txs arbitrary: mp)
  case (Cons tx txs)
  show ?case
  proof (cases "tx_transaction_type tx = TT_GoldenTicket")
    case False
    have d: "distinct (map fst (AList.delete (tx_signature tx) (mp_transactions mp)))"
      using Cons.prems(2) by (rule distinct_delete)
    have "set (AList.delete (tx_signature tx) (mp_transactions mp)) \<subseteq> set (mp_transactions mp)"
      by (auto simp: AList.delete_eq)
    with Cons.IH [of "mp\<lparr>mp_transactions := AList.delete (tx_signature tx) (mp_transactions mp)\<rparr>"]
      Cons.prems(1) False d show ?thesis by auto
  qed (use Cons in fastforce)
qed simp

lemma mp_delete_transactions_ok:
  assumes "mp_ok mp" and "mp_delete_transactions txs mp = Inr mp'"
  shows "mp_ok mp'"
proof -
  from assms(2) obtain mp1 where 1: "mp_delete_loop txs mp = Inr mp1"
    and mp': "mp' = mp1\<lparr>mp_routing_work_in_mempool := pending_work (mp_transactions mp1)\<rparr>"
    by (auto simp: mp_delete_transactions_def pending_work_def)
  have "pending_ok (mp_transactions mp) (mp_utxo_map mp)" "distinct (map fst (mp_transactions mp))"
    using assms(1) by (simp_all add: mp_ok_def pending_ok_def)
  with mp_delete_loop_subset [OF 1] pending_ok_subset show ?thesis by (simp add: mp' mp_ok_def)
qed


section \<open>Runs of the mempool\<close>

text \<open>Producing a block empties the mempool, so that what is left is consistent again.\<close>

lemma mp_empty_ok: "mp_transactions mp = [] \<Longrightarrow> mp_routing_work_in_mempool mp = 0 \<Longrightarrow> mp_ok mp"
  by (simp add: mp_ok_def pending_ok_def pending_work_def)

lemma mp_create_block_Some:
  "mp_create_block X conf bc dk ph ts gt_tx w mp = Inr (Some b, mp') \<Longrightarrow>
     mp_transactions mp' = [] \<and> mp_routing_work_in_mempool mp' = 0 \<and> mp_utxo_map mp' = mp_utxo_map mp"
  by (auto simp: mp_create_block_def Let_def elim!: recover_eq_InrE)

lemma mp_create_block_None:
  "mp_create_block X conf bc dk ph ts gt_tx w mp = Inr (None, mp') \<Longrightarrow>
     mp' = mp\<lparr>mp_transactions := []\<rparr>"
  by (auto simp: mp_create_block_def Let_def elim!: recover_eq_InrE)

text \<open>
  The steps of a mempool whose production of blocks succeeds: the five operations of the other
  threads, and the two that produce a block.
\<close>

inductive mempool_step :: "Mempool \<Rightarrow> Mempool \<Rightarrow> bool" where
  queue_block: "mempool_step mp (mp_add_block b mp)"
| add_ticket: "mp_add_golden_ticket tx mp = Inr mp' \<Longrightarrow> mempool_step mp mp'"
| add_transaction: "mp_add_transaction tx mp = Inr mp' \<Longrightarrow> mempool_step mp mp'"
| add_validated: "mp_add_transaction_if_validates X pk bc tx mp = Inr mp' \<Longrightarrow> mempool_step mp mp'"
| drop_block: "mempool_step mp (mp_delete_block h mp)"
| drop_transactions: "mp_delete_transactions txs mp = Inr mp' \<Longrightarrow> mempool_step mp mp'"
| produce: "mp_bundle_block X conf bc dk ts gt_tx w mp = Inr (Some b, mp', w') \<Longrightarrow> mempool_step mp mp'"
| produce_genesis:
    "mp_bundle_genesis_block X conf bc dk ts w mp = Inr (b, mp') \<Longrightarrow> mempool_step mp mp'"

inductive mempool_reachable :: "Mempool \<Rightarrow> bool" where
  start: "mempool_reachable mp_new"
| step: "mempool_reachable mp \<Longrightarrow> mempool_step mp mp' \<Longrightarrow> mempool_reachable mp'"

lemma mp_add_validated_ok:
  assumes "mp_ok mp" and "mp_add_transaction_if_validates X pk bc tx mp = Inr mp'"
  shows "mp_ok mp'"
  using assms
  by (auto simp: mp_add_transaction_if_validates_def Let_def split: if_splits intro: mp_add_transaction_ok)

lemma mp_bundle_block_Some:
  assumes "mp_bundle_block X conf bc dk ts gt_tx w mp = Inr (Some b, mp', w')"
  shows "mp_transactions mp' = [] \<and> mp_routing_work_in_mempool mp' = 0"
  using assms
  by (auto simp: mp_bundle_block_def Let_def split: if_splits option.splits elim!: recover_eq_InrE
      dest!: mp_create_block_Some)

lemma mempool_step_ok:
  assumes "mempool_step mp mp'" and "mp_ok mp"
  shows "mp_ok mp'"
  using assms
proof cases
  case queue_block
  then show ?thesis using assms(2) by (simp add: mp_add_block_def)
next
  case add_ticket
  then show ?thesis using assms(2) by (auto simp: mp_add_golden_ticket_def split: if_splits)
next
  case drop_block
  then show ?thesis using assms(2) by (simp add: mp_delete_block_def)
next
  case produce_genesis
  then show ?thesis
    by (auto simp: mp_bundle_genesis_block_def ok_or_eq_Inr dest!: mp_create_block_Some intro: mp_empty_ok)
qed (use assms(2) in \<open>auto intro: mp_add_transaction_ok mp_add_validated_ok mp_delete_transactions_ok
    mp_empty_ok dest: mp_bundle_block_Some\<close>)


section \<open>A mempool with two transactions\<close>

definition demo_pending :: "nat \<Rightarrow> transaction" where
  "demo_pending n = tx_default\<lparr>tx_from := [demo_out n], tx_signature := replicate 64 (of_nat n),
     tx_total_work_for_me := of_nat n\<rparr>"

lemma demo_pending_simps [simp]:
  "tx_from (demo_pending n) = [demo_out n]"
  "tx_signature (demo_pending n) = replicate 64 (of_nat n)"
  "tx_total_work_for_me (demo_pending n) = of_nat n"
  "tx_transaction_type (demo_pending n) = TT_Normal"
  by (simp_all add: demo_pending_def tx_default_def)

definition demo_mempool :: Mempool where
  "demo_mempool =
     mp_new\<lparr>mp_transactions := [(replicate 64 1, demo_pending 1), (replicate 64 2, demo_pending 2)],
       mp_routing_work_in_mempool := 3, mp_new_tx_added := True,
       mp_utxo_map := [(slip_utxoset_key (demo_out 1), 1), (slip_utxoset_key (demo_out 2), 1)]\<rparr>"

lemma demo_mempool_reachable: "mempool_reachable demo_mempool"
proof -
  have d: "slip_utxoset_key (demo_out (Suc 0)) \<noteq> slip_utxoset_key (demo_out 2)"
    by (simp add: demo_out_def) code_simp
  obtain mp1 where 1: "mp_add_transaction (demo_pending 1) mp_new = Inr mp1"
    and t: "mp1 = mp_new\<lparr>mp_transactions := [(replicate 64 1, demo_pending 1)], mp_new_tx_added := True,
      mp_routing_work_in_mempool := 1, mp_utxo_map := [(slip_utxoset_key (demo_out 1), 1)]\<rparr>"
    by (simp add: mp_add_transaction_def mp_new_def)
  have "mp_add_transaction (demo_pending 2) mp1 = Inr demo_mempool"
    using d by (simp add: t mp_add_transaction_def mp_new_def demo_mempool_def)
  then show ?thesis
    using mempool_reachable.step [OF mempool_reachable.start add_transaction [OF 1]]
      mempool_reachable.step add_transaction by blast
qed


section \<open>A production that fails\<close>

text \<open>
  When the creation of the block fails, the pending transactions are gone but their routing work
  is still counted: the next transaction is added on top of it.
\<close>

lemma failed_production_keeps_work:
  assumes "mp_create_block X conf bc dk ph ts gt_tx w mp = Inr (None, mp')"
    and "mp_add_transaction tx mp' = Inr mp''" and "mp'' \<noteq> mp'"
  shows "mp_transactions mp'' = [(tx_signature tx, tx)] \<and>
    mp_get_routing_work_available mp'' = mp_get_routing_work_available mp + tx_total_work_for_me tx"
  using assms(2,3) mp_create_block_None [OF assms(1)]
  by (auto simp: mp_add_transaction_def mp_get_routing_work_available_def split: if_splits)

end
