(* ===== verification/Storage_Files.thy ===== *)
theory Storage_Files
  imports Storage
begin

text \<open>
  The text files of \<^verbatim>\<open>io/storage.rs\<close>: the issuance file the token supply is read from, the
  files of balances, and the checkpoint files with the keys to remove after a block.
\<close>

section \<open>Files as text\<close>

definition is_existing_file :: "string \<Rightarrow> disk \<Rightarrow> bool" where
  "is_existing_file path dk = (dk_files dk path \<noteq> None)"

text \<open>The contents as lines, without carriage returns at their ends; empty lines are skipped.\<close>

definition file_lines :: "bytes \<Rightarrow> string list res" where
  "file_lines bs =
     rbind (unwrap_r (from_utf8 bs)) (\<lambda>contents.
       Inr (filter (\<lambda>line. line \<noteq> [])
             (map trim_end_cr (split_on CHR 0x0A (trim_end_cr contents)))))"

section \<open>Issuance\<close>

definition ISSUANCE_FILE_PATH :: string where
  "ISSUANCE_FILE_PATH = ''./data/issuance/issuance''"

text \<open>
  A line is an amount, a key and a slip type. Small amounts go to the key of the project; a line
  with missing words, a key of the wrong length or an unknown type is a panic, an unreadable
  amount or key skips the line.
\<close>

definition convert_issuance_into_slip :: "ext \<Rightarrow> string \<Rightarrow> slip option res" where
  "convert_issuance_into_slip X line =
     (let entries = split_whitespace line in
      rbind (index_r entries 0) (\<lambda>e0.
        case parse_word e0 of
          None \<Rightarrow> Inr None
        | Some amount \<Rightarrow>
            rbind (if amount < 25000 then Inr PROJECT_PUBLIC_KEY else index_r entries 1)
              (\<lambda>publickey_str.
                case base58_decode X publickey_str of
                  None \<Rightarrow> Inr None
                | Some v \<Rightarrow>
                    if length v \<noteq> 33 then Inl Panic
                    else
                      rbind (index_r entries 2) (\<lambda>e2.
                        let ty = trim_end_cr e2 in
                        if ty = ''VipOutput'' \<or> ty = ''Normal''
                        then Inr (Some (slip_default\<lparr>slip_amount := amount, slip_public_key := v,
                               slip_slip_type := ST_Normal\<rparr>))
                        else Inl Panic))))"

fun issuance_slips :: "ext \<Rightarrow> string list \<Rightarrow> slip list res" where
  "issuance_slips X [] = Inr []"
| "issuance_slips X (line # lines) =
     rbind (convert_issuance_into_slip X line) (\<lambda>r.
     rbind (issuance_slips X lines) (\<lambda>slips.
       Inr (case r of Some s \<Rightarrow> slip_generate_utxoset_key s # slips | None \<Rightarrow> slips)))"

definition get_token_supply_slips_from_disk_path :: "ext \<Rightarrow> disk \<Rightarrow> string \<Rightarrow> slip list res" where
  "get_token_supply_slips_from_disk_path X dk issuance_file =
     (if is_existing_file issuance_file dk then
        (case read_value issuance_file dk of
           Inr contents \<Rightarrow> rbind (file_lines contents) (issuance_slips X)
         | Inl _ \<Rightarrow> Inr [])
      else Inr [])"

definition get_token_supply_slips_from_disk :: "ext \<Rightarrow> disk \<Rightarrow> slip list res" where
  "get_token_supply_slips_from_disk X dk =
     get_token_supply_slips_from_disk_path X dk ISSUANCE_FILE_PATH"

section \<open>Balances\<close>

text \<open>One line of a balance file, with its line feed.\<close>

definition balance_line :: "u64 \<Rightarrow> string \<Rightarrow> string" where
  "balance_line amount key =
     nat_to_string (unat amount) @ [CHR 0x09] @ key @ [CHR 0x09] @ ''Normal'' @ [CHR 0x0A]"

text \<open>
  \<^verbatim>\<open>Blockchain::write_issuance_file\<close>: the balances in the order the map yields them; those
  below the threshold are added up and given to the project.
\<close>

definition issuance_contents :: "ext \<Rightarrow> u64 \<Rightarrow> (bytes \<times> u64) list \<Rightarrow> string" where
  "issuance_contents X threshold data =
     (let aggregated_value = sum_list (map snd (filter (\<lambda>(key, v). v < threshold) data)) in
      concat (map (\<lambda>(key, v). balance_line v (base58_encode X key))
        (filter (\<lambda>(key, v). \<not> v < threshold) data)) @
      (if aggregated_value > 0 then balance_line aggregated_value PROJECT_PUBLIC_KEY else []))"

text \<open>The balances in the order the map yields them; the file is created even when none is written.\<close>

definition write_utxoset_to_disk_path ::
  "ext \<Rightarrow> (bytes \<times> u64) list \<Rightarrow> u64 \<Rightarrow> string \<Rightarrow> disk \<Rightarrow> disk res" where
  "write_utxoset_to_disk_path X balance_map threshold path dk =
     write_value path
       (as_bytes (concat (map (\<lambda>(key, v). balance_line v (base58_encode X key))
          (filter (\<lambda>(key, v). v > threshold) balance_map)))) dk"

section \<open>Checkpoints\<close>

definition checkpoint_path :: "ext \<Rightarrow> disk \<Rightarrow> bytes \<Rightarrow> u64 \<Rightarrow> string" where
  "checkpoint_path X dk block_hash block_id =
     dk_checkpoint_dir dk @ nat_to_string (unat block_id) @ ''-'' @ hex_encode X block_hash @ ''.chk''"

definition load_checkpoint_file :: "ext \<Rightarrow> bytes \<Rightarrow> u64 \<Rightarrow> disk \<Rightarrow> bytes list option res" where
  "load_checkpoint_file X block_hash block_id dk =
     (let file_path = checkpoint_path X dk block_hash block_id in
      if \<not> is_existing_file file_path dk then Inr None
      else case read_value file_path dk of
        Inl _ \<Rightarrow> Inr None
      | Inr contents \<Rightarrow>
          rbind (file_lines contents) (\<lambda>lines.
            Inr (Some (concat (map (\<lambda>line.
              case from_hex X UTXO_KEY_LENGTH line of Inr key \<Rightarrow> [key] | Inl _ \<Rightarrow> []) lines)))))"

section \<open>Reading back what was written\<close>

definition balance_words :: "u64 \<Rightarrow> string \<Rightarrow> string" where
  "balance_words amount key = nat_to_string (unat amount) @ CHR 0x09 # key @ CHR 0x09 # ''Normal''"

lemma balance_line_words: "balance_line amount key = balance_words amount key @ [CHR 0x0A]"
  by (simp add: balance_line_def balance_words_def)

text \<open>The slip a written balance is read as: small amounts go to the project.\<close>

definition issued_slip :: "ext \<Rightarrow> bytes \<Rightarrow> u64 \<Rightarrow> slip" where
  "issued_slip X key amount =
     slip_generate_utxoset_key (slip_default\<lparr>slip_amount := amount,
       slip_public_key := (if amount < 25000 then the (base58_decode X PROJECT_PUBLIC_KEY) else key)\<rparr>)"

lemma issued_amount [simp]: "slip_amount (issued_slip X key amount) = amount"
  by (simp add: issued_slip_def slip_generate_utxoset_key_def)

definition key_text :: "ext \<Rightarrow> string \<Rightarrow> bytes \<Rightarrow> bool" where
  "key_text X ks k \<longleftrightarrow> list_all is_alnum ks \<and> ks \<noteq> [] \<and> base58_decode X ks = Some k \<and> length k = 33"

lemma key_text_encode: "text_laws X \<Longrightarrow> length k = 33 \<Longrightarrow> key_text X (base58_encode X k) k"
  by (cases k) (auto simp: text_laws_def key_text_def)

lemma key_text_project:
  "text_laws X \<Longrightarrow> key_text X PROJECT_PUBLIC_KEY (the (base58_decode X PROJECT_PUBLIC_KEY))"
  by (auto simp: text_laws_def key_text_def PROJECT_PUBLIC_KEY_def is_alnum_def)

lemma convert_balance_words:
  assumes "text_laws X" and "key_text X ks key"
  shows "\<exists>s. convert_issuance_into_slip X (balance_words amount ks) = Inr (Some s) \<and>
    slip_generate_utxoset_key s = issued_slip X key amount"
proof -
  obtain p where p: "base58_decode X PROJECT_PUBLIC_KEY = Some p" "length p = 33"
    using assms(1) by (auto simp: text_laws_def)
  have n: "list_all is_alnum ''Normal''" by (simp add: is_alnum_def)
  have "split_whitespace (balance_words amount ks) = [nat_to_string (unat amount), ks, ''Normal'']"
    unfolding balance_words_def using assms(2) n
    by (intro split_whitespace_row) (auto simp: nat_to_string_alnum key_text_def)
  then show ?thesis
    using assms(2) p
    by (simp add: convert_issuance_into_slip_def Let_def index_r_def key_text_def issued_slip_def slip_default_def)
qed

lemma issuance_slips_of:
  assumes "text_laws X" and "list_all (\<lambda>(ks, k, v). key_text X ks k) rows"
  shows "issuance_slips X (map (\<lambda>(ks, k, v). balance_words v ks) rows) =
    Inr (map (\<lambda>(ks, k, v). issued_slip X k v) rows)"
  using assms(2)
proof (induction rows)
  case (Cons row rows)
  obtain ks k v where row: "row = (ks, k, v)" by (cases row)
  with Cons.prems obtain s where
    "convert_issuance_into_slip X (balance_words v ks) = Inr (Some s)"
    "slip_generate_utxoset_key s = issued_slip X k v"
    using convert_balance_words [OF assms(1)] by fastforce
  with Cons row show ?case by simp
qed simp

lemma normal_alnum: "list_all is_alnum ''Normal''"
  by (simp add: is_alnum_def)

lemma balance_words_chars:
  assumes "list_all is_alnum ks"
  shows "c \<in> set (balance_words v ks) \<Longrightarrow> is_alnum c \<or> c = CHR 0x09"
  using assms nat_to_string_alnum [of "unat v"] normal_alnum
  by (auto simp: balance_words_def list_all_iff)

lemma alnum_ascii: "is_alnum c \<Longrightarrow> of_char c < (128 :: nat)"
  using alnum_codes by (auto simp: list_all_iff is_alnum_def simp del: set_simps list.pred_inject)

lemma split_lines:
  "list_all (\<lambda>l. c \<notin> set l) ls \<Longrightarrow> split_on c (concat (map (\<lambda>l. l @ [c]) ls)) = ls @ [[]]"
  by (induction ls) simp_all

lemma file_lines_rows:
  assumes "list_all (\<lambda>(ks, v). list_all is_alnum ks) rows"
  shows "file_lines (as_bytes (concat (map (\<lambda>(ks, v). balance_line v ks) rows))) =
    Inr (map (\<lambda>(ks, v). balance_words v ks) rows)"
proof -
  let ?ls = "map (\<lambda>(ks, v). balance_words v ks) rows"
  have c: "is_alnum c \<or> c = CHR 0x09" if "l \<in> set ?ls" "c \<in> set l" for l c
  proof -
    from that(1) obtain ks v where "(ks, v) \<in> set rows" "l = balance_words v ks" by auto
    with assms that(2) balance_words_chars [of ks c v] show ?thesis by (auto simp: list_all_iff)
  qed
  have free: "CHR 0x0D \<notin> set l" "CHR 0x0A \<notin> set l" if "l \<in> set ?ls" for l
    using c [OF that] separators(4,5) by (blast, blast)
  have contents: "concat (map (\<lambda>(ks, v). balance_line v ks) rows) = concat (map (\<lambda>l. l @ [CHR 0x0A]) ?ls)"
    by (induction rows) (auto simp: balance_line_words)
  have "list_all (\<lambda>c. of_char c < (128 :: nat)) (concat (map (\<lambda>l. l @ [CHR 0x0A]) ?ls))"
    using c alnum_ascii by (fastforce simp: list_all_iff)
  then have u: "from_utf8 (as_bytes (concat (map (\<lambda>l. l @ [CHR 0x0A]) ?ls))) =
      Inr (concat (map (\<lambda>l. l @ [CHR 0x0A]) ?ls))"
    by (simp add: from_utf8_def utf8_ascii del: map_map)
  have "CHR 0x0D \<notin> set (concat (map (\<lambda>l. l @ [CHR 0x0A]) ?ls))"
    using free(1) by auto
  moreover have "split_on CHR 0x0A (concat (map (\<lambda>l. l @ [CHR 0x0A]) ?ls)) = ?ls @ [[]]"
    using free(2) by (intro split_lines) (simp add: list_all_iff)
  moreover have "map trim_end_cr ?ls = ?ls"
    using free(1) by (intro map_idI trim_end_cr_id)
  moreover have "filter (\<lambda>line. line \<noteq> []) ?ls = ?ls"
    by (auto simp: filter_id_conv balance_words_def)
  ultimately show ?thesis
    by (simp add: file_lines_def contents u del: map_map)
qed

text \<open>The rows of an issuance file: the text of the key, the key and the amount.\<close>

definition issuance_rows :: "ext \<Rightarrow> u64 \<Rightarrow> (bytes \<times> u64) list \<Rightarrow> (string \<times> bytes \<times> u64) list" where
  "issuance_rows X threshold data =
     (let small = sum_list (map snd (filter (\<lambda>(key, v). v < threshold) data)) in
      map (\<lambda>(key, v). (base58_encode X key, key, v)) (filter (\<lambda>(key, v). \<not> v < threshold) data) @
      (if small > 0 then [(PROJECT_PUBLIC_KEY, the (base58_decode X PROJECT_PUBLIC_KEY), small)] else []))"

lemma issuance_contents_rows:
  "issuance_contents X threshold data =
     concat (map (\<lambda>(ks, v). balance_line v ks) (map (\<lambda>(ks, k, v). (ks, v)) (issuance_rows X threshold data)))"
  by (simp add: issuance_contents_def issuance_rows_def Let_def o_def case_prod_unfold)

lemma issuance_rows_keys:
  assumes "text_laws X" and "list_all (\<lambda>(key, v). length key = 33) data"
  shows "list_all (\<lambda>(ks, k, v). key_text X ks k) (issuance_rows X threshold data)"
  using assms(2) key_text_encode [OF assms(1)] key_text_project [OF assms(1)]
  by (auto simp: issuance_rows_def Let_def list_all_iff)

lemma issuance_rows_total:
  "sum_list (map (\<lambda>(ks, k, v). v) (issuance_rows X threshold data)) = sum_list (map snd data)"
proof -
  have "sum_list (map snd (filter (\<lambda>(key, v). \<not> v < threshold) data)) +
      sum_list (map snd (filter (\<lambda>(key, v). v < threshold) data)) = sum_list (map snd data)"
    by (induction data) (auto simp: algebra_simps)
  then show ?thesis
    by (auto simp: issuance_rows_def Let_def o_def case_prod_unfold word_neq_0_conv [symmetric])
qed

text \<open>
  C38. The token supply survives the issuance file: reading the file written from the balances
  gives one slip per written balance, for its owner when the amount is at least 25000 and for the
  project otherwise, and the amounts of the slips add up to the balances.
\<close>

theorem issuance_file_roundtrip:
  assumes "text_laws X" and "list_all (\<lambda>(key, v). length key = 33) data"
    and "dk_files dk path = Some (as_bytes (issuance_contents X threshold data))"
  shows "\<exists>slips. get_token_supply_slips_from_disk_path X dk path = Inr slips \<and>
    slips = map (\<lambda>(ks, k, v). issued_slip X k v) (issuance_rows X threshold data) \<and>
    sum_list (map slip_amount slips) = sum_list (map snd data)"
proof -
  let ?rows = "issuance_rows X threshold data"
  note keys = issuance_rows_keys [OF assms(1,2), of threshold]
  have "file_lines (as_bytes (issuance_contents X threshold data)) =
      Inr (map (\<lambda>(ks, v). balance_words v ks) (map (\<lambda>(ks, k, v). (ks, v)) ?rows))"
    unfolding issuance_contents_rows
    by (rule file_lines_rows) (use keys in \<open>auto simp: list_all_iff key_text_def\<close>)
  then have "get_token_supply_slips_from_disk_path X dk path =
      Inr (map (\<lambda>(ks, k, v). issued_slip X k v) ?rows)"
    using issuance_slips_of [OF assms(1) keys] assms(3)
    by (simp add: get_token_supply_slips_from_disk_path_def is_existing_file_def read_value_def o_def
        case_prod_unfold)
  moreover have "map slip_amount (map (\<lambda>(ks, k, v). issued_slip X k v) ?rows) = map (\<lambda>(ks, k, v). v) ?rows"
    by (simp add: o_def case_prod_unfold)
  ultimately show ?thesis
    using issuance_rows_total [of X threshold data] by metis
qed

theorem issuance_file_roundtrip_witness:
  "\<exists>slips. get_token_supply_slips_from_disk_path demo_ext
       \<lparr>dk_files = [''f'' \<mapsto> as_bytes (issuance_contents demo_ext 100 [(replicate 33 2, 30000), (replicate 33 3, 50)])],
        dk_block_dir = [], dk_checkpoint_dir = [], dk_writable = True\<rparr> ''f'' = Inr slips \<and>
     sum_list (map slip_amount slips) = 30050"
proof -
  have "list_all (\<lambda>(key, v :: u64). length key = 33) [(replicate 33 (2 :: u8), 30000), (replicate 33 3, 50)]"
    by simp
  from issuance_file_roundtrip [OF text_laws_demo this, of
      "\<lparr>dk_files = [''f'' \<mapsto> as_bytes (issuance_contents demo_ext 100 [(replicate 33 2, 30000), (replicate 33 3, 50)])],
        dk_block_dir = [], dk_checkpoint_dir = [], dk_writable = True\<rparr>" "''f''" 100]
  show ?thesis by auto
qed

end
