(* ===== verification/Balance_Snapshot.thy ===== *)
theory Balance_Snapshot
  imports Slip Saito_Text
begin

text \<open>
  Snapshots of the spendable slips (\<^verbatim>\<open>util/balance_snapshot.rs\<close>) and their text form: a file
  name made of the timestamp, the id and the hash of the latest block, and one row per slip.
  Error messages are the value \<open>Other\<close>.
\<close>

record BalanceSnapshot =
  sn_latest_block_id :: u64
  sn_latest_block_hash :: bytes
  sn_timestamp :: u64
  sn_slips :: "slip list"

section \<open>Writing\<close>

definition snapshot_get_file_name :: "ext \<Rightarrow> BalanceSnapshot \<Rightarrow> string" where
  "snapshot_get_file_name X sn =
     nat_to_string (unat (sn_timestamp sn)) @ ''-'' @ nat_to_string (unat (sn_latest_block_id sn)) @
     ''-'' @ hex_encode X (sn_latest_block_hash sn) @ ''.snap''"

definition snapshot_entry :: "ext \<Rightarrow> slip \<Rightarrow> string" where
  "snapshot_entry X s =
     base58_encode X (slip_public_key s) @ '' '' @ nat_to_string (unat (slip_block_id s)) @
     '' '' @ nat_to_string (unat (slip_tx_ordinal s)) @ '' '' @
     nat_to_string (unat (slip_slip_index s)) @ '' '' @ nat_to_string (unat (slip_amount s))"

definition snapshot_get_rows :: "ext \<Rightarrow> BalanceSnapshot \<Rightarrow> string list" where
  "snapshot_get_rows X sn = map (snapshot_entry X) (sn_slips sn)"

definition snapshot_get_data :: "ext \<Rightarrow> BalanceSnapshot \<Rightarrow> string \<times> string list" where
  "snapshot_get_data X sn = (snapshot_get_file_name X sn, snapshot_get_rows X sn)"

text \<open>\<^verbatim>\<open>Display\<close>: a line for the name and one for each row.\<close>

definition snapshot_to_string :: "ext \<Rightarrow> BalanceSnapshot \<Rightarrow> string" where
  "snapshot_to_string X sn =
     (let (file_name, rows) = snapshot_get_data X sn
      in file_name @ [CHR 0x0A] @ concat (map (\<lambda>row. row @ [CHR 0x0A]) rows))"

section \<open>Reading\<close>

definition snapshot_row :: "ext \<Rightarrow> string \<Rightarrow> slip res" where
  "snapshot_row X row =
     (case split_on CHR '' '' row of
        [key, block_id, tx_id, slip_id, amount] \<Rightarrow>
          rbind (from_base58 X 33 key) (\<lambda>key.
          rbind (ok_or Other (parse_word block_id)) (\<lambda>block_id.
          rbind (ok_or Other (parse_word tx_id)) (\<lambda>tx_id.
          rbind (ok_or Other (parse_word slip_id)) (\<lambda>slip_id.
          rbind (ok_or Other (parse_word amount)) (\<lambda>amount.
            Inr (slip_generate_utxoset_key
              \<lparr>slip_public_key = key, slip_amount = amount, slip_slip_index = slip_id,
               slip_block_id = block_id, slip_tx_ordinal = tx_id, slip_slip_type = ST_Normal,
               slip_utxoset_key = replicate UTXO_KEY_LENGTH 0,
               slip_is_utxoset_key_set = False\<rparr>))))))
      | _ \<Rightarrow> Inl Other)"

fun snapshot_rows :: "ext \<Rightarrow> string list \<Rightarrow> slip list res" where
  "snapshot_rows X [] = Inr []"
| "snapshot_rows X (row # rows) =
     rbind (snapshot_row X row) (\<lambda>s. rbind (snapshot_rows X rows) (\<lambda>ss. Inr (s # ss)))"

definition snapshot_new :: "ext \<Rightarrow> string \<Rightarrow> string list \<Rightarrow> BalanceSnapshot res" where
  "snapshot_new X file_name rows =
     (let file_name = hd (split_on CHR ''.'' file_name) in
      case split_on CHR ''-'' file_name of
        [timestamp, block_id, block_hash] \<Rightarrow>
          rbind (ok_or Other (parse_word timestamp)) (\<lambda>timestamp.
          rbind (ok_or Other (parse_word block_id)) (\<lambda>block_id.
          rbind (from_hex X 32 block_hash) (\<lambda>block_hash.
          rbind (snapshot_rows X rows) (\<lambda>slips.
            Inr \<lparr>sn_latest_block_id = block_id, sn_latest_block_hash = block_hash,
                 sn_timestamp = timestamp, sn_slips = slips\<rparr>))))
      | _ \<Rightarrow> Inl Other)"

text \<open>\<^verbatim>\<open>read_line\<close>: the line with its line feed, and the rest of the text.\<close>

definition read_line :: "string \<Rightarrow> string \<times> string" where
  "read_line s =
     (let line = takeWhile (\<lambda>c. c \<noteq> CHR 0x0A) s; rest = dropWhile (\<lambda>c. c \<noteq> CHR 0x0A) s
      in (line @ take 1 rest, drop 1 rest))"

text \<open>\<^verbatim>\<open>String::pop\<close> removes the last character, all its bytes.\<close>

definition pop_char :: "string \<Rightarrow> string" where
  "pop_char s = rev (drop 1 (dropWhile (\<lambda>c. is_cont (of_nat (of_char c))) (rev s)))"

function read_rows :: "string \<Rightarrow> string list" where
  "read_rows s = (if s = [] then [] else pop_char (fst (read_line s)) # read_rows (snd (read_line s)))"
  by auto
termination
proof (relation "measure length")
  fix s :: string assume "s \<noteq> []"
  then have "length (drop 1 (dropWhile (\<lambda>c. c \<noteq> CHR 0x0A) s)) < length s"
    using length_dropWhile_le [of "\<lambda>c. c \<noteq> CHR 0x0A" s] by (cases s) (auto simp: less_Suc_eq_le)
  then show "(snd (read_line s), s) \<in> measure length" by (simp add: read_line_def Let_def)
qed simp

declare read_rows.simps [simp del]

definition snapshot_try_from :: "ext \<Rightarrow> string \<Rightarrow> BalanceSnapshot res" where
  "snapshot_try_from X v =
     (let (file_name, rest) = read_line v in snapshot_new X (pop_char file_name) (read_rows rest))"

section \<open>Writing and reading back\<close>

text \<open>What is left of a slip: its type is not written.\<close>

definition snapshot_slip :: "slip \<Rightarrow> slip" where
  "snapshot_slip s = slip_generate_utxoset_key (s\<lparr>slip_slip_type := ST_Normal\<rparr>)"

lemma alnum_words:
  assumes "text_laws X"
  shows "list_all is_alnum (base58_encode X k)" and "list_all is_alnum (hex_encode X k)"
    and "base58_decode X (base58_encode X k) = Some k" and "hex_decode X (hex_encode X k) = Some k"
  using assms by (simp_all add: text_laws_def)

lemma space_free: "list_all is_alnum s \<Longrightarrow> CHR '' '' \<notin> set s"
  and hyphen_free: "list_all is_alnum s \<Longrightarrow> CHR ''-'' \<notin> set s"
  and dot_free: "list_all is_alnum s \<Longrightarrow> CHR ''.'' \<notin> set s"
  and newline_free: "list_all is_alnum s \<Longrightarrow> CHR 0x0A \<notin> set s"
  using alnum_no_separator separators by blast+

lemmas number_free [simp] =
  space_free [OF nat_to_string_alnum] hyphen_free [OF nat_to_string_alnum]
  dot_free [OF nat_to_string_alnum] newline_free [OF nat_to_string_alnum]

lemma snapshot_row_of:
  assumes "text_laws X" and "length (slip_public_key s) = 33"
  shows "snapshot_row X (snapshot_entry X s) = Inr (snapshot_slip s)"
proof -
  have "CHR '' '' \<notin> set (base58_encode X (slip_public_key s))"
    using alnum_words(1) [OF assms(1)] by (rule space_free)
  then show ?thesis
    using assms by (simp add: snapshot_row_def snapshot_entry_def from_base58_def alnum_words
        snapshot_slip_def slip_generate_utxoset_key_def slip_get_utxoset_key_def)
qed

lemma snapshot_rows_of:
  assumes "text_laws X"
  shows "list_all (\<lambda>s. length (slip_public_key s) = 33) ss \<Longrightarrow>
    snapshot_rows X (map (snapshot_entry X) ss) = Inr (map snapshot_slip ss)"
  by (induction ss) (auto simp: snapshot_row_of assms)

lemma snapshot_new_of:
  assumes "text_laws X" and "length (sn_latest_block_hash sn) = 32"
    and "list_all (\<lambda>s. length (slip_public_key s) = 33) (sn_slips sn)"
  shows "snapshot_new X (snapshot_get_file_name X sn) (snapshot_get_rows X sn) =
    Inr (sn\<lparr>sn_slips := map snapshot_slip (sn_slips sn)\<rparr>)"
proof -
  let ?h = "hex_encode X (sn_latest_block_hash sn)"
  let ?s = "nat_to_string (unat (sn_timestamp sn)) @ ''-'' @
    nat_to_string (unat (sn_latest_block_id sn)) @ ''-'' @ ?h"
  have h: "CHR ''.'' \<notin> set ?h" "CHR ''-'' \<notin> set ?h"
    using alnum_words(2) [OF assms(1)] by (simp_all add: dot_free hyphen_free)
  then have "hd (split_on CHR ''.'' (?s @ CHR ''.'' # ''snap'')) = ?s"
    by (subst split_on_append) auto
  moreover have "split_on CHR ''-'' ?s = [nat_to_string (unat (sn_timestamp sn)),
      nat_to_string (unat (sn_latest_block_id sn)), ?h]"
    using h by simp
  ultimately show ?thesis
    using assms by (simp add: snapshot_new_def snapshot_get_file_name_def snapshot_get_rows_def
        from_hex_def alnum_words snapshot_rows_of)
qed

lemma read_line_append: "CHR 0x0A \<notin> set s \<Longrightarrow> read_line (s @ CHR 0x0A # t) = (s @ [CHR 0x0A], t)"
  by (induction s) (auto simp: read_line_def Let_def)

lemma pop_newline: "pop_char (s @ [CHR 0x0A]) = s"
  by (simp add: pop_char_def is_cont_def)

lemma read_rows_concat:
  "list_all (\<lambda>row. CHR 0x0A \<notin> set row) rows \<Longrightarrow>
     read_rows (concat (map (\<lambda>row. row @ [CHR 0x0A]) rows)) = rows"
  by (induction rows) (simp_all add: read_rows.simps read_line_append pop_newline)

lemma entry_newline_free: "text_laws X \<Longrightarrow> CHR 0x0A \<notin> set (snapshot_entry X s)"
  by (simp add: snapshot_entry_def alnum_words newline_free)

text \<open>
  A snapshot written as text is read back with its block, its timestamp and its slips, whose
  keys are generated anew; the types of the slips are lost, they all become Normal.
\<close>

theorem snapshot_text_roundtrip:
  assumes "text_laws X" and "length (sn_latest_block_hash sn) = 32"
    and "list_all (\<lambda>s. length (slip_public_key s) = 33) (sn_slips sn)"
  shows "snapshot_try_from X (snapshot_to_string X sn) =
    Inr (sn\<lparr>sn_slips := map snapshot_slip (sn_slips sn)\<rparr>)"
proof -
  have "CHR 0x0A \<notin> set (snapshot_get_file_name X sn)"
    using alnum_words(2) [OF assms(1)] by (simp add: snapshot_get_file_name_def newline_free)
  moreover have "list_all (\<lambda>row. CHR 0x0A \<notin> set row) (snapshot_get_rows X sn)"
    using entry_newline_free [OF assms(1)] by (simp add: snapshot_get_rows_def list_all_iff)
  ultimately show ?thesis
    using snapshot_new_of [OF assms]
    by (simp add: snapshot_try_from_def snapshot_to_string_def snapshot_get_data_def
        read_line_append pop_newline read_rows_concat)
qed

theorem snapshot_text_roundtrip_witness:
  "\<exists>sn. sn_slips sn = [slip_default\<lparr>slip_slip_type := ST_BlockStake, slip_amount := 5\<rparr>] \<and>
     (\<exists>sn'. snapshot_try_from demo_ext (snapshot_to_string demo_ext sn) = Inr sn' \<and>
        map slip_slip_type (sn_slips sn') = [ST_Normal] \<and> map slip_amount (sn_slips sn') = [5])"
proof -
  let ?sn = "\<lparr>sn_latest_block_id = 7, sn_latest_block_hash = replicate 32 1, sn_timestamp = 9,
    sn_slips = [slip_default\<lparr>slip_slip_type := ST_BlockStake, slip_amount := 5\<rparr>]\<rparr>"
  have "snapshot_try_from demo_ext (snapshot_to_string demo_ext ?sn) =
      Inr (?sn\<lparr>sn_slips := map snapshot_slip (sn_slips ?sn)\<rparr>)"
    by (rule snapshot_text_roundtrip [OF text_laws_demo]) (simp_all add: slip_default_def)
  then show ?thesis
    by (intro exI [of _ ?sn]) (simp add: snapshot_slip_def slip_generate_utxoset_key_def)
qed

end
