(* ===== verification/Blockchain_Add.thy ===== *)
theory Blockchain_Add
  imports Winding Mempool Storage_Files Balance_Snapshot
begin

text \<open>
  Adding blocks to the chain (\<^verbatim>\<open>consensus/blockchain.rs\<close>): \<^verbatim>\<open>add_block\<close> with its success
  and failure paths, the queue of the mempool, ghost blocks, and the functions that read the whole
  UTXO set, among them the check of the total supply.

  The order in which a hash map yields its keys is an argument, \<open>ord\<close>: for a map it gives its
  keys in some order. Functions that may not return, because a walk or the machine of
  \<^verbatim>\<open>validate\<close> does not end, have the value \<open>None\<close>.
\<close>

section \<open>Calls that may not return\<close>

fun lbind :: "'a res option \<Rightarrow> ('a \<Rightarrow> 'b res option) \<Rightarrow> 'b res option" where
  "lbind None f = None"
| "lbind (Some (Inl e)) f = Some (Inl e)"
| "lbind (Some (Inr x)) f = f x"

lemma lbind_eq_Inr [simp]:
  "lbind m f = Some (Inr y) \<longleftrightarrow> (\<exists>x. m = Some (Inr x) \<and> f x = Some (Inr y))"
  by (cases "(m, f)" rule: lbind.cases) auto

section \<open>The whole UTXO set\<close>

definition map_order :: "('k \<rightharpoonup> 'v) \<Rightarrow> 'k list \<Rightarrow> bool" where
  "map_order m ks \<longleftrightarrow> distinct ks \<and> set ks = dom m"

text \<open>The keys that are spendable, in the order of the map.\<close>

definition spendable_keys :: "(utxoset \<Rightarrow> bytes list) \<Rightarrow> utxoset \<Rightarrow> bytes list" where
  "spendable_keys ord u = filter (\<lambda>k. u k = Some True) (ord u)"

fun parse_keys :: "bytes list \<Rightarrow> slip list res" where
  "parse_keys [] = Inr []"
| "parse_keys (k # ks) =
     rbind (unwrap_r (slip_parse_slip_from_utxokey k)) (\<lambda>s.
     rbind (parse_keys ks) (\<lambda>ss. Inr (s # ss)))"

text \<open>\<^verbatim>\<open>*data.entry(key).or_default() += amount\<close>\<close>

definition add_balance :: "slip \<Rightarrow> (bytes \<times> u64) list \<Rightarrow> (bytes \<times> u64) list" where
  "add_balance s data =
     AList.update (slip_public_key s)
       ((case map_of data (slip_public_key s) of Some v \<Rightarrow> v | None \<Rightarrow> 0) + slip_amount s) data"

definition bc_get_utxoset_data ::
  "(utxoset \<Rightarrow> bytes list) \<Rightarrow> Blockchain \<Rightarrow> (bytes \<times> u64) list res" where
  "bc_get_utxoset_data ord bc =
     rbind (parse_keys (spendable_keys ord (bc_utxoset bc))) (\<lambda>slips.
       Inr (fold add_balance slips []))"

definition bc_get_slips_for ::
  "(utxoset \<Rightarrow> bytes list) \<Rightarrow> bytes \<Rightarrow> Blockchain \<Rightarrow> slip list res" where
  "bc_get_slips_for ord public_key bc =
     rbind (parse_keys (spendable_keys ord (bc_utxoset bc))) (\<lambda>slips.
       Inr (filter (\<lambda>s. slip_public_key s = public_key) slips))"

definition bc_get_balance_snapshot ::
  "(utxoset \<Rightarrow> bytes list) \<Rightarrow> node_config \<Rightarrow> bytes list \<Rightarrow> Blockchain \<Rightarrow> BalanceSnapshot res" where
  "bc_get_balance_snapshot ord conf keys bc =
     rbind (bc_get_latest_block_id bc) (\<lambda>latest_block_id.
     rbind (bc_get_latest_block_hash bc) (\<lambda>latest_block_hash.
     rbind (parse_keys (spendable_keys ord (bc_utxoset bc))) (\<lambda>slips.
       Inr \<lparr>sn_latest_block_id = latest_block_id, sn_latest_block_hash = latest_block_hash,
            sn_timestamp = bc_last_timestamp bc,
            sn_slips = filter (\<lambda>s. slip_slip_type s \<noteq> ST_Bound \<and>
              \<not> slip_block_id s < sat_sub latest_block_id (cfg_genesis_period conf) \<and>
              (keys = [] \<or> slip_public_key s \<in> set keys)) slips\<rparr>)))"

definition bc_calculate_current_supply :: "(utxoset \<Rightarrow> bytes list) \<Rightarrow> Blockchain \<Rightarrow> u64 res" where
  "bc_calculate_current_supply ord bc =
     rbind (parse_keys (spendable_keys ord (bc_utxoset bc))) (\<lambda>slips.
     rbind (bc_get_latest_block bc) (\<lambda>latest.
       Inr (case latest of
         Some b \<Rightarrow> sum_list (map slip_amount slips) + b_graveyard b + b_treasury b +
                   b_previous_block_unpaid b + b_total_fees b
       | None \<Rightarrow> 0)))"

section \<open>The total supply\<close>

text \<open>What one spendable key contributes: keys that do not parse, Bound and old slips count nothing.\<close>

definition supply_amount :: "u64 \<Rightarrow> bytes \<Rightarrow> u64" where
  "supply_amount oldest k =
     (case slip_parse_slip_from_utxokey k of
        Inr s \<Rightarrow> if slip_slip_type s = ST_Bound \<or> slip_block_id s < oldest then 0 else slip_amount s
      | Inl _ \<Rightarrow> 0)"

definition bc_check_total_supply ::
  "(utxoset \<Rightarrow> bytes list) \<Rightarrow> node_config \<Rightarrow> Blockchain \<Rightarrow> Blockchain res" where
  "bc_check_total_supply ord conf bc =
     rbind (has_total_supply_loaded (cfg_genesis_period conf) bc) (\<lambda>loaded.
       if \<not> loaded then Inr bc
       else if cfg_is_browser conf \<or> cfg_is_spv_mode conf then Inr bc
       else
         rbind (bc_get_latest_block bc) (\<lambda>latest.
         rbind (ok_or Panic latest) (\<lambda>b.
           let oldest = sat_sub (b_id b) (cfg_genesis_period conf);
               amount_in_utxo = sum_list (map (supply_amount oldest)
                 (spendable_keys ord (bc_utxoset bc)));
               current_supply = amount_in_utxo + b_graveyard b + b_treasury b +
                 b_previous_block_unpaid b + b_total_fees b;
               bc' = (if bc_initial_token_supply bc = 0
                      then bc\<lparr>bc_initial_token_supply := current_supply\<rparr> else bc)
           in if current_supply \<noteq> bc_initial_token_supply bc' then Inl Panic else Inr bc')))"

section \<open>After a block was added\<close>

definition issuance_archive_path :: "ext \<Rightarrow> block \<Rightarrow> string" where
  "issuance_archive_path X b =
     ''./data/issuance/archive/block_'' @ nat_to_string (unat (b_timestamp b)) @ ''_'' @
     hex_encode X (b_hash b) @ ''_'' @ nat_to_string (unat (b_id b)) @ ''.issuance''"

definition bc_write_issuance_file ::
  "ext \<Rightarrow> (utxoset \<Rightarrow> bytes list) \<Rightarrow> u64 \<Rightarrow> string \<Rightarrow> Blockchain \<Rightarrow> disk \<Rightarrow> disk res" where
  "bc_write_issuance_file X ord threshold issuance_file_path bc dk =
     rbind (bc_get_utxoset_data ord bc) (\<lambda>data.
     rbind (bc_get_latest_block bc) (\<lambda>latest.
     rbind (ok_or Panic latest) (\<lambda>b.
       unwrap_r (write_value
         (if issuance_file_path = [] then issuance_archive_path X b else issuance_file_path)
         (as_bytes (issuance_contents X threshold data)) dk))))"

definition bc_set_safe_to_prune_transaction :: "u64 \<Rightarrow> Blockchain \<Rightarrow> Blockchain res" where
  "bc_set_safe_to_prune_transaction block_id bc =
     rbind (br_get_block_hash_by_block_id block_id (bc_blockring bc)) (\<lambda>r.
       Inr (case r of
         Some h \<Rightarrow> (case map_of (bc_blocks bc) h of
             Some b \<Rightarrow> with_block h (b\<lparr>b_safe_to_prune_transactions := True\<rparr>) bc
           | None \<Rightarrow> bc)
       | None \<Rightarrow> bc))"

text \<open>
  \<^verbatim>\<open>HashMap::retain\<close>, then the transactions of the block: the routing work is that of the
  transactions left.
\<close>

definition bc_remove_block_transactions :: "bytes \<Rightarrow> Blockchain \<Rightarrow> Mempool \<Rightarrow> Mempool res" where
  "bc_remove_block_transactions block_hash bc mp =
     (let mp1 = mp\<lparr>mp_transactions :=
        filter (\<lambda>(_, tx). tx_validate_against_utxoset (bc_utxoset bc) tx) (mp_transactions mp)\<rparr>
      in rbind (ok_or Panic (map_of (bc_blocks bc) block_hash)) (\<lambda>b.
           mp_delete_transactions (b_transactions b) mp1))"

definition bc_prune_blocks_after_add_block ::
  "ext \<Rightarrow> node_config \<Rightarrow> disk \<Rightarrow> Blockchain \<Rightarrow> Blockchain res" where
  "bc_prune_blocks_after_add_block X conf dk bc =
     rbind (bc_get_latest_block_id bc) (\<lambda>latest_block_id.
       if latest_block_id > cfg_genesis_period conf then
         rbind (br_get_longest_chain_block_hash_at_block_id
                  (latest_block_id - cfg_genesis_period conf) (bc_blockring bc)) (\<lambda>r.
           case r of
             Some pruned_block_hash \<Rightarrow>
               rbind (ok_or Panic (map_of (bc_blocks bc) pruned_block_hash)) (\<lambda>b.
               rbind (block_upgrade_block_to_block_type X dk BT_Pruned (cfg_is_spv_mode conf) b)
                 (\<lambda>(ok, b'). Inr (with_block pruned_block_hash b' bc)))
           | None \<Rightarrow> Inr bc)
       else Inr bc)"

text \<open>The part of \<^verbatim>\<open>add_block_success\<close> that writes files.\<close>

definition bc_save_block ::
  "ext \<Rightarrow> (utxoset \<Rightarrow> bytes list) \<Rightarrow> node_config \<Rightarrow> block \<Rightarrow> node \<Rightarrow> node res" where
  "bc_save_block X ord conf b nd =
     (if b_block_type b \<noteq> BT_Header \<and> \<not> cfg_is_browser conf \<and> \<not> cfg_is_spv_mode conf then
        rbind (write_block_to_disk X b (nd_disk nd)) (\<lambda>(filename, dk).
          let bc = nd_blockchain nd; writing_interval = cfg_issuance_writing_block_interval conf in
          if writing_interval > 0 \<and> b_id b \<ge> bc_last_issuance_written_on bc + writing_interval then
            rbind (bc_write_issuance_file X ord 0 [] bc dk) (\<lambda>dk'.
              Inr (nd\<lparr>nd_disk := dk',
                nd_blockchain := bc\<lparr>bc_last_issuance_written_on := b_id b\<rparr>\<rparr>))
          else Inr (nd\<lparr>nd_disk := dk\<rparr>))
      else Inr nd)"

definition bc_add_block_success ::
  "ext \<Rightarrow> (utxoset \<Rightarrow> bytes list) \<Rightarrow> node_config \<Rightarrow> bytes \<Rightarrow> node \<times> Mempool \<Rightarrow>
   (node \<times> Mempool) res" where
  "bc_add_block_success X ord conf block_hash = (\<lambda>(nd, mp).
     rbind (ok_or Panic (map_of (bc_blocks (nd_blockchain nd)) block_hash)) (\<lambda>b.
     rbind (bc_save_block X ord conf b nd) (\<lambda>nd1.
     rbind (bc_update_fork_id (b_id b) (nd_blockchain nd1)) (\<lambda>bc2.
     rbind (bc_set_safe_to_prune_transaction (b_id b) bc2) (\<lambda>bc3.
     rbind (bc_remove_block_transactions block_hash bc3 mp) (\<lambda>mp1.
     rbind (bc_prune_blocks_after_add_block X conf (nd_disk nd1) bc3) (\<lambda>bc4.
       Inr (nd1\<lparr>nd_blockchain := bc4\<rparr>, mp1))))))))"

text \<open>The transactions of a failed block of one's own that still validate.\<close>

fun revalidate :: "ext \<Rightarrow> Blockchain \<Rightarrow> transaction list \<Rightarrow> transaction list res" where
  "revalidate X bc [] = Inr []"
| "revalidate X bc (tx # txs) =
     rbind (if tx_transaction_type tx = TT_Normal
            then rbind (bc_view bc) (\<lambda>view. tx_validate X (bc_utxoset bc) view True tx)
            else Inr False) (\<lambda>keep.
     rbind (revalidate X bc txs) (\<lambda>txs'. Inr (if keep then tx # txs' else txs')))"

definition bc_add_block_transactions_back ::
  "ext \<Rightarrow> block \<Rightarrow> node \<Rightarrow> Mempool \<Rightarrow> Mempool res" where
  "bc_add_block_transactions_back X b nd mp =
     (if b_creator b = w_public_key (nd_wallet nd) then
        rbind (revalidate X (nd_blockchain nd) (b_transactions b)) (\<lambda>txs.
          Inr (mp\<lparr>mp_transactions := fold (\<lambda>tx. AList.update (tx_signature tx) tx) txs (mp_transactions mp),
                  mp_new_tx_added := True\<rparr>))
      else Inr mp)"

definition bc_add_block_failure ::
  "ext \<Rightarrow> bytes \<Rightarrow> node \<times> Mempool \<Rightarrow> (node \<times> Mempool) res" where
  "bc_add_block_failure X block_hash = (\<lambda>(nd, mp).
     let mp1 = mp_delete_block block_hash mp; bc = nd_blockchain nd in
     case map_of (bc_blocks bc) block_hash of
       None \<Rightarrow> Inr (nd, mp1)
     | Some b \<Rightarrow>
         rbind (br_delete_block (b_id b) (b_hash b) (bc_blockring bc)) (\<lambda>br.
           let nd1 = nd\<lparr>nd_blockchain :=
             bc\<lparr>bc_blocks := AList.delete block_hash (bc_blocks bc), bc_blockring := br\<rparr>\<rparr>
           in rbind (bc_add_block_transactions_back X b nd1 mp1) (\<lambda>mp2. Inr (nd1, mp2))))"

section \<open>Adding a block\<close>

datatype AddBlockResult =
    BlockAddedSuccessfully bytes bool bool
  | BlockAlreadyExists
  | FailedButRetry block bool bool
  | FailedNotValid

text \<open>
  A block whose parent is unknown, in a node that is not loading its first blocks: \<open>None\<close> when
  it is added all the same.
\<close>

definition missing_parent :: "node_config \<Rightarrow> Blockchain \<Rightarrow> Mempool \<Rightarrow> block \<Rightarrow> AddBlockResult option res" where
  "missing_parent conf bc mp b =
     (if br_is_empty (bc_blockring bc) \<or> bc_get_block bc (b_previous_block_hash b) \<noteq> None
      then Inr None
      else if b_previous_block_hash b = replicate 32 0 then Inr None
      else if \<not> (cfg_initial_loading_completed conf \<or> bc_checkpoint_found bc) then Inr None
      else if list_ex (\<lambda>q. b_previous_block_hash b = b_hash q) (mp_blocks_queue mp)
      then Inr (Some (FailedButRetry b False False))
      else
        rbind (bc_get_latest_block_id bc) (\<lambda>latest_block_id.
          let genesis_period = cfg_genesis_period conf in
          if b_id b > max 1 (sat_sub latest_block_id genesis_period) then
            (let distance = (if b_id b \<ge> latest_block_id then b_id b - latest_block_id
                             else latest_block_id - b_id b)
             in if distance < min 1000 genesis_period
                then Inr (Some (FailedButRetry b True False))
                else Inr (Some (FailedButRetry b False True)))
          else Inr (Some FailedNotValid)))"

definition bc_insert_block :: "block \<Rightarrow> Blockchain \<Rightarrow> Blockchain res" where
  "bc_insert_block b bc =
     rbind (br_contains_block_hash_at_block_id (b_id b) (b_hash b) (bc_blockring bc)) (\<lambda>known.
     rbind (if known then Inr (bc_blockring bc)
            else br_add_block (b_id b) (b_hash b) (bc_blockring bc)) (\<lambda>br.
       Inr (with_block (b_hash b) b (bc\<lparr>bc_blockring := br\<rparr>))))"

text \<open>Blocks received out of order: the ids after the new block leave the longest chain.\<close>

fun disconnect_loop :: "u64 list \<Rightarrow> Blockchain \<Rightarrow> Blockchain res" where
  "disconnect_loop [] bc = Inr bc"
| "disconnect_loop (i # is) bc =
     rbind (br_get_longest_chain_block_hash_at_block_id i (bc_blockring bc)) (\<lambda>r.
       case r of
         Some h \<Rightarrow>
           if h \<noteq> replicate 32 0 then
             rbind (br_on_chain_reorganization i h False (bc_blockring bc)) (\<lambda>br.
               let bc1 = bc\<lparr>bc_blockring := br\<rparr>
               in disconnect_loop is (case map_of (bc_blocks bc) h of
                    Some b \<Rightarrow> with_block h (b\<lparr>b_in_longest_chain := False\<rparr>) bc1
                  | None \<Rightarrow> bc1))
           else disconnect_loop is bc
       | None \<Rightarrow> disconnect_loop is bc)"

definition bc_within_genesis_period :: "u64 \<Rightarrow> Blockchain \<Rightarrow> bool res" where
  "bc_within_genesis_period block_id bc =
     rbind (bc_get_latest_block_id bc) (\<lambda>latest_block_id.
       Inr (block_id > sat_sub latest_block_id (bc_genesis_period bc)))"

definition bc_disconnect :: "u64 \<Rightarrow> bytes \<Rightarrow> Blockchain \<Rightarrow> Blockchain res" where
  "bc_disconnect block_id latest_block_hash bc =
     (if br_is_empty (bc_blockring bc) then Inr bc
      else
        rbind (bc_get_latest_block_hash bc) (\<lambda>h.
        rbind (bc_within_genesis_period block_id bc) (\<lambda>recent.
          if latest_block_hash \<noteq> replicate 32 0 \<and> latest_block_hash = h \<and> recent then
            rbind (bc_get_latest_block_id bc) (\<lambda>disconnected_block_id.
              disconnect_loop
                (map of_nat [unat (block_id + 1)..<Suc (unat disconnected_block_id)]) bc)
          else Inr bc)))"

text \<open>The chain of the new block, the chain it competes with, and whether it wins.\<close>

definition bc_choose_chain ::
  "bytes \<Rightarrow> u64 \<Rightarrow> bytes \<Rightarrow> Blockchain \<Rightarrow> (bytes list \<times> bytes list \<times> bool \<times> Blockchain) res option" where
  "bc_choose_chain block_hash block_id latest_block_hash bc =
     (case calculate_new_chain_for_add_block bc block_hash of
        None \<Rightarrow> None
      | Some (shared_ancestor_found, shared_block_hash, new_chain) \<Rightarrow>
          lbind (if shared_ancestor_found
                 then map_option (\<lambda>old_chain. Inr (old_chain, bc))
                        (calculate_old_chain_for_add_block bc latest_block_hash shared_block_hash)
                 else Some (rbind (bc_disconnect block_id latest_block_hash bc) (\<lambda>bc1.
                        Inr (calculate_old_chain_upto_length bc1 latest_block_hash
                               (of_nat (length new_chain)), bc1))))
            (\<lambda>(old_chain, bc1).
              Some (rbind (bc_within_genesis_period block_id bc1) (\<lambda>recent.
                    rbind (if recent then is_new_chain_the_longest_chain bc1 new_chain old_chain
                           else Inr False) (\<lambda>longest.
                      Inr (new_chain, old_chain, longest,
                           bc1\<lparr>bc_blockring := (bc_blockring bc1)\<lparr>br_empty := False\<rparr>\<rparr>))))))"

definition set_in_longest_chain :: "bytes \<Rightarrow> bool \<Rightarrow> Blockchain \<Rightarrow> Blockchain res" where
  "set_in_longest_chain h lc bc =
     rbind (ok_or Panic (map_of (bc_blocks bc) h)) (\<lambda>b.
       Inr (with_block h (b\<lparr>b_in_longest_chain := lc\<rparr>) bc))"

definition with_blockchain :: "Blockchain \<Rightarrow> node \<Rightarrow> node" where
  "with_blockchain bc nd = nd\<lparr>nd_blockchain := bc\<rparr>"

text \<open>A new longest chain is validated; what follows depends on the verdict.\<close>

definition bc_adopt_chain ::
  "ext \<Rightarrow> (utxoset \<Rightarrow> bytes list) \<Rightarrow> node_config \<Rightarrow> bytes \<Rightarrow> bytes list \<Rightarrow> bytes list \<Rightarrow> node \<times> Mempool \<Rightarrow>
   (AddBlockResult \<times> node \<times> Mempool) res option" where
  "bc_adopt_chain X ord conf block_hash new_chain old_chain = (\<lambda>(nd, mp).
     lbind (Some (set_in_longest_chain block_hash True (nd_blockchain nd))) (\<lambda>bc1.
     lbind (bc_validate X conf new_chain old_chain (with_blockchain bc1 nd))
       (\<lambda>((does_new_chain_validate, wallet_updated), nd2).
         Some (if does_new_chain_validate then
                 rbind (bc_check_total_supply ord conf (nd_blockchain nd2)) (\<lambda>bc3.
                 rbind (bc_add_block_success X ord conf block_hash (with_blockchain bc3 nd2, mp)) (\<lambda>(nd4, mp4).
                   Inr (BlockAddedSuccessfully block_hash True wallet_updated, nd4, mp4)))
               else
                 rbind (set_in_longest_chain block_hash False (nd_blockchain nd2)) (\<lambda>bc3.
                 rbind (bc_add_block_failure X block_hash (with_blockchain bc3 nd2, mp)) (\<lambda>(nd4, mp4).
                   Inr (FailedNotValid, nd4, mp4)))))))"

definition bc_add_block ::
  "ext \<Rightarrow> (utxoset \<Rightarrow> bytes list) \<Rightarrow> node_config \<Rightarrow> block \<Rightarrow> node \<times> Mempool \<Rightarrow>
   (AddBlockResult \<times> node \<times> Mempool) res option" where
  "bc_add_block X ord conf b0 = (\<lambda>(nd, mp).
     case block_generate X b0 of
       Inl e \<Rightarrow> Some (if e = Panic then Inl Panic else Inr (FailedNotValid, nd, mp))
     | Inr b \<Rightarrow>
         (let bc = nd_blockchain nd in
          lbind (Some (bc_get_latest_block_hash bc)) (\<lambda>latest_block_hash.
            if map_of (bc_blocks bc) (b_hash b) \<noteq> None then Some (Inr (BlockAlreadyExists, nd, mp))
            else
              lbind (Some (missing_parent conf bc mp b)) (\<lambda>early.
                case early of
                  Some r \<Rightarrow> Some (Inr (r, nd, mp))
                | None \<Rightarrow>
                    lbind (Some (bc_insert_block b bc)) (\<lambda>bc1.
                    lbind (bc_choose_chain (b_hash b) (b_id b) latest_block_hash bc1)
                      (\<lambda>(new_chain, old_chain, longest, bc2).
                        if longest
                        then bc_adopt_chain X ord conf (b_hash b) new_chain old_chain
                               (with_blockchain bc2 nd, mp)
                        else
                          Some (rbind (bc_add_block_success X ord conf (b_hash b)
                                         (with_blockchain bc2 nd, mp)) (\<lambda>(nd3, mp3).
                            Inr (BlockAddedSuccessfully (b_hash b) False False, nd3, mp3)))))))))"

section \<open>The queue of the mempool\<close>

text \<open>What the blockchain tells the miner, the interface, the network and the router.\<close>

datatype chain_event =
    LongestChainBlockAdded bytes u64 u64
  | BlockAddSuccess bytes u64
  | WalletUpdate
  | PropagateBlock block
  | BlockchainUpdated bytes
  | BlockchainRequest u64
  | BlockFetchRequest u64 bytes u64
  | InvalidBlockFrom u64

record channels =
  ch_miner :: bool
  ch_network :: bool
  ch_router :: bool

definition handle_successful_block_addition ::
  "channels \<Rightarrow> bool \<Rightarrow> bytes \<Rightarrow> bool \<Rightarrow> bool \<Rightarrow> Blockchain \<Rightarrow> chain_event list res" where
  "handle_successful_block_addition ch is_spv_mode block_hash in_longest_chain wallet_updated bc =
     rbind (ok_or Panic (map_of (bc_blocks bc) block_hash)) (\<lambda>b.
       Inr ((if ch_miner ch \<and> in_longest_chain
             then [LongestChainBlockAdded block_hash (b_difficulty b) (b_id b)] else []) @
            (if ch_network ch
             then [BlockAddSuccess block_hash (b_id b)] @ (if wallet_updated then [WalletUpdate] else []) @
                  (if is_spv_mode then [] else [PropagateBlock b])
             else []) @
            (if ch_router ch then [BlockchainUpdated block_hash] else [])))"

definition handle_failed_block_to_be_retried ::
  "channels \<Rightarrow> block \<Rightarrow> bool \<Rightarrow> bool \<Rightarrow> Mempool \<Rightarrow> (chain_event list \<times> Mempool) res" where
  "handle_failed_block_to_be_retried ch b fetch_prev_block fetch_blockchain mp =
     rbind (if \<not> ch_router ch then Inr []
            else if fetch_blockchain
            then rbind (ok_or Panic (b_routed_from_peer b)) (\<lambda>peer. Inr [BlockchainRequest peer])
            else if fetch_prev_block
            then Inr [BlockFetchRequest
                   (case b_routed_from_peer b of Some peer \<Rightarrow> peer | None \<Rightarrow> 0)
                   (b_previous_block_hash b) (b_id b - 1)]
            else Inr []) (\<lambda>events. Inr (events, mp_add_block b mp))"

text \<open>The keys of a checkpoint leave the UTXO set and the wallet, their amounts go to the graveyard.\<close>

definition apply_checkpoint_key :: "bytes \<Rightarrow> bytes \<Rightarrow> node \<Rightarrow> node res" where
  "apply_checkpoint_key block_hash key nd =
     (let bc = nd_blockchain nd in
      case bc_utxoset bc key of
        None \<Rightarrow> Inr nd
      | Some _ \<Rightarrow>
          rbind (unwrap_r (slip_parse_slip_from_utxokey key)) (\<lambda>s.
          rbind (ok_or Panic (map_of (bc_blocks bc) block_hash)) (\<lambda>b.
            Inr (nd\<lparr>nd_wallet := wallet_delete_slip s (nd_wallet nd),
              nd_blockchain :=
                with_block block_hash (b\<lparr>b_graveyard := b_graveyard b + slip_amount s,
                                         b_has_checkpoint := True\<rparr>)
                  (bc\<lparr>bc_utxoset := (bc_utxoset bc)(key := None), bc_checkpoint_found := True\<rparr>)\<rparr>))))"

fun apply_checkpoint :: "bytes \<Rightarrow> bytes list \<Rightarrow> node \<Rightarrow> node res" where
  "apply_checkpoint block_hash [] nd = Inr nd"
| "apply_checkpoint block_hash (key # ks) nd =
     rbind (apply_checkpoint_key block_hash key nd) (apply_checkpoint block_hash ks)"

definition load_checkpoint :: "ext \<Rightarrow> bytes \<Rightarrow> u64 \<Rightarrow> node \<Rightarrow> node res" where
  "load_checkpoint X block_hash block_id nd =
     rbind (load_checkpoint_file X block_hash block_id (nd_disk nd)) (\<lambda>r.
       case r of Some ks \<Rightarrow> apply_checkpoint block_hash ks nd | None \<Rightarrow> Inr nd)"

text \<open>
  What follows an added block. The miner hears of the last block only. Without a network, a block
  that is not valid and came from a peer is a panic.
\<close>

definition handle_add_result ::
  "ext \<Rightarrow> node_config \<Rightarrow> channels \<Rightarrow> bool \<Rightarrow> block \<Rightarrow> AddBlockResult \<Rightarrow> node \<times> Mempool \<Rightarrow>
   (chain_event list \<times> node \<times> Mempool) res" where
  "handle_add_result X conf ch last_block b r = (\<lambda>(nd, mp).
     case r of
       BlockAddedSuccessfully block_hash in_longest_chain wallet_updated \<Rightarrow>
         rbind (load_checkpoint X block_hash (b_id b) nd) (\<lambda>nd1.
         rbind (handle_successful_block_addition (ch\<lparr>ch_miner := ch_miner ch \<and> last_block\<rparr>)
                  (cfg_is_spv_mode conf) block_hash in_longest_chain wallet_updated
                  (nd_blockchain nd1)) (\<lambda>events. Inr (events, nd1, mp)))
     | BlockAlreadyExists \<Rightarrow> Inr ([], nd, mp)
     | FailedButRetry block fetch_prev_block fetch_blockchain \<Rightarrow>
         rbind (handle_failed_block_to_be_retried ch block fetch_prev_block fetch_blockchain mp)
           (\<lambda>(events, mp1). Inr (events, nd, mp1))
     | FailedNotValid \<Rightarrow>
         (case b_routed_from_peer b of
            None \<Rightarrow> Inr ([], nd, mp)
          | Some peer_index \<Rightarrow>
              if ch_network ch then Inr ([InvalidBlockFrom peer_index], nd, mp) else Inl Panic))"

fun add_blocks_loop ::
  "ext \<Rightarrow> (utxoset \<Rightarrow> bytes list) \<Rightarrow> node_config \<Rightarrow> channels \<Rightarrow> block list \<Rightarrow> node \<times> Mempool \<Rightarrow>
   (chain_event list \<times> node \<times> Mempool) res option" where
  "add_blocks_loop X ord conf ch [] s = Some (Inr ([], s))"
| "add_blocks_loop X ord conf ch (b # bs) s =
     lbind (bc_add_block X ord conf b s) (\<lambda>(r, s1).
     lbind (Some (handle_add_result X conf ch (bs = []) b r s1)) (\<lambda>(events, s2).
     lbind (add_blocks_loop X ord conf ch bs s2) (\<lambda>(events', s3).
       Some (Inr (events @ events', s3)))))"

text \<open>The queue is drained and sorted by id; blocks to be retried are queued again meanwhile.\<close>

definition bc_add_blocks_from_mempool ::
  "ext \<Rightarrow> (utxoset \<Rightarrow> bytes list) \<Rightarrow> node_config \<Rightarrow> channels \<Rightarrow> node \<times> Mempool \<Rightarrow>
   (chain_event list \<times> node \<times> Mempool) res option" where
  "bc_add_blocks_from_mempool X ord conf ch = (\<lambda>(nd, mp).
     add_blocks_loop X ord conf ch (sort_key b_id (mp_blocks_queue mp))
       (nd, mp\<lparr>mp_blocks_queue := []\<rparr>))"

section \<open>Ghost blocks and reset\<close>

definition bc_add_ghost_block ::
  "u64 \<Rightarrow> bytes \<Rightarrow> u64 \<Rightarrow> bytes \<Rightarrow> bool \<Rightarrow> bytes \<Rightarrow> Blockchain \<Rightarrow> Blockchain res" where
  "bc_add_ghost_block block_id previous_block_hash ts pre_hash gt h bc =
     (let b = block_new\<lparr>b_id := block_id, b_previous_block_hash := previous_block_hash,
                b_timestamp := ts, b_has_golden_ticket := gt, b_pre_hash := pre_hash, b_hash := h,
                b_block_type := BT_Ghost\<rparr>
      in if bc_is_block_indexed bc h then Inr bc
         else
           rbind (br_contains_block_hash_at_block_id block_id h (bc_blockring bc)) (\<lambda>known.
           rbind (if known then Inr (bc_blockring bc)
                  else
                    rbind (br_add_block block_id h (bc_blockring bc)) (\<lambda>br.
                    rbind (br_insert_pos br block_id) (\<lambda>pos.
                    rbind (index_r (br_ring br) pos) (\<lambda>it.
                      Inr (br\<lparr>br_lc_pos := Some pos,
                              br_ring := (br_ring br)[pos := it\<lparr>ri_lc_pos := Some 0\<rparr>]\<rparr>)))))
             (\<lambda>br. Inr (with_block h b (bc\<lparr>bc_blockring := br\<rparr>)))))"

definition bc_reset :: "Blockchain \<Rightarrow> Blockchain" where
  "bc_reset bc = bc\<lparr>bc_last_burnfee := 0, bc_last_timestamp := 0, bc_last_block_id := 0,
     bc_last_block_hash := replicate 32 0, bc_genesis_timestamp := 0,
     bc_genesis_block_hash := replicate 32 0, bc_genesis_block_id := 0,
     bc_lowest_acceptable_block_id := 0, bc_lowest_acceptable_timestamp := 0,
     bc_lowest_acceptable_block_hash := replicate 32 0, bc_fork_id := Some (replicate 32 0)\<rparr>"

end
