(* ===== verification/Blockchain_Index.thy ===== *)
theory Blockchain_Index
  imports Blockchain_Add Winding_Rules
begin

text \<open>
  The ring and the index of blocks name the same blocks. The first part says what the operations
  on the ring do to the entries it holds and what the operations on a block keep of it; the locale
  \<open>block_invariant\<close> carries any such property of the stored blocks through loading, winding,
  unwinding, deleting and pruning; its interpretation for the block being added gives the theorem.
\<close>

section \<open>The ring and the index\<close>

definition ring_entries :: "BlockRing \<Rightarrow> (u64 \<times> bytes) set" where
  "ring_entries br = {(i, h). (i, h) \<in> set (ri_entries (item_at br i))}"

definition block_entries :: "blocks \<Rightarrow> (u64 \<times> bytes) set" where
  "block_entries bs = {(b_id b, h) | h b. map_of bs h = Some b}"

definition indexed :: "Blockchain \<Rightarrow> bool" where
  "indexed bc \<longleftrightarrow> br_wf (bc_blockring bc) \<and> distinct (map fst (bc_blocks bc)) \<and>
     ring_entries (bc_blockring bc) = block_entries (bc_blocks bc)"

lemma indexed_new: "gp * 2 \<noteq> 0 \<Longrightarrow> indexed (bc_new gp stake period)"
  using slot_of_bound [OF br_wf_new, of gp]
  by (auto simp: indexed_def bc_new_def br_wf_new ring_entries_def block_entries_def)
    (auto simp: item_at_def br_new_def ri_default_def ri_entries_def)

lemma ring_entries_reorganization:
  assumes "br_wf br" and "br_on_chain_reorganization i h lc br = Inr br'"
  shows "br_wf br' \<and> ring_entries br' = ring_entries br"
proof -
  from br_reorganization_Inr [OF assms(1), of i h lc] assms(2)
  have br': "br_wf br'" "\<forall>j. item_at br' j = (if slot_of br i = slot_of br j
       then ri_on_chain_reorganization h lc (item_at br i) else item_at br j)" by auto
  have "ri_entries (item_at br' j) = ri_entries (item_at br j)" for j
    using br'(2) item_at_cong [of br i j] by (simp add: ri_entries_def ri_reorganization_wf)
  with br'(1) show ?thesis by (simp add: ring_entries_def)
qed

lemma ring_entries_delete:
  assumes "br_wf br" and "br_delete_block i h br = Inr br'"
  shows "br_wf br' \<and> ring_entries br' = ring_entries br - {(i, h)}"
  using br_delete_block_Inr [OF assms(1), of i h] assms(2) by (auto simp: ring_entries_def)

lemma ring_entries_add:
  assumes "br_wf br" and "br_add_block i h br = Inr br'"
  shows "br_wf br' \<and> ring_entries br' = insert (i, h) (ring_entries br)"
proof -
  from br_add_block_Inr [OF assms(1), of i h] assms(2)
  have wf: "br_wf br'" and it: "\<And>j. item_at br' j =
      (if slot_of br i = slot_of br j then ri_add_block i h (item_at br i) else item_at br j)" by auto
  have "ri_entries (ri_add_block i h (item_at br i)) = ri_entries (item_at br i) @ [(i, h)]"
    using br_wf_item(1) [OF assms(1), of i] by (simp add: ri_entries_def ri_add_block_def ri_wf_def)
  then have "set (ri_entries (item_at br' j)) =
      set (ri_entries (item_at br j)) \<union> (if slot_of br i = slot_of br j then {(i, h)} else {})" for j
    using it [of j] item_at_cong [of br i j] by (cases "slot_of br i = slot_of br j") simp_all
  then have "(j, k) \<in> ring_entries br' \<longleftrightarrow> (j, k) \<in> insert (i, h) (ring_entries br)" for j k
    by (simp add: ring_entries_def) blast
  with wf show ?thesis by auto
qed

lemma contains_entry:
  assumes "br_wf br" and "br_contains_block_hash_at_block_id i h br = Inr True"
  shows "\<exists>j. (j, h) \<in> ring_entries br"
proof -
  from assms have "h \<in> set (ri_block_hashes (item_at br i))"
    by (auto simp: br_contains_block_hash_at_block_id_def br_item_Inr ri_contains_block_hash_def list_ex_iff)
  then obtain j where j: "(j, h) \<in> set (ri_entries (item_at br i))"
    using br_wf_item(1) [OF assms(1), of i]
    by (auto simp: ri_entries_def ri_wf_def set_zip in_set_conv_nth)
  then have "slot_of br j = slot_of br i"
    using br_wf_item(1) [OF assms(1), of i] br_wf_item(2) [OF assms(1), of j i] by (force simp: ri_ids_entries)
  then have "item_at br j = item_at br i" by (rule item_at_cong)
  with j show ?thesis by (auto simp: ring_entries_def intro: exI [of _ j])
qed

section \<open>What the operations on a block keep\<close>

definition sealed :: "ext \<Rightarrow> block \<Rightarrow> bool" where
  "sealed X b \<longleftrightarrow> b_merkle_root b \<noteq> replicate 32 0 \<and>
     b_pre_hash b = hash X (block_serialize_for_signature b) \<and>
     b_hash b = hash X (b_previous_block_hash b @ b_pre_hash b)"

lemma block_note_type_hash: "block_note_type X i tx (l, b) = (l', b') \<Longrightarrow> b_hash b' = b_hash b"
  by (auto simp: block_note_type_def split: TransactionType.splits)

lemma block_sweep_hash: "block_sweep X i txs l b = Inr (txs', l', b') \<Longrightarrow> b_hash b' = b_hash b"
proof (induction txs arbitrary: i l b txs')
  case (Cons tx0 txs)
  obtain c tx where c: "tx_generate_cumulative_fees (gl_cumulative_fees l) tx0 = (c, tx)" by force
  let ?l1 = "l\<lparr>gl_cumulative_fees := c, gl_total_work := gl_total_work l + tx_total_work_for_me tx\<rparr>"
  from Cons.prems c obtain b1 txs1 where
    0: "(if \<not> b_created_hashmap_of_slips_spent_this_block b \<and> tx_transaction_type tx \<noteq> TT_Fee
         then rbind (spend_inputs (tx_from tx) (b_slips_spent_this_block b)) (\<lambda>spent.
           Inr (b\<lparr>b_slips_spent_this_block := spent,
                  b_created_hashmap_of_slips_spent_this_block := True\<rparr>))
         else Inr b) = Inr b1" and
    3: "block_sweep X (i + 1) txs (fst (block_note_type X i tx (?l1, b1)))
          (snd (block_note_type X i tx (?l1, b1))) = Inr (txs1, l', b')"
    by (auto simp: Let_def case_prod_beta simp del: not_not)
  have "b_hash b1 = b_hash b" using 0 by (auto split: if_splits)
  with Cons.IH [OF 3] block_note_type_hash [of X i tx ?l1 b1] show ?case by (metis prod.collapse)
qed simp

lemma block_generate_hashes:
  assumes "block_generate X b = Inr b'"
  shows "b_hash b' = hash X (b_previous_block_hash b @ b_pre_hash b')"
proof -
  let ?b1 = "b\<lparr>b_total_rebroadcast_slips := 0, b_rebroadcast_hash := replicate 32 0,
    b_transactions := block_generate_txs X (b_creator b) (b_id b) 0 (b_transactions b)\<rparr>"
  let ?b2 = "block_generate_transaction_hashmap ?b1"
  from assms obtain b3 txs l b5 where
    3: "(if b_merkle_root ?b2 = replicate 32 0
         then rbind (block_generate_merkle_root X False False ?b2) (\<lambda>r. Inr (?b2\<lparr>b_merkle_root := r\<rparr>))
         else Inr ?b2) = Inr b3" and
    5: "block_sweep X 0 (b_transactions b3) generate_locals_init
          (block_generate_hash X (block_generate_pre_hash X b3)) = Inr (txs, l, b5)" and
    b': "b_hash b' = b_hash b5" "b_pre_hash b' = b_pre_hash b5"
    by (auto simp: block_generate_def Let_def block_generate_hash_def block_generate_pre_hash_def)
  have "b_previous_block_hash b3 = b_previous_block_hash b"
    using 3 by (auto simp: block_generate_transaction_hashmap_def split: if_splits)
  then show ?thesis
    using block_sweep_hash [OF 5] block_sweep_frame [OF 5] b'
    by (simp add: block_generate_hash_def block_generate_pre_hash_def block_serialize_for_hash_def)
qed

lemma block_generate_sealed:
  assumes "block_generate X b = Inr b'"
  shows "b_id b' = b_id b" and "b_previous_block_hash b' = b_previous_block_hash b"
    and "b_merkle_root b' \<noteq> replicate 32 0 \<Longrightarrow> sealed X b'"
    and "sealed X b \<Longrightarrow> sealed X b' \<and> b_hash b' = b_hash b"
proof -
  note fr = block_generate_frame [OF assms]
  from fr have t: "block_header.truncate b' = (block_header.truncate b)\<lparr>b_merkle_root := b_merkle_root b'\<rparr>" by blast
  then show id: "b_id b' = b_id b" and prev: "b_previous_block_hash b' = b_previous_block_hash b"
    by (simp_all add: block_header.truncate_def)
  have h: "b_hash b' = hash X (b_previous_block_hash b' @ b_pre_hash b')"
    using block_generate_hashes [OF assms] prev by simp
  show "b_merkle_root b' \<noteq> replicate 32 0 \<Longrightarrow> sealed X b'"
    using fr h by (simp add: sealed_def)
  assume s: "sealed X b"
  then have "b_merkle_root b' = b_merkle_root b" using fr by (simp add: sealed_def)
  with t have "block_serialize_for_signature b' = block_serialize_for_signature b"
    by (simp add: block_header.truncate_def block_serialize_for_signature_def)
  with s fr h prev \<open>b_merkle_root b' = b_merkle_root b\<close>
  show "sealed X b' \<and> b_hash b' = b_hash b" by (simp add: sealed_def)
qed

lemma block_sweep_upto_frame:
  "block_sweep_upto c txs b = (txs', b') \<Longrightarrow>
   block_header.truncate b' = block_header.truncate b \<and> b_pre_hash b' = b_pre_hash b \<and> b_hash b' = b_hash b"
proof (induction txs arbitrary: c b txs' b')
  case (Cons tx0 txs)
  then show ?case
    by (cases "block_sweep_upto (fst (tx_generate_cumulative_fees c tx0)) txs b")
      (auto simp: split_beta Let_def split: if_splits)
qed simp

lemma block_generate_upto_sealed:
  assumes "block_generate_upto X b = Inr b'"
  shows "b_id b' = b_id b" and "b_previous_block_hash b' = b_previous_block_hash b"
    and "sealed X b \<Longrightarrow> sealed X b' \<and> b_hash b' = b_hash b"
proof -
  let ?b2 = "block_generate_transaction_hashmap (b\<lparr>b_total_rebroadcast_slips := 0,
    b_rebroadcast_hash := replicate 32 0,
    b_transactions := block_generate_txs X (b_creator b) (b_id b) 0 (b_transactions b)\<rparr>)"
  from assms obtain b3 where
    3: "(if b_merkle_root ?b2 = replicate 32 0
         then rbind (block_generate_merkle_root X False False ?b2) (\<lambda>r. Inr (?b2\<lparr>b_merkle_root := r\<rparr>))
         else Inr ?b2) = Inr b3" and
    5: "(case block_sweep_upto 0 (b_transactions (block_generate_hash X (block_generate_pre_hash X b3)))
           (block_generate_hash X (block_generate_pre_hash X b3))
         of (txs, b5) \<Rightarrow> Inr (b5\<lparr>b_transactions := txs\<rparr>)) = (Inr b' :: block res)"
    unfolding block_generate_upto_def Let_def rbind_eq_Inr by blast
  obtain txs b5 where 6: "block_sweep_upto 0
      (b_transactions (block_generate_hash X (block_generate_pre_hash X b3)))
      (block_generate_hash X (block_generate_pre_hash X b3)) = (txs, b5)" by force
  note fr = block_sweep_upto_frame [OF 6]
  have b': "b' = b5\<lparr>b_transactions := txs\<rparr>" using 5 6 by simp
  have b3: "block_header.truncate b3 = (block_header.truncate b)\<lparr>b_merkle_root := b_merkle_root b3\<rparr>"
    "b_merkle_root b \<noteq> replicate 32 0 \<longrightarrow> b_merkle_root b3 = b_merkle_root b"
    using 3 by (auto simp: block_generate_transaction_hashmap_def block_header.truncate_def split: if_splits)
  have t: "block_header.truncate b' = block_header.truncate b3"
    "b_pre_hash b' = hash X (block_serialize_for_signature b3)"
    "b_hash b' = hash X (b_previous_block_hash b3 @ b_pre_hash b')"
    using fr b' by (simp_all add: block_generate_hash_def block_generate_pre_hash_def block_serialize_for_hash_def)
  from t(1) b3(1) show "b_id b' = b_id b" "b_previous_block_hash b' = b_previous_block_hash b"
    by (simp_all add: block_header.truncate_def)
  assume s: "sealed X b"
  then have "block_header.truncate b3 = block_header.truncate b" using b3
    by (simp add: sealed_def block_header.truncate_def)
  with s t show "sealed X b' \<and> b_hash b' = b_hash b"
    by (simp add: sealed_def block_header.truncate_def block_serialize_for_signature_def)
qed

lemma block_sealed_update [simp]:
  "sealed X (b\<lparr>b_transactions := txs\<rparr>) = sealed X b"
  "sealed X (b\<lparr>b_block_type := ty\<rparr>) = sealed X b"
  "sealed X (b\<lparr>b_in_longest_chain := lc\<rparr>) = sealed X b"
  "sealed X (b\<lparr>b_safe_to_prune_transactions := f\<rparr>) = sealed X b"
  by (simp_all add: sealed_def block_serialize_for_signature_def)

text \<open>What loading and dropping the transactions of a block keep.\<close>

definition same_block :: "ext \<Rightarrow> block \<Rightarrow> block \<Rightarrow> bool" where
  "same_block X b b' \<longleftrightarrow> b_id b' = b_id b \<and> b_previous_block_hash b' = b_previous_block_hash b \<and>
     (sealed X b \<longrightarrow> sealed X b' \<and> b_hash b' = b_hash b)"

lemma same_block_refl [simp]: "same_block X b b"
  by (simp add: same_block_def)

lemma same_block_trans: "same_block X a b \<Longrightarrow> same_block X b c \<Longrightarrow> same_block X a c"
  by (auto simp: same_block_def)

lemma same_block_flags [simp]:
  "same_block X b (b\<lparr>b_in_longest_chain := lc\<rparr>)"
  "same_block X b (b\<lparr>b_safe_to_prune_transactions := f\<rparr>)"
  "same_block X b (snd (block_downgrade_block_to_block_type ty b))"
  by (simp_all add: same_block_def block_downgrade_block_to_block_type_def)

lemma same_block_transactions [simp]:
  "same_block X (b\<lparr>b_transactions := txs\<rparr>) b' = same_block X b b'"
  "same_block X b (b'\<lparr>b_block_type := ty\<rparr>) = same_block X b b'"
  by (simp_all add: same_block_def)

lemma same_block_generate:
  "block_generate X b = Inr b' \<Longrightarrow> same_block X b b'"
  "block_generate_upto X b = Inr b' \<Longrightarrow> same_block X b b'"
  using block_generate_sealed block_generate_upto_sealed by (auto simp: same_block_def)

lemma same_block_upgrade:
  assumes "block_upgrade_block_to_block_type X dk ty spv b = Inr (ok, b')"
  shows "same_block X b b'"
  using assms
  by (auto simp: block_upgrade_block_to_block_type_def Let_def split: if_splits
      elim!: recover_eq_InrE dest!: same_block_generate)

section \<open>Invariants of the index\<close>

text \<open>
  An invariant of the stored blocks that loading, pruning and winding a block keep, with the
  agreement of the ring and the index: every operation of the chain keeps both.
\<close>

definition index_ok :: "(bytes \<Rightarrow> block \<Rightarrow> bool) \<Rightarrow> Blockchain \<Rightarrow> bool" where
  "index_ok Q bc \<longleftrightarrow> indexed bc \<and> (\<forall>h b. map_of (bc_blocks bc) h = Some b \<longrightarrow> Q h b)"

lemma index_ok_block: "index_ok Q bc \<Longrightarrow> map_of (bc_blocks bc) h = Some b \<Longrightarrow> Q h b"
  by (simp add: index_ok_def)

lemma index_ok_cong:
  "bc_blocks bc' = bc_blocks bc \<Longrightarrow> bc_blockring bc' = bc_blockring bc \<Longrightarrow> index_ok Q bc' = index_ok Q bc"
  by (simp add: index_ok_def indexed_def)

lemma index_ok_update [simp]:
  "index_ok Q (bc\<lparr>bc_utxoset := u\<rparr>) = index_ok Q bc"
  "index_ok Q (bc\<lparr>bc_genesis_block_id := i\<rparr>) = index_ok Q bc"
  "index_ok Q (bc\<lparr>bc_initial_token_supply := s\<rparr>) = index_ok Q bc"
  "index_ok Q (bc\<lparr>bc_last_issuance_written_on := s\<rparr>) = index_ok Q bc"
  "index_ok Q (bc_set_fork_id f bc) = index_ok Q bc"
  by (rule index_ok_cong; simp add: bc_set_fork_id_def)+

lemma block_entries_iff: "(i, h) \<in> block_entries bs \<longleftrightarrow> (\<exists>b. map_of bs h = Some b \<and> b_id b = i)"
  by (auto simp: block_entries_def)

lemma index_ok_with_block:
  assumes "index_ok Q bc" and "map_of (bc_blocks bc) h = Some b" and "b_id b' = b_id b" and "Q h b'"
  shows "index_ok Q (with_block h b' bc)"
proof -
  have m: "map_of (bc_blocks (with_block h b' bc)) = (map_of (bc_blocks bc))(h \<mapsto> b')"
    by (simp add: with_block_def update_conv')
  have "block_entries (bc_blocks (with_block h b' bc)) = block_entries (bc_blocks bc)"
    using assms(2,3) by (auto simp: set_eq_iff block_entries_iff m)
  then have "indexed (with_block h b' bc)"
    using assms(1) by (simp add: index_ok_def indexed_def with_block_def distinct_update)
  moreover have "\<forall>k c. map_of (bc_blocks (with_block h b' bc)) k = Some c \<longrightarrow> Q k c"
    using assms(1,4) by (simp add: m index_ok_def)
  ultimately show ?thesis by (simp add: index_ok_def)
qed

lemma index_ok_ring:
  assumes "index_ok Q bc" and "br_wf br" and "ring_entries br = ring_entries (bc_blockring bc)"
  shows "index_ok Q (bc\<lparr>bc_blockring := br\<rparr>)"
  using assms by (simp add: index_ok_def indexed_def)

lemma index_ok_reorganization:
  assumes "index_ok Q bc" and "br_on_chain_reorganization i h lc (bc_blockring bc) = Inr br"
  shows "index_ok Q (bc\<lparr>bc_blockring := br\<rparr>)"
  using assms ring_entries_reorganization [of "bc_blockring bc" i h lc br]
  by (intro index_ok_ring) (simp_all add: index_ok_def indexed_def)

lemma index_ok_delete:
  assumes "index_ok Q bc" and "br_delete_block i h (bc_blockring bc) = Inr br"
    and "map_of (bc_blocks bc) h = Some b" and "b_id b = i"
  shows "index_ok Q (bc\<lparr>bc_blockring := br, bc_blocks := AList.delete h (bc_blocks bc)\<rparr>)"
proof -
  have "br_wf br \<and> ring_entries br = ring_entries (bc_blockring bc) - {(i, h)}"
    using assms(1,2) by (intro ring_entries_delete) (simp_all add: index_ok_def indexed_def)
  moreover have "block_entries (AList.delete h (bc_blocks bc)) = block_entries (bc_blocks bc) - {(i, h)}"
    using assms(3,4) by (auto simp: set_eq_iff block_entries_iff delete_conv')
  ultimately have "indexed (bc\<lparr>bc_blockring := br, bc_blocks := AList.delete h (bc_blocks bc)\<rparr>)"
    using assms(1) by (simp add: index_ok_def indexed_def distinct_delete)
  then show ?thesis
    using assms(1) by (simp add: index_ok_def delete_conv' del: map_of_eq_Some_iff)
qed

lemma hashes_at_entries:
  assumes "br_wf br" and "br_get_block_hashes_at_block_id i br = Inr hs"
  shows "h \<in> set hs \<Longrightarrow> (i, h) \<in> set (ri_entries (item_at br i))"
proof -
  have "hashes_at_loop it i ks = Inr hs' \<Longrightarrow> h \<in> set hs' \<Longrightarrow> (i, h) \<in> set (ri_entries it)" for it ks hs'
    by (induction ks arbitrary: hs')
      (auto simp: index_r_def ri_entries_def in_set_zip split: if_splits)
  then show "h \<in> set hs \<Longrightarrow> (i, h) \<in> set (ri_entries (item_at br i))"
    using assms by (auto simp: br_get_block_hashes_at_block_id_def br_item_Inr)
qed

lemma wind_chain_node:
  assumes "wind_chain X conf new old i f nd = Inr (r, nd')"
  shows "nd' = nd \<or>
    (\<exists>bc. upgrade_blocks_for_wind_chain X conf (nd_disk nd) (new ! i) (nd_blockchain nd) = Inr bc \<and>
       (nd' = nd\<lparr>nd_blockchain := bc\<rparr> \<or>
        (\<exists>b u. map_of (bc_blocks bc) (new ! i) = Some b \<and>
           wind_block X conf (new ! i) b (nd\<lparr>nd_blockchain := bc\<rparr>) = Inr (u, nd'))))"
  using assms
  by (auto simp: wind_chain_def index_r_def Let_def simp del: map_of_eq_Some_iff split: if_splits)

lemma choose_chain_state:
  assumes "bc_choose_chain h i lh bc = Some (Inr (new, old, longest, bc'))"
  shows "\<exists>bc1. (bc1 = bc \<or> bc_disconnect i lh bc = Inr bc1) \<and>
    bc' = bc1\<lparr>bc_blockring := (bc_blockring bc1)\<lparr>br_empty := False\<rparr>\<rparr>"
proof -
  from assms obtain f s c where n: "calculate_new_chain_for_add_block bc h = Some (f, s, c)"
    by (auto simp: bc_choose_chain_def split: option.splits)
  show ?thesis
  proof (cases f)
    case True
    then show ?thesis using assms n by (auto simp: bc_choose_chain_def)
  next
    case False
    with assms n obtain bc1 where d: "bc_disconnect i lh bc = Inr bc1"
      by (auto simp: bc_choose_chain_def)
    with assms n False have "bc' = bc1\<lparr>bc_blockring := (bc_blockring bc1)\<lparr>br_empty := False\<rparr>\<rparr>"
      by (auto simp: bc_choose_chain_def)
    with d show ?thesis by blast
  qed
qed

lemma save_block_blockchain:
  assumes "bc_save_block X ord conf b nd = Inr nd'"
  shows "nd_blockchain nd' = nd_blockchain nd \<or>
    nd_blockchain nd' = (nd_blockchain nd)\<lparr>bc_last_issuance_written_on := b_id b\<rparr>"
proof (cases "b_block_type b \<noteq> BT_Header \<and> \<not> cfg_is_browser conf \<and> \<not> cfg_is_spv_mode conf")
  case True
  with assms obtain f dk where "write_block_to_disk X b (nd_disk nd) = Inr (f, dk)"
    by (cases "write_block_to_disk X b (nd_disk nd)") (auto simp: bc_save_block_def)
  with True assms show ?thesis
    by (auto simp: bc_save_block_def Let_def split: if_splits)
qed (use assms in \<open>auto simp: bc_save_block_def\<close>)

locale block_invariant =
  fixes X :: ext and Q :: "bytes \<Rightarrow> block \<Rightarrow> bool"
  assumes same: "Q h b \<Longrightarrow> same_block X b b' \<Longrightarrow> Q h b'"
begin

lemma replace_block:
  assumes "index_ok Q bc" and "map_of (bc_blocks bc) h = Some b" and "same_block X b b'"
  shows "index_ok Q (with_block h b' bc)"
  using assms same [OF index_ok_block [OF assms(1,2)] assms(3)]
  by (intro index_ok_with_block) (auto simp: same_block_def)

lemma upgrade_indexed:
  "index_ok Q bc \<Longrightarrow> upgrade_indexed_block X conf dk h bc = Inr bc' \<Longrightarrow> index_ok Q bc'"
  by (auto simp: upgrade_indexed_block_def intro: replace_block same_block_upgrade)

lemma upgrade_previous:
  "index_ok Q bc \<Longrightarrow> upgrade_previous_loop X conf dk i is bc = Inr bc' \<Longrightarrow> index_ok Q bc'"
proof (induction "is" arbitrary: bc)
  case (Cons a "is")
  then show ?case
    by (cases "br_get_longest_chain_block_hash_at_block_id (i - a) (bc_blockring bc)" rule: sum.exhaust [case_product option.exhaust])
      (auto split: if_splits option.splits dest: upgrade_indexed)
qed simp

lemma upgrade_blocks:
  "index_ok Q bc \<Longrightarrow> upgrade_blocks_for_wind_chain X conf dk h bc = Inr bc' \<Longrightarrow> index_ok Q bc'"
  by (auto simp: upgrade_blocks_for_wind_chain_def dest: upgrade_indexed upgrade_previous)

lemma downgrade: "index_ok Q bc \<Longrightarrow> index_ok Q (downgrade_loop hs bc)"
proof (induction hs arbitrary: bc)
  case (Cons h hs)
  then show ?case
    by (auto split: option.splits intro!: Cons.IH intro: replace_block)
qed simp

lemma downgrade_node:
  "index_ok Q (nd_blockchain nd) \<Longrightarrow> bc_downgrade conf nd = Inr nd' \<Longrightarrow> index_ok Q (nd_blockchain nd')"
  by (auto simp: bc_downgrade_def downgrade_blockchain_data_def downgrade split: if_splits)

lemma delete_loop:
  assumes "index_ok Q (nd_blockchain nd)"
    and "\<forall>h \<in> set hs. \<forall>b. map_of (bc_blocks (nd_blockchain nd)) h = Some b \<longrightarrow> b_id b = i"
    and "delete_blocks_loop X i hs s nd = Inr (s', nd')"
  shows "index_ok Q (nd_blockchain nd')"
  using assms
proof (induction hs arbitrary: s nd)
  case (Cons h hs)
  from Cons.prems(3) obtain s1 nd1 where 1: "bc_delete_block X i h nd = Inr (s1, nd1)"
    and 2: "delete_blocks_loop X i hs (s \<or> s1) nd1 = Inr (s', nd')" by auto
  from 1 obtain b br where b: "map_of (bc_blocks (nd_blockchain nd)) h = Some b"
    and br: "br_delete_block i h (bc_blockring (nd_blockchain nd)) = Inr br"
    and nd1: "bc_blockring (nd_blockchain nd1) = br"
      "bc_blocks (nd_blockchain nd1) = AList.delete h (bc_blocks (nd_blockchain nd))"
    by (auto simp: bc_delete_block_def Let_def split_beta)
  have "index_ok Q ((nd_blockchain nd)\<lparr>bc_blockring := br,
      bc_blocks := AList.delete h (bc_blocks (nd_blockchain nd))\<rparr>)"
    using Cons.prems(1,2) br b by (intro index_ok_delete) auto
  then have "index_ok Q (nd_blockchain nd1)"
    by (rule iffD1 [OF index_ok_cong, rotated 2]) (simp_all add: nd1)
  moreover have "\<forall>h' \<in> set hs. \<forall>b. map_of (bc_blocks (nd_blockchain nd1)) h' = Some b \<longrightarrow> b_id b = i"
    using Cons.prems(2) by (auto simp: nd1 delete_conv' split: if_splits)
  ultimately show ?case using Cons.IH 2 by blast
qed simp

lemma delete_blocks:
  assumes "index_ok Q (nd_blockchain nd)" and "bc_delete_blocks X i nd = Inr (s, nd')"
  shows "index_ok Q (nd_blockchain nd')"
proof -
  from assms(2) obtain hs where hs: "br_get_block_hashes_at_block_id i (bc_blockring (nd_blockchain nd)) = Inr hs"
    and 2: "delete_blocks_loop X i hs False nd = Inr (s, nd')"
    by (auto simp: bc_delete_blocks_def)
  have wf: "br_wf (bc_blockring (nd_blockchain nd))"
    and same: "ring_entries (bc_blockring (nd_blockchain nd)) = block_entries (bc_blocks (nd_blockchain nd))"
    using assms(1) by (simp_all add: index_ok_def indexed_def)
  have "b_id b = i" if "h \<in> set hs" "map_of (bc_blocks (nd_blockchain nd)) h = Some b" for h b
  proof -
    have "(i, h) \<in> ring_entries (bc_blockring (nd_blockchain nd))"
      using hashes_at_entries [OF wf hs] that(1) by (simp add: ring_entries_def)
    then show ?thesis using that(2) by (auto simp: same block_entries_iff)
  qed
  then show ?thesis using delete_loop [OF assms(1) _ 2] by blast
qed

lemma genesis_period:
  "index_ok Q (nd_blockchain nd) \<Longrightarrow> update_genesis_period X conf nd = Inr (s, nd') \<Longrightarrow> index_ok Q (nd_blockchain nd')"
  by (auto simp: update_genesis_period_def Let_def split: if_splits dest: delete_blocks [rotated])

lemma record_tip [simp]: "index_ok Q (bc_record_tip i h bc) = index_ok Q bc"
  by (rule index_ok_cong) (simp_all add: bc_record_tip_def Let_def split: option.split)

lemma fork_id: "index_ok Q bc \<Longrightarrow> bc_update_fork_id i bc = Inr bc' \<Longrightarrow> index_ok Q bc'"
  by (auto simp: bc_update_fork_id_def split: option.splits if_splits)

lemma reorganize:
  assumes "index_ok Q (nd_blockchain nd)" and "bc_on_chain_reorganization X conf i h lc nd = Inr (u, nd')"
  shows "index_ok Q (nd_blockchain nd')"
  using assms
  by (auto simp: bc_on_chain_reorganization_def split: if_splits dest!: downgrade_node [rotated]
      genesis_period [rotated] fork_id [rotated])

lemma wind_keeps:
  assumes "index_ok Q (nd_blockchain nd)" and "map_of (bc_blocks (nd_blockchain nd)) h = Some b"
    and "wind_block X conf h b nd = Inr (u, nd')"
  shows "index_ok Q (nd_blockchain nd')"
proof -
  from assms(3) obtain br u2 ut w bw where br: "br_on_chain_reorganization (b_id b) (b_hash b) True (bc_blockring (nd_blockchain nd)) = Inr br"
    and r: "bc_on_chain_reorganization X conf (b_id b) h True (nd\<lparr>nd_wallet := w, nd_blockchain :=
       with_block h (b\<lparr>b_in_longest_chain := True\<rparr>)
         ((nd_blockchain nd)\<lparr>bc_blockring := br, bc_utxoset := ut\<rparr>)\<rparr>) = Inr (u2, nd')"
    by (auto simp: wind_block_def Let_def block_on_chain_reorganization_def)
  have "index_ok Q ((nd_blockchain nd)\<lparr>bc_blockring := br, bc_utxoset := ut\<rparr>)"
    using index_ok_reorganization [OF assms(1) br] by simp
  then have "index_ok Q (with_block h (b\<lparr>b_in_longest_chain := True\<rparr>)
      ((nd_blockchain nd)\<lparr>bc_blockring := br, bc_utxoset := ut\<rparr>))"
    using assms(2) by (intro replace_block [where b = b]) simp_all
  then show ?thesis by (intro reorganize [OF _ r]) simp
qed

lemma unwind_keeps:
  assumes "index_ok Q (nd_blockchain nd)" and "map_of (bc_blocks (nd_blockchain nd)) h = Some b0"
    and "unwind_block X conf h b0 nd = Inr (u, nd')"
  shows "index_ok Q (nd_blockchain nd')"
proof -
  from assms(3) obtain ok b where b:
    "block_upgrade_block_to_block_type X (nd_disk nd) BT_Full (cfg_is_spv_mode conf) b0 = Inr (ok, b)"
    by (auto simp: unwind_block_def Let_def)
  with assms(3) obtain br where
    br: "br_on_chain_reorganization (b_id b) (b_hash b) False (bc_blockring (nd_blockchain nd)) = Inr br"
    by (auto simp: unwind_block_def Let_def block_on_chain_reorganization_def)
  define ut where "ut = fst (block_on_chain_reorganization (bc_utxoset (nd_blockchain nd)) False b)"
  from assms(3) b br obtain w u1 where "wallet_on_chain_reorganization (b\<lparr>b_in_longest_chain := False\<rparr>)
      False (cfg_genesis_period conf) (nd_wallet nd) = Inr (w, u1)"
    by (auto simp: unwind_block_def Let_def block_on_chain_reorganization_def)
  with assms(3) b br obtain u2 where
    r: "bc_on_chain_reorganization X conf (b_id b) (b_hash b) False (nd\<lparr>nd_wallet := w, nd_blockchain :=
       with_block h (b\<lparr>b_in_longest_chain := False\<rparr>)
         ((nd_blockchain nd)\<lparr>bc_blockring := br, bc_utxoset := ut\<rparr>)\<rparr>) = Inr (u2, nd')"
    by (auto simp: unwind_block_def Let_def block_on_chain_reorganization_def ut_def)
  have "index_ok Q ((nd_blockchain nd)\<lparr>bc_blockring := br, bc_utxoset := ut\<rparr>)"
    using index_ok_reorganization [OF assms(1) br] by simp
  then have "index_ok Q (with_block h (b\<lparr>b_in_longest_chain := False\<rparr>)
      ((nd_blockchain nd)\<lparr>bc_blockring := br, bc_utxoset := ut\<rparr>))"
    using assms(2) same_block_trans [OF same_block_upgrade [OF b] same_block_flags(1)]
    by (intro replace_block [where b = b0]) simp_all
  then show ?thesis by (intro reorganize [OF _ r]) simp
qed

lemma step:
  assumes "winding_step X conf new old (r, nd) (r', nd')" and "index_ok Q (nd_blockchain nd)"
  shows "index_ok Q (nd_blockchain nd')"
  using assms(1)
proof cases
  case (wind i f s)
  from wind_chain_node [OF wind(2)] show ?thesis
    using assms(2) upgrade_blocks [OF assms(2)]
    by (auto dest: wind_keeps [where nd = "nd\<lparr>nd_blockchain := bc\<rparr>" for bc, simplified, rotated 2])
next
  case (unwind chain i f s)
  from unwind(2) show ?thesis
    using assms(2) by (cases rule: unwind_chain_Inr) (auto simp: unwinds_def intro: unwind_keeps)
qed

lemma steps:
  assumes "(winding_step X conf new old)\<^sup>*\<^sup>* (r, nd) (r', nd')" and "index_ok Q (nd_blockchain nd)"
  shows "index_ok Q (nd_blockchain nd')"
  using assms
  by (induction "(r', nd')" arbitrary: r' nd' rule: rtranclp_induct) (auto dest: step)

lemma validate:
  assumes "index_ok Q (nd_blockchain nd)" and "bc_validate X conf new old nd = Some (Inr ((ok, s), nd'))"
  shows "index_ok Q (nd_blockchain nd')"
proof (cases "nd' = nd")
  case False
  define r where "r = (if old = [] then Wind (length new - 1) False False else Unwind 0 True old False)"
  from assms(2) False have "winding_loop X conf new old r False nd = Some (Inr ((ok, s), nd'))"
    by (auto simp: bc_validate_def r_def split: sum.splits if_splits)
  from winding_loop_reaches [OF this] steps assms(1) show ?thesis by blast
qed (use assms in simp)

lemma insert:
  assumes "index_ok Q bc" and "map_of (bc_blocks bc) (b_hash b) = None" and "Q (b_hash b) b"
    and "bc_insert_block b bc = Inr bc'"
  shows "index_ok Q bc'"
proof -
  have wf: "br_wf (bc_blockring bc)"
    and e: "ring_entries (bc_blockring bc) = block_entries (bc_blocks bc)"
    using assms(1) by (simp_all add: index_ok_def indexed_def)
  have "br_contains_block_hash_at_block_id (b_id b) (b_hash b) (bc_blockring bc) \<noteq> Inr True"
    using contains_entry [OF wf, of "b_id b" "b_hash b"] assms(2) by (auto simp: e block_entries_iff)
  with assms(4) obtain br where br: "br_add_block (b_id b) (b_hash b) (bc_blockring bc) = Inr br"
    and bc': "bc' = with_block (b_hash b) b (bc\<lparr>bc_blockring := br\<rparr>)"
    by (auto simp: bc_insert_block_def split: if_splits)
  have m: "map_of (bc_blocks bc') = (map_of (bc_blocks bc))(b_hash b \<mapsto> b)"
    by (simp add: bc' with_block_def update_conv')
  have "block_entries (bc_blocks bc') = Set.insert (b_id b, b_hash b) (block_entries (bc_blocks bc))"
    using assms(2) by (auto simp: set_eq_iff block_entries_iff m simp del: map_of_eq_Some_iff)
  then have "indexed bc'"
    using ring_entries_add [OF wf br] e assms(1)
    by (simp add: indexed_def index_ok_def bc' with_block_def distinct_update)
  moreover have "\<forall>k c. map_of (bc_blocks bc') k = Some c \<longrightarrow> Q k c"
    using assms(1,3) by (simp add: m index_ok_def)
  ultimately show ?thesis by (simp add: index_ok_def)
qed

lemma disconnect_keeps:
  "index_ok Q bc \<Longrightarrow> disconnect_loop is bc = Inr bc' \<Longrightarrow> index_ok Q bc'"
proof (induction "is" arbitrary: bc)
  case (Cons i "is")
  show ?case
  proof (cases "\<exists>h. br_get_longest_chain_block_hash_at_block_id i (bc_blockring bc) = Inr (Some h) \<and> h \<noteq> replicate 32 0")
    case True
    then obtain h where h: "br_get_longest_chain_block_hash_at_block_id i (bc_blockring bc) = Inr (Some h)"
      "h \<noteq> replicate 32 0" by blast
    with Cons.prems(2) obtain br where br: "br_on_chain_reorganization i h False (bc_blockring bc) = Inr br"
      and l: "disconnect_loop is (case map_of (bc_blocks bc) h of
           Some b \<Rightarrow> with_block h (b\<lparr>b_in_longest_chain := False\<rparr>) (bc\<lparr>bc_blockring := br\<rparr>)
         | None \<Rightarrow> bc\<lparr>bc_blockring := br\<rparr>) = Inr bc'"
      by (auto simp: Let_def)
    have "index_ok Q (bc\<lparr>bc_blockring := br\<rparr>)" by (rule index_ok_reorganization [OF Cons.prems(1) br])
    then have "index_ok Q (case map_of (bc_blocks bc) h of
           Some b \<Rightarrow> with_block h (b\<lparr>b_in_longest_chain := False\<rparr>) (bc\<lparr>bc_blockring := br\<rparr>)
         | None \<Rightarrow> bc\<lparr>bc_blockring := br\<rparr>)"
      by (auto split: option.split intro: replace_block)
    then show ?thesis using Cons.IH [OF _ l] by blast
  next
    case False
    with Cons.prems(2) have "disconnect_loop is bc = Inr bc'" by (auto split: option.splits if_splits)
    with Cons show ?thesis by blast
  qed
qed simp

lemma choose_chain:
  assumes "index_ok Q bc" and "bc_choose_chain h i lh bc = Some (Inr (new, old, longest, bc'))"
  shows "index_ok Q bc'"
proof -
  have d: "index_ok Q bc1" if "bc_disconnect i lh bc = Inr bc1" for bc1
    using that assms(1) by (auto simp: bc_disconnect_def split: if_splits intro: disconnect_keeps)
  from choose_chain_state [OF assms(2)] obtain bc1 where "bc1 = bc \<or> bc_disconnect i lh bc = Inr bc1"
    and "bc' = bc1\<lparr>bc_blockring := (bc_blockring bc1)\<lparr>br_empty := False\<rparr>\<rparr>" by blast
  moreover have "index_ok Q (bc1\<lparr>bc_blockring := (bc_blockring bc1)\<lparr>br_empty := False\<rparr>\<rparr>)"
    if "index_ok Q bc1" for bc1
    using that by (intro index_ok_ring)
      (simp_all add: index_ok_def indexed_def br_wf_def br_get_ring_buffer_size_def slot_of_def
        ring_entries_def item_at_def)
  ultimately show ?thesis using d assms(1) by blast
qed

lemma safe_to_prune:
  assumes "index_ok Q bc" and "bc_set_safe_to_prune_transaction i bc = Inr bc'"
  shows "index_ok Q bc'"
proof -
  from assms(2) obtain r where "bc' = (case r of
         Some h \<Rightarrow> (case map_of (bc_blocks bc) h of
             Some b \<Rightarrow> with_block h (b\<lparr>b_safe_to_prune_transactions := True\<rparr>) bc
           | None \<Rightarrow> bc)
       | None \<Rightarrow> bc)"
    by (auto simp: bc_set_safe_to_prune_transaction_def)
  then show ?thesis using assms(1) by (auto split: option.split intro: replace_block)
qed

lemma prune:
  assumes "index_ok Q bc" and "bc_prune_blocks_after_add_block X conf dk bc = Inr bc'"
  shows "index_ok Q bc'"
proof (cases "bc' = bc")
  case False
  with assms(2) obtain i r where
    r: "br_get_longest_chain_block_hash_at_block_id i (bc_blockring bc) = Inr r"
      "(case r of Some h \<Rightarrow> rbind (ok_or Panic (map_of (bc_blocks bc) h)) (\<lambda>b.
          rbind (block_upgrade_block_to_block_type X dk BT_Pruned (cfg_is_spv_mode conf) b)
            (\<lambda>(ok, b'). Inr (with_block h b' bc)))
        | None \<Rightarrow> Inr bc) = Inr bc'"
    by (auto simp: bc_prune_blocks_after_add_block_def simp del: rbind_eq_Inr split: if_splits
        elim!: rbind_eq_Inr [THEN iffD1, elim_format])
  then show ?thesis using assms(1) by (cases r) (auto intro: replace_block same_block_upgrade)
qed (use assms in simp)

lemma success:
  assumes "index_ok Q (nd_blockchain nd)"
    and "bc_add_block_success X ord conf h (nd, mp) = Inr (nd', mp')"
  shows "index_ok Q (nd_blockchain nd')"
proof -
  from assms(2) obtain b where b: "map_of (bc_blocks (nd_blockchain nd)) h = Some b"
    by (auto simp: bc_add_block_success_def simp del: map_of_eq_Some_iff)
  with assms(2) obtain nd1 where 1: "bc_save_block X ord conf b nd = Inr nd1"
    by (auto simp: bc_add_block_success_def simp del: map_of_eq_Some_iff)
  with b assms(2) obtain bc2 where 2: "bc_update_fork_id (b_id b) (nd_blockchain nd1) = Inr bc2"
    by (auto simp: bc_add_block_success_def simp del: map_of_eq_Some_iff)
  with 1 b assms(2) obtain bc3 where 3: "bc_set_safe_to_prune_transaction (b_id b) bc2 = Inr bc3"
    by (auto simp: bc_add_block_success_def simp del: map_of_eq_Some_iff)
  with 1 2 b assms(2) obtain bc4 where 4: "bc_prune_blocks_after_add_block X conf (nd_disk nd1) bc3 = Inr bc4"
    and nd': "nd_blockchain nd' = bc4"
    by (auto simp: bc_add_block_success_def simp del: map_of_eq_Some_iff)
  have "index_ok Q (nd_blockchain nd1)"
    using save_block_blockchain [OF 1] assms(1) by auto
  then have "index_ok Q bc2" using 2 by (rule fork_id)
  then have "index_ok Q bc3" by (rule safe_to_prune [OF _ 3])
  then show ?thesis using prune [OF _ 4] by (simp add: nd')
qed

lemma set_in_longest_chain_keeps:
  "index_ok Q bc \<Longrightarrow> set_in_longest_chain h lc bc = Inr bc' \<Longrightarrow> index_ok Q bc'"
  by (auto simp: set_in_longest_chain_def intro: replace_block)

lemma check_total_supply_keeps:
  "index_ok Q bc \<Longrightarrow> bc_check_total_supply ord conf bc = Inr bc' \<Longrightarrow> index_ok Q bc'"
  by (auto simp: bc_check_total_supply_def Let_def split: if_splits)

end

text \<open>The invariant of the block being added: it is sealed and stored under its hash.\<close>

definition sealed_key :: "ext \<Rightarrow> bytes \<Rightarrow> bytes \<Rightarrow> block \<Rightarrow> bool" where
  "sealed_key X k h b \<longleftrightarrow> (h = k \<longrightarrow> sealed X b \<and> b_hash b = k)"

interpretation key: block_invariant X "sealed_key X k" for X k
  by unfold_locales (auto simp: sealed_key_def same_block_def)

lemma with_blockchain_simp [simp]: "nd_blockchain (with_blockchain bc nd) = bc"
  by (simp add: with_blockchain_def)

lemma failure_keeps:
  assumes "index_ok (sealed_key X k) (nd_blockchain nd)"
    and "bc_add_block_failure X k (nd, mp) = Inr (nd', mp')"
  shows "indexed (nd_blockchain nd') \<and> map_of (bc_blocks (nd_blockchain nd')) k = None"
proof (cases "map_of (bc_blocks (nd_blockchain nd)) k")
  case None
  then show ?thesis using assms by (simp add: bc_add_block_failure_def index_ok_def Let_def)
next
  case (Some b)
  then have "b_hash b = k"
    using index_ok_block [OF assms(1)] by (simp add: sealed_key_def)
  with Some assms(2) obtain br where "br_delete_block (b_id b) k (bc_blockring (nd_blockchain nd)) = Inr br"
    and nd': "nd_blockchain nd' = (nd_blockchain nd)\<lparr>bc_blocks := AList.delete k (bc_blocks (nd_blockchain nd)),
      bc_blockring := br\<rparr>"
    by (auto simp: bc_add_block_failure_def Let_def)
  then have "index_ok (sealed_key X k) ((nd_blockchain nd)\<lparr>bc_blockring := br,
      bc_blocks := AList.delete k (bc_blocks (nd_blockchain nd))\<rparr>)"
    using Some by (intro index_ok_delete [OF assms(1)]) auto
  then show ?thesis by (simp add: nd' index_ok_def indexed_def delete_conv')
qed

lemma adopt_keeps:
  assumes "index_ok (sealed_key X k) (nd_blockchain nd)"
    and "bc_adopt_chain X ord conf k new old (nd, mp) = Some (Inr (r, nd', mp'))"
  shows "indexed (nd_blockchain nd')"
proof -
  from assms(2) obtain bc1 where 1: "set_in_longest_chain k True (nd_blockchain nd) = Inr bc1"
    by (auto simp: bc_adopt_chain_def)
  with assms(2) obtain ok s nd2 where
    2: "bc_validate X conf new old (with_blockchain bc1 nd) = Some (Inr ((ok, s), nd2))"
    by (auto simp: bc_adopt_chain_def)
  have "index_ok (sealed_key X k) (nd_blockchain (with_blockchain bc1 nd))"
    using key.set_in_longest_chain_keeps [OF assms(1) 1] by simp
  then have i2: "index_ok (sealed_key X k) (nd_blockchain nd2)"
    using 2 by (rule key.validate)
  show ?thesis
  proof (cases ok)
    case True
    with assms(2) 1 2 obtain bc3 where 3: "bc_check_total_supply ord conf (nd_blockchain nd2) = Inr bc3"
      and "bc_add_block_success X ord conf k (with_blockchain bc3 nd2, mp) = Inr (nd', mp')"
      by (auto simp: bc_adopt_chain_def)
    moreover have "index_ok (sealed_key X k) bc3" by (rule key.check_total_supply_keeps [OF i2 3])
    ultimately show ?thesis
      using key.success [of X k "with_blockchain bc3 nd2"] by (simp add: index_ok_def)
  next
    case False
    with assms(2) 1 2 obtain bc3 where 3: "set_in_longest_chain k False (nd_blockchain nd2) = Inr bc3"
      and f: "bc_add_block_failure X k (with_blockchain bc3 nd2, mp) = Inr (nd', mp')"
      by (auto simp: bc_adopt_chain_def)
    have "index_ok (sealed_key X k) bc3" by (rule key.set_in_longest_chain_keeps [OF i2 3])
    then show ?thesis using failure_keeps [of X k "with_blockchain bc3 nd2"] f by simp
  qed
qed

text \<open>
  C15. The ring and the index of blocks stay in agreement whatever becomes of an added block: the
  ring is well formed, every block is indexed once, and the ring names exactly the indexed blocks,
  at their ids.
\<close>

theorem adding_block_keeps_index:
  assumes "indexed (nd_blockchain nd)"
    and "\<And>b'. block_generate X b = Inr b' \<Longrightarrow> b_merkle_root b' \<noteq> replicate 32 0"
    and "bc_add_block X ord conf b (nd, mp) = Some (Inr (r, nd', mp'))"
  shows "indexed (nd_blockchain nd')"
proof (cases "nd' = nd")
  case False
  with assms(3) obtain b1 where b1: "block_generate X b = Inr b1"
    by (auto simp: bc_add_block_def split: sum.splits if_splits)
  with assms(3) False obtain lh where lh: "bc_get_latest_block_hash (nd_blockchain nd) = Inr lh"
    by (auto simp: bc_add_block_def Let_def)
  with assms(3) False b1 have new: "map_of (bc_blocks (nd_blockchain nd)) (b_hash b1) = None"
    and p: "missing_parent conf (nd_blockchain nd) mp b1 = Inr None"
    by (auto simp: bc_add_block_def Let_def split: if_splits option.splits)
  with assms(3) b1 lh obtain bc1 where 1: "bc_insert_block b1 (nd_blockchain nd) = Inr bc1"
    by (auto simp: bc_add_block_def Let_def)
  with assms(3) b1 lh new p obtain nc oc l bc2 where
    2: "bc_choose_chain (b_hash b1) (b_id b1) lh bc1 = Some (Inr (nc, oc, l, bc2))"
    by (auto simp: bc_add_block_def Let_def)
  let ?Q = "sealed_key X (b_hash b1)"
  have "index_ok ?Q (nd_blockchain nd)"
    using assms(1) new by (auto simp: index_ok_def sealed_key_def)
  moreover have "?Q (b_hash b1) b1"
    using block_generate_sealed(3) [OF b1 assms(2) [OF b1]] by (simp add: sealed_key_def)
  ultimately have "index_ok ?Q bc1" using new 1 by (intro key.insert [OF _ new _ 1])
  then have i2: "index_ok ?Q bc2" using 2 by (rule key.choose_chain)
  show ?thesis
  proof (cases l)
    case True
    with assms(3) b1 lh new p 1 2 have
      "bc_adopt_chain X ord conf (b_hash b1) nc oc (with_blockchain bc2 nd, mp) = Some (Inr (r, nd', mp'))"
      by (simp add: bc_add_block_def Let_def)
    then show ?thesis
      using adopt_keeps [of X "b_hash b1" "with_blockchain bc2 nd"] i2 by simp
  next
    case False
    with assms(3) b1 lh new p 1 2 have
      "bc_add_block_success X ord conf (b_hash b1) (with_blockchain bc2 nd, mp) = Inr (nd', mp')"
      by (auto simp: bc_add_block_def Let_def)
    then show ?thesis
      using key.success [of X "b_hash b1" "with_blockchain bc2 nd"] i2 by (simp add: index_ok_def)
  qed
qed (use assms(1) in simp)

section \<open>A block beside the chain\<close>

text \<open>A chain of one block, and a header at the same id with an unknown parent.\<close>

definition demo_small_config :: node_config where
  "demo_small_config = demo_fork_config\<lparr>cfg_initial_loading_completed := False\<rparr>"

definition demo_small_ring :: BlockRing where
  "demo_small_ring = \<lparr>br_ring = [ri_default, \<lparr>ri_lc_pos = Some 0, ri_block_hashes = [[1]], ri_block_ids = [1]\<rparr>,
     ri_default, ri_default], br_lc_pos = Some 1, br_empty = False, br_genesis_period = 2\<rparr>"

definition demo_small :: node where
  "demo_small = demo_fork [([1], on_chain (demo_ghost 1 [1] []))] demo_small_ring"

definition demo_sibling :: block where
  "demo_sibling = block_new\<lparr>b_id := 1, b_previous_block_hash := [7], b_merkle_root := replicate 32 1,
     b_block_type := BT_Header\<rparr>"

lemma demo_sibling_generate:
  "\<exists>b. block_generate demo_ext demo_sibling = Inr b \<and> b_id b = 1 \<and> b_previous_block_hash b = [7] \<and>
     b_block_type b = BT_Header \<and> b_transactions b = [] \<and> \<not> b_in_longest_chain b \<and>
     b_merkle_root b = replicate 32 1 \<and> b_hash b \<noteq> replicate 32 0 \<and> length (b_hash b) = 32"
proof -
  have "\<exists>b. block_generate demo_ext demo_sibling = Inr b \<and> b_id b = 1 \<and> b_previous_block_hash b = [7] \<and>
     b_block_type b = BT_Header \<and> b_transactions b = [] \<and> \<not> b_in_longest_chain b \<and>
     b_merkle_root b = replicate 32 1"
    by (simp add: block_generate_def demo_sibling_def block_new_def Let_def
        block_generate_transaction_hashmap_def block_generate_hash_def block_generate_pre_hash_def)
  then obtain b where b: "block_generate demo_ext demo_sibling = Inr b" "b_id b = 1" "b_previous_block_hash b = [7]"
     "b_block_type b = BT_Header" "b_transactions b = []" "\<not> b_in_longest_chain b"
     "b_merkle_root b = replicate 32 1" by blast
  have "b_hash b = demo_hash (7 # b_pre_hash b)"
    using block_generate_hashes [OF b(1)] by (simp add: demo_sibling_def hash_def demo_ext_def)
  then have "hd (b_hash b) = 7" "length (b_hash b) = 32" by (simp_all add: demo_hash_def)
  moreover from this have "b_hash b \<noteq> replicate 32 0" by (auto simp: hd_replicate)
  ultimately show ?thesis using b by (intro exI [of _ b]) simp
qed

lemma demo_small_indexed: "indexed (nd_blockchain demo_small)"
proof -
  have wf: "br_wf demo_small_ring"
    by (auto simp: br_wf_def demo_small_ring_def br_get_ring_buffer_size_def slot_of_def ri_wf_def
        ri_default_def less_Suc_eq nth_Cons')
  have "(i, h) \<in> ring_entries demo_small_ring \<longleftrightarrow> (i, h) = (1, [1])" for i h
  proof -
    have "slot_of demo_small_ring i < 4"
      using slot_of_bound [OF wf, of i] by (simp add: demo_small_ring_def)
    moreover have "slot_of demo_small_ring 1 = 1"
      by (simp add: slot_of_def demo_small_ring_def br_get_ring_buffer_size_def)
    ultimately show ?thesis
      by (auto simp: ring_entries_def item_at_def demo_small_ring_def ri_entries_def ri_default_def
          less_Suc_eq numeral_eq_Suc nth_Cons')
  qed
  moreover have "(i, h) \<in> block_entries (bc_blocks (nd_blockchain demo_small)) \<longleftrightarrow> (i, h) = (1, [1])" for i h
    by (auto simp: block_entries_iff demo_small_def demo_fork_def)
  moreover have "bc_blockring (nd_blockchain demo_small) = demo_small_ring"
    "map fst (bc_blocks (nd_blockchain demo_small)) = [[1]]"
    by (simp_all add: demo_small_def demo_fork_def)
  ultimately show ?thesis using wf by (auto simp: indexed_def set_eq_iff)
qed

lemma demo_small_ring_reads:
  "br_get_latest_block_hash demo_small_ring = Inr [1]" "br_get_latest_block_id demo_small_ring = Inr 1"
  "\<not> br_is_empty demo_small_ring" "br_add_block 1 h demo_small_ring = Inr (demo_small_ring\<lparr>br_ring :=
     [ri_default, \<lparr>ri_lc_pos = Some 0, ri_block_hashes = [[1], h], ri_block_ids = [1, 1]\<rparr>, ri_default, ri_default]\<rparr>)"
  "br_contains_block_hash_at_block_id 1 h demo_small_ring = Inr (h = [1])"
  by (auto simp: demo_small_ring_def br_get_latest_block_hash_def br_get_latest_block_id_def br_is_empty_def
      index_r_def br_add_block_def br_item_def br_insert_pos_def br_get_ring_buffer_size_def
      ri_add_block_def br_contains_block_hash_at_block_id_def ri_contains_block_hash_def)

lemma demo_small_added:
  "\<exists>h nd' mp'. bc_add_block demo_ext ord demo_small_config demo_sibling (demo_small, mp_new) =
     Some (Inr (BlockAddedSuccessfully h False False, nd', mp'))"
proof -
  obtain b where b: "block_generate demo_ext demo_sibling = Inr b" "b_id b = 1" "b_previous_block_hash b = [7]"
     "b_block_type b = BT_Header" "b_transactions b = []" "\<not> b_in_longest_chain b" "b_hash b \<noteq> replicate 32 0"
     "length (b_hash b) = 32"
    using demo_sibling_generate by blast
  let ?h = "b_hash b" and ?bc = "nd_blockchain demo_small"
  let ?br = "demo_small_ring\<lparr>br_ring := [ri_default,
     \<lparr>ri_lc_pos = Some 0, ri_block_hashes = [[1], ?h], ri_block_ids = [1, 1]\<rparr>, ri_default, ri_default]\<rparr>"
  let ?g = "on_chain (demo_ghost 1 [1] [])"
  have h1: "?h \<noteq> [1]" using b(8) by auto
  have bc: "bc_blockring ?bc = demo_small_ring" "bc_blocks ?bc = [([1], ?g)]" "bc_genesis_period ?bc = 2"
    "bc_utxoset ?bc = Map.empty" "\<not> bc_checkpoint_found ?bc"
    by (simp_all add: demo_small_def demo_fork_def bc_new_def)
  define bc1 where "bc1 = ?bc\<lparr>bc_blockring := ?br, bc_blocks := [([1], ?g), (?h, b)]\<rparr>"
  have ins: "bc_insert_block b ?bc = Inr bc1"
    using h1 by (simp add: bc_insert_block_def bc b(2) demo_small_ring_reads with_block_def bc1_def)
  have ring1: "br_get_latest_block_hash ?br = Inr [1]" "br_get_latest_block_id ?br = Inr 1" "\<not> br_is_empty ?br"
    by (simp_all add: demo_small_ring_def br_get_latest_block_hash_def br_get_latest_block_id_def
        br_is_empty_def index_r_def)
  have bc1: "bc_blockring bc1 = ?br" "bc_blocks bc1 = [([1], ?g), (?h, b)]" "bc_genesis_period bc1 = 2"
    by (simp_all add: bc1_def bc)
  have z: "replicate 32 (0 :: 8 word) \<noteq> [1]" "[7 :: 8 word] \<noteq> ?h" "[7 :: 8 word] \<noteq> replicate 32 0"
    "([] :: 8 word list) \<noteq> replicate 32 0" "[] \<noteq> ?h" "[1 :: 8 word] \<noteq> replicate 32 0"
    using b(8) by (auto dest: arg_cong [of _ _ length])
  have new: "calculate_new_chain_for_add_block bc1 ?h = Some (False, [7], [?h])"
    using h1 z b(3,6,7) by (simp add: calculate_new_chain_for_add_block_def bc1 new_chain_loop.simps)
  have d: "bc_disconnect 1 [1] bc1 = Inr bc1"
    by (simp add: bc_disconnect_def bc1 ring1 bc_get_latest_block_hash_def bc_within_genesis_period_def
        bc_get_latest_block_id_def)
  have old: "calculate_old_chain_upto_length bc1 [1] 1 = [[1]]"
    using z by (simp add: calculate_old_chain_upto_length_def bc1 old_chain_upto.simps)
  define bc2 where "bc2 = bc1\<lparr>bc_blockring := ?br\<lparr>br_empty := False\<rparr>\<rparr>"
  have ch: "bc_choose_chain ?h 1 [1] bc1 = Some (Inr ([?h], [[1]], False, bc2))"
    using b(2) by (auto simp: bc_choose_chain_def new d old bc_within_genesis_period_def
        bc_get_latest_block_id_def bc1 ring1 sat_sub_def is_new_chain_the_longest_chain_def index_r_def bc2_def h1)
  have bc2: "bc_blocks bc2 = [([1], ?g), (?h, b)]" "bc_blockring bc2 = ?br\<lparr>br_empty := False\<rparr>"
    "bc_utxoset bc2 = Map.empty"
    by (simp_all add: bc2_def bc1 bc1_def bc)
  let ?nd = "with_blockchain bc2 demo_small"
  have save: "bc_save_block demo_ext ord demo_small_config b ?nd = Inr ?nd"
    by (simp add: bc_save_block_def b(4))
  have fork: "bc_update_fork_id 1 bc2 = Inr bc2"
    by (simp add: bc_update_fork_id_def bc_generate_fork_id_def FORK_ID_WEIGHTS_def)
  define bc3 where "bc3 = with_block [1] (?g\<lparr>b_safe_to_prune_transactions := True\<rparr>) bc2"
  have safe: "bc_set_safe_to_prune_transaction 1 bc2 = Inr bc3"
    by (simp add: bc_set_safe_to_prune_transaction_def bc2 bc3_def br_get_block_hash_by_block_id_def br_item_def
        br_insert_pos_def br_get_ring_buffer_size_def demo_small_ring_def index_r_def)
  have bc3: "map_of (bc_blocks bc3) ?h = Some b" "bc_blockring bc3 = ?br\<lparr>br_empty := False\<rparr>" "bc_utxoset bc3 = Map.empty"
    using h1 by (simp_all add: bc3_def with_block_def bc2)
  have remove: "\<exists>mp. bc_remove_block_transactions ?h bc3 mp_new = Inr mp"
    by (simp add: bc_remove_block_transactions_def bc3 b(5) mp_delete_transactions_def Let_def)
  have latest3: "br_get_latest_block_id (?br\<lparr>br_empty := False\<rparr>) = Inr 1"
    by (simp add: demo_small_ring_def br_get_latest_block_id_def index_r_def)
  have prune: "bc_prune_blocks_after_add_block demo_ext demo_small_config (nd_disk ?nd) bc3 = Inr bc3"
    by (simp add: bc_prune_blocks_after_add_block_def bc_get_latest_block_id_def bc3 latest3
        demo_small_config_def demo_fork_config_def del: rbind_eq_Inr)
  have "\<exists>s. bc_add_block_success demo_ext ord demo_small_config ?h (?nd, mp_new) = Inr s"
    using remove h1 by (auto simp: bc_add_block_success_def bc2 b(2) save fork safe prune simp del: rbind_eq_Inr)
  moreover have "missing_parent demo_small_config ?bc mp_new b = Inr None"
    by (simp add: missing_parent_def demo_small_config_def bc)
  ultimately show ?thesis
    using h1 b(2) by (auto simp: bc_add_block_def b(1) bc_get_latest_block_hash_def bc demo_small_ring_reads ins ch Let_def)
qed

theorem adding_block_keeps_index_witness:
  "\<exists>h nd' mp'. bc_add_block demo_ext (\<lambda>_. []) demo_small_config demo_sibling (demo_small, mp_new) =
       Some (Inr (BlockAddedSuccessfully h False False, nd', mp')) \<and> indexed (nd_blockchain nd')"
proof -
  obtain h nd' mp' where r: "bc_add_block demo_ext (\<lambda>_. []) demo_small_config demo_sibling (demo_small, mp_new) =
      Some (Inr (BlockAddedSuccessfully h False False, nd', mp'))"
    using demo_small_added by blast
  have "b_merkle_root b' \<noteq> replicate 32 0" if "block_generate demo_ext demo_sibling = Inr b'" for b'
    using that demo_sibling_generate by (auto simp: numeral_eq_Suc)
  from adding_block_keeps_index [OF demo_small_indexed this r] r show ?thesis by blast
qed

end
