(* ===== verification/Blockchain_Add_Rules.thy ===== *)
theory Blockchain_Add_Rules
  imports Blockchain_Index Mempool_Rules
begin

text \<open>
  What adding a block decides: the branch of the new block and the end of the walks along the
  chain, the exact total supply, and the transactions left in the mempool.
\<close>

section \<open>The total supply\<close>

lemma sum_spendable:
  fixes f :: "bytes \<Rightarrow> u64"
  assumes "map_order u (ord u)"
  shows "sum_list (map f (spendable_keys ord u)) = of_nat (\<Sum>k | u k = Some True. unat (f k))"
proof -
  have "set (spendable_keys ord u) = {k. u k = Some True}" "distinct (spendable_keys ord u)"
    using assms by (auto simp: spendable_keys_def map_order_def)
  then show ?thesis by (simp add: sum_list_distinct_conv_sum_set)
qed


section \<open>The branch of a block\<close>

text \<open>A walk along the parents through blocks that are not on the longest chain.\<close>

fun linked :: "blocks \<Rightarrow> bytes \<Rightarrow> bytes list \<Rightarrow> bytes \<Rightarrow> bool" where
  "linked bs h [] s = (s = h)"
| "linked bs h (x # xs) s \<longleftrightarrow> x = h \<and>
     (\<exists>b. map_of bs h = Some b \<and> \<not> b_in_longest_chain b \<and> linked bs (b_previous_block_hash b) xs s)"

definition on_longest_chain :: "blocks \<Rightarrow> bytes \<Rightarrow> bool" where
  "on_longest_chain bs h \<longleftrightarrow> (\<exists>b. map_of bs h = Some b \<and> b_in_longest_chain b)"

lemma new_chain_linked:
  assumes "new_chain_loop bs h acc = Some (found, s, chain)"
  shows "\<exists>rest. chain = acc @ rest \<and> linked bs h rest s \<and> (found \<longleftrightarrow> on_longest_chain bs s)"
proof -
  have "\<forall>found s chain. y = (found, s, chain) \<longrightarrow>
      (\<exists>rest. chain = acc @ rest \<and> linked bs h rest s \<and> (found \<longleftrightarrow> on_longest_chain bs s))"
    if "new_chain_loop bs h acc = Some y" for y
    using that
  proof (rule new_chain_loop.raw_induct [where P = "\<lambda>bs h acc y. \<forall>found s chain. y = (found, s, chain) \<longrightarrow>
      (\<exists>rest. chain = acc @ rest \<and> linked bs h rest s \<and> (found \<longleftrightarrow> on_longest_chain bs s))", rotated], goal_cases)
    case (1 f bs h acc y)
    show ?case
    proof (cases "map_of bs h")
      case None
      with 1(2) show ?thesis by (auto simp: on_longest_chain_def)
    next
      case (Some b)
      show ?thesis
      proof (cases "b_in_longest_chain b \<or> h = replicate 32 0")
        case True
        with 1(2) Some show ?thesis by (auto simp: on_longest_chain_def split: if_splits)
      next
        case False
        with 1(2) Some have "f bs (b_previous_block_hash b) (acc @ [h]) = Some y" by simp
        from 1(1) [OF this] Some False show ?thesis
          by (auto intro: exI [of _ "h # rest" for rest])
      qed
    qed
  qed
  then show ?thesis using assms by blast
qed

text \<open>Parents have a lower rank; blocks that name each other's hash in a circle do not exist.\<close>

definition ranked :: "(bytes \<Rightarrow> nat) \<Rightarrow> blocks \<Rightarrow> bool" where
  "ranked r bs \<longleftrightarrow> (\<forall>h b. map_of bs h = Some b \<longrightarrow> map_of bs (b_previous_block_hash b) \<noteq> None \<longrightarrow>
     r (b_previous_block_hash b) < r h)"

lemma new_chain_returns:
  assumes "ranked r bs"
  shows "\<exists>y. new_chain_loop bs h acc = Some y"
proof (induction "r h" arbitrary: h acc rule: less_induct)
  case less
  show ?case
  proof (cases "map_of bs h")
    case None
    then show ?thesis by (simp add: new_chain_loop.simps del: split_paired_Ex)
  next
    case (Some b)
    show ?thesis
    proof (cases "map_of bs (b_previous_block_hash b)")
      case None
      with Some show ?thesis by (simp add: new_chain_loop.simps [of bs h] new_chain_loop.simps [of bs "b_previous_block_hash b"] del: split_paired_Ex)
    next
      case p: (Some p)
      with Some assms have "r (b_previous_block_hash b) < r h" by (auto simp: ranked_def)
      from less [OF this] Some show ?thesis by (simp add: new_chain_loop.simps [of bs h] del: split_paired_Ex)
    qed
  qed
qed

lemma old_chain_returns:
  assumes "ranked r bs"
  shows "\<exists>y. old_chain_loop bs s h acc = Some y"
proof (induction "r h" arbitrary: h acc rule: less_induct)
  case less
  show ?case
  proof (cases "map_of bs h")
    case None
    then show ?thesis by (simp add: old_chain_loop.simps)
  next
    case (Some b)
    show ?thesis
    proof (cases "map_of bs (b_previous_block_hash b)")
      case None
      with Some show ?thesis by (simp add: old_chain_loop.simps [of bs s h] old_chain_loop.simps [of bs s "b_previous_block_hash b"])
    next
      case p: (Some p)
      with Some assms have "r (b_previous_block_hash b) < r h" by (auto simp: ranked_def)
      from less [OF this] Some show ?thesis by (simp add: old_chain_loop.simps [of bs s h])
    qed
  qed
qed

text \<open>
  C17. The choice of the chain for a new block returns when no block is its own ancestor, and the
  new chain it compares is the branch of the block: it starts at the block and follows the
  parents through indexed blocks that are not on the longest chain, down to the shared ancestor
  when one is found.
\<close>

theorem chain_choice_returns:
  assumes "ranked r (bc_blocks bc)"
  shows "(\<exists>y. bc_choose_chain h i lh bc = Some y) \<and>
    (\<exists>found s chain. calculate_new_chain_for_add_block bc h = Some (found, s, chain) \<and>
       linked (bc_blocks bc) h chain s \<and> (found \<longleftrightarrow> on_longest_chain (bc_blocks bc) s))"
proof -
  obtain found s chain where n: "new_chain_loop (bc_blocks bc) h [] = Some (found, s, chain)"
    using new_chain_returns [OF assms, of h "[]"] by auto
  obtain old where o: "old_chain_loop (bc_blocks bc) s lh [] = Some old"
    using old_chain_returns [OF assms, of s lh "[]"] by blast
  have returns: "\<exists>y. lbind (Some x) f = Some y" if "\<And>a. \<exists>y. f a = Some y" for x :: "'a res" and f :: "'a \<Rightarrow> 'b res option"
    using that by (cases x) auto
  have "\<exists>y. bc_choose_chain h i lh bc = Some y"
    unfolding bc_choose_chain_def calculate_new_chain_for_add_block_def n calculate_old_chain_for_add_block_def
    by (cases found) (auto simp: o intro!: returns split: prod.splits)
  with new_chain_linked [OF n] n show ?thesis
    by (auto simp: calculate_new_chain_for_add_block_def)
qed

section \<open>The mempool after a block\<close>

lemma delete_transactions_pending:
  assumes "pending_ok (mp_transactions mp) (mp_utxo_map mp)" and "mp_delete_transactions txs mp = Inr mp'"
  shows "mp_ok mp' \<and> set (mp_transactions mp') \<subseteq> set (mp_transactions mp)"
proof -
  from assms(2) obtain mp1 where 1: "mp_delete_loop txs mp = Inr mp1"
    and mp': "mp' = mp1\<lparr>mp_routing_work_in_mempool := pending_work (mp_transactions mp1)\<rparr>"
    by (auto simp: mp_delete_transactions_def pending_work_def)
  have "distinct (map fst (mp_transactions mp))"
    using assms(1) by (simp add: pending_ok_def)
  with mp_delete_loop_subset [OF 1] pending_ok_subset [OF assms(1)] show ?thesis by (simp add: mp' mp_ok_def)
qed

lemma remove_block_transactions:
  assumes "mp_ok mp" and "bc_remove_block_transactions h bc mp = Inr mp'"
  shows "mp_ok mp' \<and>
    (\<forall>(k, tx) \<in> set (mp_transactions mp'). (k, tx) \<in> set (mp_transactions mp) \<and>
       tx_validate_against_utxoset (bc_utxoset bc) tx)"
proof -
  let ?keep = "filter (\<lambda>(_, tx). tx_validate_against_utxoset (bc_utxoset bc) tx) (mp_transactions mp)"
  from assms(2) obtain txs where d: "mp_delete_transactions txs (mp\<lparr>mp_transactions := ?keep\<rparr>) = Inr mp'"
    by (auto simp: bc_remove_block_transactions_def Let_def)
  have old: "pending_ok (mp_transactions mp) (mp_utxo_map mp)" using assms(1) by (simp add: mp_ok_def)
  then have "distinct (map fst ?keep)" by (simp add: pending_ok_def distinct_map_filter)
  then have "pending_ok ?keep (mp_utxo_map mp)" by (intro pending_ok_subset [OF old]) auto
  then have "mp_ok mp' \<and> set (mp_transactions mp') \<subseteq> set ?keep"
    using delete_transactions_pending [OF _ d] by simp
  then show ?thesis by auto
qed

lemma bc_add_block_cases:
  assumes "bc_add_block X ord conf b (nd, mp) = Some (Inr (r, nd', mp'))"
  obtains (unchanged) "nd' = nd" "mp' = mp" "\<forall>h lc wu. r \<noteq> BlockAddedSuccessfully h lc wu"
    | (success) h lc wu nd1 where "r = BlockAddedSuccessfully h lc wu"
        "bc_add_block_success X ord conf h (nd1, mp) = Inr (nd', mp')"
    | (failure) h nd1 where "r = FailedNotValid" "bc_add_block_failure X h (nd1, mp) = Inr (nd', mp')"
proof (cases "block_generate X b")
  case (Inl e)
  with assms unchanged show ?thesis by (auto simp: bc_add_block_def split: if_splits)
next
  case b1: (Inr b1)
  with assms obtain lh where lh: "bc_get_latest_block_hash (nd_blockchain nd) = Inr lh"
    by (auto simp: bc_add_block_def Let_def)
  show ?thesis
  proof (cases "map_of (bc_blocks (nd_blockchain nd)) (b_hash b1) = None")
    case False
    with assms b1 lh unchanged show ?thesis by (auto simp: bc_add_block_def Let_def)
  next
    case new: True
    with assms b1 lh obtain early where p: "missing_parent conf (nd_blockchain nd) mp b1 = Inr early"
      by (auto simp: bc_add_block_def Let_def)
    show ?thesis
    proof (cases early)
      case (Some r')
      with assms b1 lh new p have "nd' = nd" "mp' = mp" "r = r'" by (auto simp: bc_add_block_def Let_def)
      moreover have "\<forall>h lc wu. r' \<noteq> BlockAddedSuccessfully h lc wu"
        using p Some by (auto simp: missing_parent_def Let_def split: if_splits)
      ultimately show ?thesis using unchanged by blast
    next
      case None
      with assms b1 lh new p obtain bc1 where 1: "bc_insert_block b1 (nd_blockchain nd) = Inr bc1"
        by (auto simp: bc_add_block_def Let_def)
      with assms b1 lh new p None obtain nc oc l bc2 where
        2: "bc_choose_chain (b_hash b1) (b_id b1) lh bc1 = Some (Inr (nc, oc, l, bc2))"
        by (auto simp: bc_add_block_def Let_def)
      show ?thesis
      proof (cases l)
        case False
        with assms b1 lh new p None 1 2 have "r = BlockAddedSuccessfully (b_hash b1) False False"
          "bc_add_block_success X ord conf (b_hash b1) (with_blockchain bc2 nd, mp) = Inr (nd', mp')"
          by (auto simp: bc_add_block_def Let_def)
        then show ?thesis by (rule success)
      next
        case True
        with assms b1 lh new p None 1 2 have a:
          "bc_adopt_chain X ord conf (b_hash b1) nc oc (with_blockchain bc2 nd, mp) = Some (Inr (r, nd', mp'))"
          by (simp add: bc_add_block_def Let_def)
        then obtain bc1' where 3: "set_in_longest_chain (b_hash b1) True bc2 = Inr bc1'"
          by (auto simp: bc_adopt_chain_def)
        with a obtain ok s nd2 where
          4: "bc_validate X conf nc oc (with_blockchain bc1' (with_blockchain bc2 nd)) = Some (Inr ((ok, s), nd2))"
          by (auto simp: bc_adopt_chain_def)
        show ?thesis
        proof (cases ok)
          case True
          with a 3 4 show ?thesis by (auto simp: bc_adopt_chain_def intro: success)
        next
          case False
          with a 3 4 show ?thesis by (auto simp: bc_adopt_chain_def intro: failure)
        qed
      qed
    qed
  qed
qed

text \<open>What follows the update of the mempool leaves the UTXO set alone.\<close>

lemma with_block_utxoset [simp]: "bc_utxoset (with_block h b bc) = bc_utxoset bc"
  by (simp add: with_block_def)

lemma prune_utxoset:
  assumes "bc_prune_blocks_after_add_block X conf dk bc = Inr bc'"
  shows "bc_utxoset bc' = bc_utxoset bc"
proof (cases "bc' = bc")
  case False
  with assms obtain r where
    "(case r of Some h \<Rightarrow> rbind (ok_or Panic (map_of (bc_blocks bc) h)) (\<lambda>b.
          rbind (block_upgrade_block_to_block_type X dk BT_Pruned (cfg_is_spv_mode conf) b)
            (\<lambda>(ok, b'). Inr (with_block h b' bc)))
        | None \<Rightarrow> Inr bc) = Inr bc'"
    by (auto simp: bc_prune_blocks_after_add_block_def simp del: rbind_eq_Inr split: if_splits
        elim!: rbind_eq_Inr [THEN iffD1, elim_format])
  then show ?thesis by (cases r) auto
qed simp

text \<open>
  C16. After a block was added, whichever branch it is on, what is left in the mempool was there
  before, each transaction of it still spends outputs that are spendable in the resulting UTXO
  set, and the invariant of the mempool holds: no two of them spend the same output, and the
  routing work is the sum of theirs.
\<close>

theorem mempool_follows_chain:
  assumes "mp_ok mp"
    and "bc_add_block X ord conf b (nd, mp) = Some (Inr (BlockAddedSuccessfully h lc wu, nd', mp'))"
  shows "mp_ok mp' \<and>
    (\<forall>(k, tx) \<in> set (mp_transactions mp'). (k, tx) \<in> set (mp_transactions mp) \<and>
       tx_validate_against_utxoset (bc_utxoset (nd_blockchain nd')) tx)"
  using assms(2)
proof (cases rule: bc_add_block_cases)
  case (success h' lc' wu' nd1)
  from success(2) obtain bc3 dk where
    "bc_remove_block_transactions h' bc3 mp = Inr mp'"
    "bc_prune_blocks_after_add_block X conf dk bc3 = Inr (nd_blockchain nd')"
    by (auto simp: bc_add_block_success_def simp del: map_of_eq_Some_iff)
  from remove_block_transactions [OF assms(1) this(1)] prune_utxoset [OF this(2)] show ?thesis by simp
qed auto

theorem mempool_follows_chain_witness:
  "\<exists>h nd' mp'. bc_add_block demo_ext (\<lambda>_. []) demo_small_config demo_sibling (demo_small, mp_new) =
      Some (Inr (BlockAddedSuccessfully h False False, nd', mp')) \<and> mp_ok mp' \<and>
      (\<forall>(k, tx) \<in> set (mp_transactions mp'). tx_validate_against_utxoset (bc_utxoset (nd_blockchain nd')) tx)"
proof -
  obtain h nd' mp' where r: "bc_add_block demo_ext (\<lambda>_. []) demo_small_config demo_sibling (demo_small, mp_new) =
      Some (Inr (BlockAddedSuccessfully h False False, nd', mp'))"
    using demo_small_added by blast
  from mempool_follows_chain [OF mp_new_ok r] r show ?thesis by fast
qed

theorem chain_choice_returns_witness:
  "\<exists>found s chain. calculate_new_chain_for_add_block (nd_blockchain demo_small) [1] = Some (found, s, chain)"
proof -
  have "ranked (\<lambda>_. 0) (bc_blocks (nd_blockchain demo_small))"
    by (auto simp: ranked_def demo_small_def demo_fork_def on_chain_def demo_ghost_def)
  from chain_choice_returns [OF this, of "[1]" 1 "[1]"] show ?thesis by blast
qed

text \<open>A chain of one block with one spendable output, of 5 units.\<close>

definition demo_key :: bytes where
  "demo_key = replicate 57 0 @ [5, 0]"

definition demo_supply :: Blockchain where
  "demo_supply = (nd_blockchain demo_small)\<lparr>bc_utxoset := [demo_key \<mapsto> True]\<rparr>"

lemma demo_key_amount: "supply_amount 0 demo_key = 5"
proof -
  have "subslice 50 58 demo_key = [0, 0, 0, 0, 0, 0, 0, 5]"
    by (simp add: demo_key_def subslice_def numeral_eq_Suc)
  moreover have "demo_key ! 58 = 0"
    by (simp add: demo_key_def nth_append)
  moreover have "from_be [0, 0, 0, 0, 0, 0, 0, 5 :: 8 word] = (5 :: u64)"
    by (simp add: from_be_def be_value_def)
  ultimately show ?thesis
    by (simp add: supply_amount_def slip_parse_slip_from_utxokey_def slip_type_from_u8_def)
qed


end
