(* ===== verification/Peer_Data.thy ===== *)
theory Peer_Data
  imports Saito_Text
begin

text \<open>
  What nodes know of each other: software versions (\<^verbatim>\<open>process/version.rs\<close>) with their
  order and wire format, the services a peer offers (\<^verbatim>\<open>consensus/peers/peer_service.rs\<close>)
  with their text format, and the limiter of the rate of requests
  (\<^verbatim>\<open>consensus/peers/rate_limiter.rs\<close>) with a bound on what it lets through.
\<close>

section \<open>Versions\<close>

datatype Version = Version (ver_major: u8) (ver_minor: u8) (ver_patch: u16)

datatype Ordering = Less | Equal | Greater

definition version_default :: Version where
  "version_default = Version 0 0 0"

definition version_is_set :: "Version \<Rightarrow> bool" where
  "version_is_set v \<longleftrightarrow> \<not> (ver_major v = 0 \<and> ver_minor v = 0 \<and> ver_patch v = 0)"

definition is_same_minor_version :: "Version \<Rightarrow> Version \<Rightarrow> bool" where
  "is_same_minor_version v w \<longleftrightarrow> version_is_set v \<and> ver_major v = ver_major w \<and> ver_minor v = ver_minor w"

text \<open>The version of the package is a text with two dots, fixed when the program is built.\<close>

definition read_pkg_version :: "string \<Rightarrow> Version" where
  "read_pkg_version v =
     (case split_on CHR ''.'' v of
        [a, b, c] \<Rightarrow> (case (parse_word a, parse_word b, parse_word c) of
            (Some major, Some minor, Some patch) \<Rightarrow> Version major minor patch
          | _ \<Rightarrow> version_default)
      | _ \<Rightarrow> version_default)"

definition compare_word :: "'a::len word \<Rightarrow> 'a word \<Rightarrow> Ordering" where
  "compare_word a b = (if a < b then Less else if a = b then Equal else Greater)"

definition version_partial_cmp :: "Version \<Rightarrow> Version \<Rightarrow> Ordering option" where
  "version_partial_cmp v w =
     (if ver_major v < ver_major w then Some Less
      else if ver_major v > ver_major w then Some Greater
      else if ver_minor v < ver_minor w then Some Less
      else if ver_minor v > ver_minor w then Some Greater
      else Some (compare_word (ver_patch v) (ver_patch w)))"

text \<open>The operators \<^verbatim>\<open><\<close> and \<^verbatim>\<open><=\<close> that Rust derives from \<^verbatim>\<open>partial_cmp\<close> are a linear order.\<close>

instantiation Version :: linorder
begin

definition less_Version :: "Version \<Rightarrow> Version \<Rightarrow> bool" where
  "v < w \<longleftrightarrow> version_partial_cmp v w = Some Less"

definition less_eq_Version :: "Version \<Rightarrow> Version \<Rightarrow> bool" where
  "v \<le> w \<longleftrightarrow> version_partial_cmp v w \<in> {Some Less, Some Equal}"

instance
  by standard
    (auto simp: less_Version_def less_eq_Version_def version_partial_cmp_def compare_word_def
      Version.expand split: if_splits)

end

definition version_serialize :: "Version \<Rightarrow> bytes" where
  "version_serialize v = [ver_major v, ver_minor v] @ to_be (ver_patch v)"

definition version_deserialize :: "bytes \<Rightarrow> Version res" where
  "version_deserialize buffer =
     (if length buffer < 4 then Inl InvalidData
      else Inr (Version (buffer ! 0) (buffer ! 1) (from_be [buffer ! 2, buffer ! 3])))"

lemma length_version_serialize [simp]: "length (version_serialize v) = 4"
  by (simp add: version_serialize_def)

interpretation version: fixed_codec version_serialize version_deserialize 4 "\<lambda>_. True" id
proof
  fix x :: Version
  obtain a b where "to_be (ver_patch x) = [a, b]"
    by (metis (no_types) length_to_be_word(2) length_0_conv length_Suc_conv numeral_2_eq_2)
  moreover from this have "from_be [a, b] = ver_patch x"
    by (metis from_be_to_be_word(2))
  ultimately show "version_deserialize (version_serialize x) = Inr (id x)"
    by (simp add: version_serialize_def version_deserialize_def Version.expand)
next
  fix bs x
  assume l: "length bs = 4" and d: "version_deserialize bs = Inr x"
  from l obtain a b c e where "bs = [a, b, c, e]"
    by (auto simp: numeral_eq_Suc length_Suc_conv)
  with d to_be_from_be_word(2) [of "[c, e]"] show "version_serialize x = bs"
    by (auto simp: version_serialize_def version_deserialize_def)
qed simp_all

section \<open>Services\<close>

record PeerService =
  sv_service :: string
  sv_domain :: string
  sv_name :: string

fun join_with :: "char \<Rightarrow> string list \<Rightarrow> string" where
  "join_with c [] = []"
| "join_with c [s] = s"
| "join_with c (s # ss) = s @ c # join_with c ss"

definition service_into :: "PeerService \<Rightarrow> string" where
  "service_into s = sv_service s @ CHR ''|'' # sv_domain s @ CHR ''|'' # sv_name s"

definition service_try_from :: "string \<Rightarrow> PeerService res" where
  "service_try_from value =
     (case split_on CHR ''|'' value of
        [service, domain, name] \<Rightarrow> Inr \<lparr>sv_service = service, sv_domain = domain, sv_name = name\<rparr>
      | _ \<Rightarrow> Inl InvalidData)"

definition serialize_services :: "PeerService list \<Rightarrow> bytes" where
  "serialize_services services =
     (if services = [] then [] else as_bytes (join_with CHR '';'' (map service_into services)))"

fun read_services :: "string list \<Rightarrow> PeerService list res" where
  "read_services [] = Inr []"
| "read_services (s # ss) =
     (if s = [] then read_services ss
      else rbind (service_try_from s) (\<lambda>x. rbind (read_services ss) (\<lambda>xs. Inr (x # xs))))"

definition deserialize_services :: "bytes \<Rightarrow> PeerService list res" where
  "deserialize_services buffer =
     (if buffer = [] then Inr []
      else rbind (from_utf8 buffer) (\<lambda>str. read_services (split_on CHR '';'' str)))"

text \<open>
  The fields are text of their own (valid UTF-8, as every \<^verbatim>\<open>String\<close> is) without the
  separators.
\<close>

definition service_field :: "string \<Rightarrow> bool" where
  "service_field s \<longleftrightarrow> utf8_ok (as_bytes s) \<and> CHR ''|'' \<notin> set s \<and> CHR '';'' \<notin> set s"

definition service_wf :: "PeerService \<Rightarrow> bool" where
  "service_wf s \<longleftrightarrow> service_field (sv_service s) \<and> service_field (sv_domain s) \<and> service_field (sv_name s)"

lemma as_bytes_eq_Nil [simp]: "as_bytes s = [] \<longleftrightarrow> s = []"
  by (simp add: as_bytes_def)

lemma list_cases4:
  obtains "xs = []" | b where "xs = [b]" | b c where "xs = [b, c]" | b c d where "xs = [b, c, d]"
    | b c d e r where "xs = b # c # d # e # r"
  by (metis list.exhaust)

lemma utf8_char_len_bounds: "utf8_char_len bs \<noteq> 0 \<Longrightarrow> utf8_char_len bs \<le> length bs"
  by (cases bs rule: list_cases4) (simp_all add: utf8_char_len_def split: if_splits)

lemma utf8_char_len_append:
  "utf8_char_len xs \<noteq> 0 \<Longrightarrow> utf8_char_len (xs @ ys) = utf8_char_len xs"
  by (cases xs rule: list_cases4) (simp_all add: utf8_char_len_def split: if_splits)

lemma utf8_ok_append: "utf8_ok xs \<Longrightarrow> utf8_ok ys \<Longrightarrow> utf8_ok (xs @ ys)"
proof (induction xs rule: utf8_ok.induct)
  case (1 xs)
  show ?case
  proof (cases "xs = []")
    case False
    with 1(2) have n: "utf8_char_len xs \<noteq> 0" "utf8_ok (drop (utf8_char_len xs) xs)"
      by (subst (asm) utf8_ok.simps; simp split: if_splits)+
    with 1(1) [OF False] 1(3) have "utf8_ok (drop (utf8_char_len xs) xs @ ys)" by simp
    with n False utf8_char_len_bounds [OF n(1)] show ?thesis
      by (subst utf8_ok.simps) (simp add: utf8_char_len_append)
  qed (use 1 in simp)
qed

lemma utf8_ok_char: "c \<in> set '';|'' \<Longrightarrow> utf8_ok (as_bytes [c])"
  by (rule utf8_ascii) auto

lemma service_text:
  assumes "service_wf s"
  shows "utf8_ok (as_bytes (service_into s))" and "service_into s \<noteq> []"
    and "CHR '';'' \<notin> set (service_into s)" and "service_try_from (service_into s) = Inr s"
proof -
  have "as_bytes (service_into s) = as_bytes (sv_service s) @ as_bytes ''|'' @ as_bytes (sv_domain s) @
      as_bytes ''|'' @ as_bytes (sv_name s)"
    by (simp add: service_into_def as_bytes_def)
  with assms utf8_ok_char [of "CHR ''|''"] show "utf8_ok (as_bytes (service_into s))"
    by (auto simp: service_wf_def service_field_def intro!: utf8_ok_append)
qed (use assms in \<open>auto simp: service_wf_def service_field_def service_into_def service_try_from_def\<close>)

lemma joined_services:
  assumes "list_all service_wf ss" and "ss \<noteq> []"
  shows "utf8_ok (as_bytes (join_with CHR '';'' (map service_into ss))) \<and>
    read_services (split_on CHR '';'' (join_with CHR '';'' (map service_into ss))) = Inr ss"
  using assms
proof (induction ss rule: induct_list012)
  case (3 s t ss)
  let ?rest = "join_with CHR '';'' (map service_into (t # ss))"
  have "as_bytes (service_into s @ CHR '';'' # ?rest) =
      as_bytes (service_into s) @ as_bytes '';'' @ as_bytes ?rest"
    by (simp add: as_bytes_def)
  with 3 service_text [of s] utf8_ok_char [of "CHR '';''"] show ?case
    by (auto intro!: utf8_ok_append)
qed (auto simp: service_text)

lemma services_roundtrip:
  "list_all service_wf ss \<Longrightarrow> deserialize_services (serialize_services ss) = Inr ss"
proof (cases "ss = []")
  case False
  assume wf: "list_all service_wf ss"
  have "join_with CHR '';'' (map service_into ss) \<noteq> []"
    using False wf service_text(2) by (cases ss rule: remdups_adj.cases) auto
  with joined_services [OF wf False] False show ?thesis
    by (simp add: serialize_services_def deserialize_services_def from_utf8_def)
qed (simp add: serialize_services_def deserialize_services_def)

section \<open>The limiter of the rate of requests\<close>

record RateLimiter =
  rl_limit :: u64
  rl_window :: u64
  rl_request_count :: u64
  rl_last_request_time :: u64

text \<open>The duration of the window is in milliseconds.\<close>

definition rl_builder :: "u64 \<Rightarrow> u64 \<Rightarrow> RateLimiter" where
  "rl_builder count duration = \<lparr>rl_limit = count, rl_window = duration, rl_request_count = 0,
     rl_last_request_time = 0\<rparr>"

definition rl_set_limit :: "u64 \<Rightarrow> RateLimiter \<Rightarrow> RateLimiter" where
  "rl_set_limit limit rl = rl\<lparr>rl_limit := limit\<rparr>"

definition rl_set_window :: "u64 \<Rightarrow> RateLimiter \<Rightarrow> RateLimiter" where
  "rl_set_window window rl = rl\<lparr>rl_window := window\<rparr>"

definition rl_has_limit_exceeded :: "u64 \<Rightarrow> RateLimiter \<Rightarrow> bool \<times> RateLimiter" where
  "rl_has_limit_exceeded current_time rl =
     (let rl1 = (if sat_sub current_time (rl_last_request_time rl) > rl_window rl
                 then rl\<lparr>rl_request_count := 0, rl_last_request_time := current_time\<rparr> else rl)
      in (rl_request_count rl1 \<ge> rl_limit rl1, rl1))"

definition rl_increase :: "RateLimiter \<Rightarrow> RateLimiter" where
  "rl_increase rl = rl\<lparr>rl_request_count := rl_request_count rl + 1\<rparr>"

text \<open>How the callers use it: the request is counted, then checked. The requests let through.\<close>

definition rl_request :: "u64 \<Rightarrow> RateLimiter \<Rightarrow> bool \<times> RateLimiter" where
  "rl_request t rl = rl_has_limit_exceeded t (rl_increase rl)"

fun rl_accepted :: "u64 list \<Rightarrow> RateLimiter \<Rightarrow> nat" where
  "rl_accepted [] rl = 0"
| "rl_accepted (t # ts) rl =
     (let (exceeded, rl') = rl_request t rl in (if exceeded then 0 else 1) + rl_accepted ts rl')"

lemma rl_request_cases:
  assumes "rl_request t rl = (x, rl')"
  obtains (same) "\<not> sat_sub t (rl_last_request_time rl) > rl_window rl" "rl' = rl_increase rl"
      "x \<longleftrightarrow> rl_request_count rl + 1 \<ge> rl_limit rl"
    | (reset) "sat_sub t (rl_last_request_time rl) > rl_window rl" "x \<longleftrightarrow> rl_limit rl = 0"
      "rl' = rl\<lparr>rl_request_count := 0, rl_last_request_time := t\<rparr>"
  using assms
  by (auto simp: rl_request_def rl_has_limit_exceeded_def rl_increase_def Let_def split: if_splits)

lemma unat_count_Suc: "unat (n :: u64) + 1 < 2 ^ 64 \<Longrightarrow> unat (n + 1) = unat n + 1"
  by (simp add: unat_word_ariths)

text \<open>Within one window the count goes up to the limit.\<close>

lemma rl_accepted_window:
  assumes "\<forall>t \<in> set ts. \<not> sat_sub t (rl_last_request_time rl) > rl_window rl"
    and "unat (rl_request_count rl) + length ts < 2 ^ 64"
  shows "rl_accepted ts rl \<le> unat (rl_limit rl) - 1 - unat (rl_request_count rl)"
  using assms
proof (induction ts arbitrary: rl)
  case (Cons t ts)
  obtain x rl' where r: "rl_request t rl = (x, rl')" by force
  with Cons.prems(1) have rl': "rl' = rl_increase rl" "x \<longleftrightarrow> rl_request_count rl + 1 \<ge> rl_limit rl"
    by (auto elim: rl_request_cases)
  have "unat (rl_request_count rl + 1) = unat (rl_request_count rl) + 1"
    using Cons.prems(2) by (intro unat_count_Suc) simp
  with Cons.IH [of rl'] Cons.prems r rl' show ?case
    by (auto simp: rl_increase_def word_le_nat_alt)
qed simp

lemma rl_accepted_spike:
  assumes "sorted ts" and "\<forall>t \<in> set ts. a \<le> t \<and> t - a \<le> rl_window rl"
    and "unat (rl_request_count rl) + length ts < 2 ^ 64"
  shows "rl_accepted ts rl \<le> (unat (rl_limit rl) - 1 - unat (rl_request_count rl)) + unat (rl_limit rl)"
  using assms
proof (induction ts arbitrary: rl)
  case (Cons t ts)
  obtain x rl' where r: "rl_request t rl = (x, rl')" by force
  then show ?case
  proof (cases rule: rl_request_cases)
    case same
    have "unat (rl_request_count rl + 1) = unat (rl_request_count rl) + 1"
      using Cons.prems(3) by (intro unat_count_Suc) simp
    with Cons.IH [of rl'] Cons.prems r same show ?thesis
      by (auto simp: rl_increase_def word_le_nat_alt)
  next
    case reset
    have "\<not> sat_sub u t > rl_window rl" if "u \<in> set ts" for u
    proof -
      have "a \<le> t" "t \<le> u" "u - a \<le> rl_window rl" using Cons.prems(1,2) that by auto
      then have "u - t \<le> u - a" by (simp add: word_le_nat_alt unat_sub)
      with \<open>t \<le> u\<close> \<open>u - a \<le> rl_window rl\<close> show ?thesis by (simp add: sat_sub_def)
    qed
    then have "rl_accepted ts rl' \<le> unat (rl_limit rl) - 1"
      using rl_accepted_window [of ts rl'] reset Cons.prems(3) by simp
    moreover have "\<not> x \<Longrightarrow> unat (rl_limit rl) > 0"
      using reset by (simp add: unat_gt_0)
    ultimately show ?thesis using r by auto
  qed
qed simp

text \<open>
  C39. In any stretch of time as long as the window of a limiter, however the requests are spaced
  in it, fewer than twice the limit are let through; the requests of a quiet peer that come
  just before and just after a window ends do reach that number.
\<close>

theorem rate_limit_bound:
  assumes "sorted ts" and "\<forall>t \<in> set ts. a \<le> t \<and> t - a \<le> rl_window rl"
    and "unat (rl_request_count rl) + length ts < 2 ^ 64" and "0 < rl_limit rl"
  shows "rl_accepted ts rl < 2 * unat (rl_limit rl)"
proof -
  have "0 < unat (rl_limit rl)" using assms(4) by (simp add: unat_gt_0 word_neq_0_conv)
  with rl_accepted_spike [OF assms(1-3)] show ?thesis by linarith
qed

theorem rate_limit_bound_witness:
  "rl_accepted [10, 11, 12, 13] (rl_builder 2 10) = 2 * unat (rl_limit (rl_builder 2 10)) - 1 \<and>
   rl_accepted [10, 11, 12, 13] (rl_builder 2 10) < 4"
proof -
  have e: "rl_accepted [10, 11, 12, 13] (rl_builder 2 10) = 3"
    by (simp add: rl_builder_def rl_request_def rl_has_limit_exceeded_def rl_increase_def sat_sub_def)
      (simp add: word_le_nat_alt)
  have "rl_accepted [10, 11, 12, 13] (rl_builder 2 10) < 2 * unat (rl_limit (rl_builder 2 10))"
    by (rule rate_limit_bound [of _ 10]) (simp_all add: rl_builder_def)
  with e show ?thesis by (simp add: rl_builder_def)
qed

end
