(* ===== verification/Messages.thy ===== *)
theory Messages
  imports Peer_Data Block_Codec
begin

text \<open>
  The messages nodes exchange (\<^verbatim>\<open>msg/message.rs\<close> and the formats of
  \<^verbatim>\<open>msg/handshake.rs\<close>, \<^verbatim>\<open>msg/block_request.rs\<close>,
  \<^verbatim>\<open>msg/ghost_chain_sync.rs\<close>, \<^verbatim>\<open>msg/api_message.rs\<close>): encoding, decoding, the
  round trip of every kind of message and the buffers on which a decoder panics.
\<close>

section \<open>Handshakes\<close>

record HandshakeChallenge =
  hc_challenge :: bytes

record HandshakeResponse =
  hr_public_key :: bytes
  hr_signature :: bytes
  hr_is_lite :: bool
  hr_block_fetch_url :: string
  hr_challenge :: bytes
  hr_services :: "PeerService list"
  hr_wallet_version :: Version
  hr_core_version :: Version

definition handshake_challenge_serialize :: "HandshakeChallenge \<Rightarrow> bytes" where
  "handshake_challenge_serialize c = hc_challenge c"

definition handshake_challenge_deserialize :: "bytes \<Rightarrow> HandshakeChallenge res" where
  "handshake_challenge_deserialize buffer =
     (if length buffer < 32 then Inl InvalidData
      else Inr \<lparr>hc_challenge = subslice 0 32 buffer\<rparr>)"

definition bool_byte :: "bool \<Rightarrow> u8" where
  "bool_byte b = (if b then 1 else 0)"

definition handshake_response_serialize :: "HandshakeResponse \<Rightarrow> bytes" where
  "handshake_response_serialize r =
     version_serialize (hr_core_version r) @
     version_serialize (hr_wallet_version r) @
     hr_public_key r @
     hr_signature r @
     hr_challenge r @
     [bool_byte (hr_is_lite r)] @
     to_be (of_nat (length (hr_block_fetch_url r)) :: u32) @
     as_bytes (hr_block_fetch_url r) @
     serialize_services (hr_services r)"

definition HANDSHAKE_MIN_LEN :: nat where
  "HANDSHAKE_MIN_LEN = 142"

definition handshake_response_deserialize :: "bytes \<Rightarrow> HandshakeResponse res" where
  "handshake_response_deserialize buffer =
     (if length buffer < HANDSHAKE_MIN_LEN then Inl InvalidData
      else
        rbind (version_deserialize (subslice 0 4 buffer)) (\<lambda>core_version.
        rbind (version_deserialize (subslice 4 8 buffer)) (\<lambda>wallet_version.
          let response = \<lparr>hr_public_key = subslice 8 41 buffer, hr_signature = subslice 41 105 buffer,
                hr_is_lite = buffer ! 137 \<noteq> 0, hr_block_fetch_url = [],
                hr_challenge = subslice 105 137 buffer, hr_services = [],
                hr_wallet_version = wallet_version, hr_core_version = core_version\<rparr>;
              url_length = unat (from_be (subslice 138 142 buffer) :: u32)
          in
          rbind (if url_length > 0 then
                   if length buffer < HANDSHAKE_MIN_LEN + url_length then Inl InvalidData
                   else rbind (from_utf8 (subslice HANDSHAKE_MIN_LEN (HANDSHAKE_MIN_LEN + url_length) buffer))
                          (\<lambda>url. Inr (response\<lparr>hr_block_fetch_url := url\<rparr>))
                 else Inr response) (\<lambda>response.
          if length buffer > HANDSHAKE_MIN_LEN + url_length then
            rbind (deserialize_services (drop (HANDSHAKE_MIN_LEN + url_length) buffer)) (\<lambda>services.
              Inr (response\<lparr>hr_services := services\<rparr>))
          else Inr response))))"

section \<open>Requests, application messages and ghost chains\<close>

record BlockchainRequest =
  rq_latest_block_id :: u64
  rq_latest_block_hash :: bytes
  rq_fork_id :: bytes

definition blockchain_request_serialize :: "BlockchainRequest \<Rightarrow> bytes" where
  "blockchain_request_serialize r =
     to_be (rq_latest_block_id r) @ rq_latest_block_hash r @ rq_fork_id r"

definition blockchain_request_deserialize :: "bytes \<Rightarrow> BlockchainRequest res" where
  "blockchain_request_deserialize buffer =
     (if length buffer \<noteq> 72 then Inl InvalidData
      else Inr \<lparr>rq_latest_block_id = from_be (subslice 0 8 buffer),
        rq_latest_block_hash = subslice 8 40 buffer, rq_fork_id = subslice 40 72 buffer\<rparr>)"

record ApiMessage =
  am_msg_index :: u32
  am_data :: bytes

definition api_message_serialize :: "ApiMessage \<Rightarrow> bytes" where
  "api_message_serialize m = to_be (am_msg_index m) @ am_data m"

definition api_message_deserialize :: "bytes \<Rightarrow> ApiMessage res" where
  "api_message_deserialize buffer =
     rbind (slice_r 0 4 buffer) (\<lambda>index.
       Inr \<lparr>am_msg_index = from_be index, am_data = drop 4 buffer\<rparr>)"

record GhostChainSync =
  gc_start :: bytes
  gc_prehashes :: "bytes list"
  gc_previous_block_hashes :: "bytes list"
  gc_block_ids :: "u64 list"
  gc_block_ts :: "u64 list"
  gc_txs :: "bool list"
  gc_gts :: "bool list"

definition ghost_chain_serialize :: "GhostChainSync \<Rightarrow> bytes" where
  "ghost_chain_serialize g =
     gc_start g @
     to_be (of_nat (length (gc_prehashes g)) :: u32) @
     concat (gc_prehashes g) @
     concat (gc_previous_block_hashes g) @
     concat (map to_be (gc_block_ids g)) @
     concat (map to_be (gc_block_ts g)) @
     map bool_byte (gc_txs g) @
     map bool_byte (gc_gts g)"

text \<open>\<^verbatim>\<open>buf[i * w..(i + 1) * w].try_into()\<close> for each record of a section.\<close>

definition read_hash :: "bytes \<Rightarrow> bytes res" where
  "read_hash c = Inr c"

definition read_u64 :: "bytes \<Rightarrow> u64 res" where
  "read_u64 c = Inr (from_be c)"

definition read_flags :: "nat \<Rightarrow> bytes \<Rightarrow> bool list" where
  "read_flags count buf = map (\<lambda>i. buf ! i \<noteq> 0) [0..<count]"

definition ghost_chain_deserialize :: "bytes \<Rightarrow> GhostChainSync res" where
  "ghost_chain_deserialize bytes =
     rbind (slice_r 0 32 bytes) (\<lambda>start.
     rbind (slice_r 32 36 bytes) (\<lambda>c.
       let count = unat (from_be c :: u32); buffer = drop 36 bytes in
       rbind (slice_r 0 (count * 32) buffer) (\<lambda>buf.
       rbind (decode_seq read_hash 32 0 count buf) (\<lambda>prehashes.
       rbind (slice_r (count * 32) (count * 64) buffer) (\<lambda>buf.
       rbind (decode_seq read_hash 32 0 count buf) (\<lambda>previous_block_hashes.
       rbind (slice_r (count * 64) (count * 72) buffer) (\<lambda>buf.
       rbind (decode_seq read_u64 8 0 count buf) (\<lambda>block_ids.
       rbind (slice_r (count * 72) (count * 80) buffer) (\<lambda>buf.
       rbind (decode_seq read_u64 8 0 count buf) (\<lambda>block_ts.
       rbind (slice_r (count * 80) (count * 81) buffer) (\<lambda>txs.
       rbind (slice_r (count * 81) (count * 82) buffer) (\<lambda>gts.
         Inr \<lparr>gc_start = start, gc_prehashes = prehashes,
           gc_previous_block_hashes = previous_block_hashes, gc_block_ids = block_ids,
           gc_block_ts = block_ts, gc_txs = read_flags count txs, gc_gts = read_flags count gts\<rparr>))))))))))))"

section \<open>Messages\<close>

datatype Message =
    Msg_HandshakeChallenge HandshakeChallenge
  | Msg_HandshakeResponse HandshakeResponse
  | Msg_Block block
  | Msg_Transaction transaction
  | Msg_BlockchainRequest BlockchainRequest
  | Msg_BlockHeaderHash bytes u64
  | Msg_Ping
  | Msg_SPVChain
  | Msg_Services "PeerService list"
  | Msg_GhostChain GhostChainSync
  | Msg_GhostChainRequest u64 bytes bytes
  | Msg_ApplicationMessage ApiMessage
  | Msg_Result ApiMessage
  | Msg_Error ApiMessage
  | Msg_KeyListUpdate "bytes list"

fun message_type_value :: "Message \<Rightarrow> u8" where
  "message_type_value (Msg_HandshakeChallenge _) = 1"
| "message_type_value (Msg_HandshakeResponse _) = 2"
| "message_type_value (Msg_Block _) = 3"
| "message_type_value (Msg_Transaction _) = 4"
| "message_type_value (Msg_BlockchainRequest _) = 5"
| "message_type_value (Msg_BlockHeaderHash _ _) = 6"
| "message_type_value Msg_Ping = 7"
| "message_type_value Msg_SPVChain = 8"
| "message_type_value (Msg_Services _) = 9"
| "message_type_value (Msg_GhostChain _) = 10"
| "message_type_value (Msg_GhostChainRequest _ _ _) = 11"
| "message_type_value (Msg_ApplicationMessage _) = 12"
| "message_type_value (Msg_Result _) = 13"
| "message_type_value (Msg_Error _) = 14"
| "message_type_value (Msg_KeyListUpdate _) = 15"

fun message_payload :: "Message \<Rightarrow> bytes" where
  "message_payload (Msg_HandshakeChallenge c) = handshake_challenge_serialize c"
| "message_payload (Msg_HandshakeResponse r) = handshake_response_serialize r"
| "message_payload (Msg_Block b) = block_serialize_for_net BT_Full b"
| "message_payload (Msg_Transaction tx) = tx_serialize_for_net tx"
| "message_payload (Msg_BlockchainRequest r) = blockchain_request_serialize r"
| "message_payload (Msg_BlockHeaderHash block_hash block_id) = block_hash @ to_be block_id"
| "message_payload Msg_Ping = []"
| "message_payload Msg_SPVChain = []"
| "message_payload (Msg_Services services) = serialize_services services"
| "message_payload (Msg_GhostChain g) = ghost_chain_serialize g"
| "message_payload (Msg_GhostChainRequest block_id block_hash fork_id) =
     to_be block_id @ block_hash @ fork_id"
| "message_payload (Msg_ApplicationMessage m) = api_message_serialize m"
| "message_payload (Msg_Result m) = api_message_serialize m"
| "message_payload (Msg_Error m) = api_message_serialize m"
| "message_payload (Msg_KeyListUpdate keys) = concat keys"

definition message_serialize :: "Message \<Rightarrow> bytes" where
  "message_serialize m = message_type_value m # message_payload m"

definition api_message_of :: "(ApiMessage \<Rightarrow> Message) \<Rightarrow> bytes \<Rightarrow> Message res" where
  "api_message_of con buffer =
     (if length buffer < 4 then Inl InvalidData
      else rbind (api_message_deserialize buffer) (\<lambda>m. Inr (con m)))"

definition message_deserialize :: "bytes \<Rightarrow> Message res" where
  "message_deserialize bytes =
     (case bytes of
        [] \<Rightarrow> Inl InvalidData
      | message_type # buffer \<Rightarrow>
          if message_type = 1 then
            rbind (handshake_challenge_deserialize buffer) (\<lambda>c. Inr (Msg_HandshakeChallenge c))
          else if message_type = 2 then
            rbind (handshake_response_deserialize buffer) (\<lambda>r. Inr (Msg_HandshakeResponse r))
          else if message_type = 3 then
            rbind (block_deserialize_from_net buffer) (\<lambda>b. Inr (Msg_Block b))
          else if message_type = 4 then
            rbind (tx_deserialize_from_net buffer) (\<lambda>tx. Inr (Msg_Transaction tx))
          else if message_type = 5 then
            rbind (blockchain_request_deserialize buffer) (\<lambda>r. Inr (Msg_BlockchainRequest r))
          else if message_type = 6 then
            if length buffer \<noteq> 40 then Inl InvalidData
            else Inr (Msg_BlockHeaderHash (subslice 0 32 buffer) (from_be (subslice 32 40 buffer)))
          else if message_type = 7 then Inr Msg_Ping
          else if message_type = 8 then Inr Msg_SPVChain
          else if message_type = 9 then
            rbind (deserialize_services buffer) (\<lambda>services. Inr (Msg_Services services))
          else if message_type = 10 then
            rbind (ghost_chain_deserialize buffer) (\<lambda>g. Inr (Msg_GhostChain g))
          else if message_type = 11 then
            if length buffer \<noteq> 72 then Inl InvalidData
            else Inr (Msg_GhostChainRequest (from_be (subslice 0 8 buffer)) (subslice 8 40 buffer)
                        (subslice 40 72 buffer))
          else if message_type = 12 then api_message_of Msg_ApplicationMessage buffer
          else if message_type = 13 then api_message_of Msg_Result buffer
          else if message_type = 14 then api_message_of Msg_Error buffer
          else if message_type = 15 then
            if length buffer mod 33 \<noteq> 0 then Inl InvalidData
            else rbind (decode_seq read_hash 33 0 (length buffer div 33) buffer) (\<lambda>keys.
                   Inr (Msg_KeyListUpdate keys))
          else Inl InvalidData)"

section \<open>Formats\<close>

interpretation raw: fixed_codec "\<lambda>h. h" read_hash n "\<lambda>h. length h = n" "\<lambda>h. h" for n
  by unfold_locales (simp_all add: read_hash_def)

interpretation word64: fixed_codec to_be read_u64 8 "\<lambda>_. True" "\<lambda>w. w"
  by unfold_locales (auto simp: read_u64_def to_be_from_be_word)

lemma read_flags_map [simp]: "length ts = n \<Longrightarrow> read_flags n (map bool_byte ts) = ts"
  by (auto simp: read_flags_def bool_byte_def intro!: nth_equalityI split: if_splits)

lemma slice_r_mid:
  "length xs = a \<Longrightarrow> length ys = b - a \<Longrightarrow> a \<le> b \<Longrightarrow> slice_r a b (xs @ ys @ zs) = Inr ys"
  by (auto simp: slice_r_def slice_append_mid)

text \<open>What travels: lists of one length, hashes of 32 bytes, a count of 32 bits.\<close>

definition ghost_chain_wf :: "GhostChainSync \<Rightarrow> bool" where
  "ghost_chain_wf g \<longleftrightarrow> length (gc_start g) = 32 \<and> length (gc_prehashes g) < 2 ^ 32 \<and>
     list_all (\<lambda>h. length h = 32) (gc_prehashes g) \<and>
     list_all (\<lambda>h. length h = 32) (gc_previous_block_hashes g) \<and>
     length (gc_previous_block_hashes g) = length (gc_prehashes g) \<and>
     length (gc_block_ids g) = length (gc_prehashes g) \<and> length (gc_block_ts g) = length (gc_prehashes g) \<and>
     length (gc_txs g) = length (gc_prehashes g) \<and> length (gc_gts g) = length (gc_prehashes g)"

lemma ghost_chain_roundtrip:
  assumes "ghost_chain_wf g"
  shows "ghost_chain_deserialize (ghost_chain_serialize g) = Inr g"
proof -
  let ?n = "length (gc_prehashes g)" and ?c = "to_be (of_nat (length (gc_prehashes g)) :: u32)"
  let ?A = "concat (gc_prehashes g)" and ?B = "concat (gc_previous_block_hashes g)"
  let ?C = "concat (map to_be (gc_block_ids g))" and ?D = "concat (map to_be (gc_block_ts g))"
  let ?E = "map bool_byte (gc_txs g)" and ?F = "map bool_byte (gc_gts g)"
  note wf = assms [unfolded ghost_chain_wf_def]
  have len: "length ?A = ?n * 32" "length ?B = ?n * 32" "length ?C = ?n * 8" "length ?D = ?n * 8"
    "length ?E = ?n" "length ?F = ?n"
    using wf raw.length_concat_enc [of 32 "gc_prehashes g"] raw.length_concat_enc [of 32 "gc_previous_block_hashes g"]
      word64.length_concat_enc [of "gc_block_ids g"] word64.length_concat_enc [of "gc_block_ts g"]
    by (simp_all add: list_all_iff mult.commute)
  have n: "unat (of_nat ?n :: u32) = ?n" using wf by (intro unat_of_nat_u32) simp
  have h: "slice_r 0 32 (ghost_chain_serialize g) = Inr (gc_start g)"
    "slice_r 32 36 (ghost_chain_serialize g) = Inr ?c"
    "drop 36 (ghost_chain_serialize g) = ?A @ ?B @ ?C @ ?D @ ?E @ ?F"
    using wf slice_r_mid [of "[]" 0 "gc_start g" 32] slice_r_mid [of "gc_start g" 32 ?c 36]
    by (auto simp: ghost_chain_serialize_def)
  have s: "slice_r 0 (?n * 32) (?A @ ?B @ ?C @ ?D @ ?E @ ?F) = Inr ?A"
    "slice_r (?n * 32) (?n * 64) (?A @ ?B @ ?C @ ?D @ ?E @ ?F) = Inr ?B"
    "slice_r (?n * 64) (?n * 72) (?A @ ?B @ ?C @ ?D @ ?E @ ?F) = Inr ?C"
    "slice_r (?n * 72) (?n * 80) (?A @ ?B @ ?C @ ?D @ ?E @ ?F) = Inr ?D"
    "slice_r (?n * 80) (?n * 81) (?A @ ?B @ ?C @ ?D @ ?E @ ?F) = Inr ?E"
    "slice_r (?n * 81) (?n * 82) (?A @ ?B @ ?C @ ?D @ ?E @ ?F) = Inr ?F"
    using len slice_r_mid [of "[]" 0 ?A] slice_r_mid [of ?A _ ?B] slice_r_mid [of "?A @ ?B" _ ?C]
      slice_r_mid [of "?A @ ?B @ ?C" _ ?D] slice_r_mid [of "?A @ ?B @ ?C @ ?D" _ ?E]
      slice_r_mid [of "?A @ ?B @ ?C @ ?D @ ?E" _ ?F _ "[]"]
    by simp_all
  have "decode_seq read_hash 32 0 ?n ?A = Inr (gc_prehashes g)"
    "decode_seq read_hash 32 0 ?n ?B = Inr (gc_previous_block_hashes g)"
    using wf raw.decode_seq_concat [of 32 "gc_prehashes g" "[]" 0 "[]"]
      raw.decode_seq_concat [of 32 "gc_previous_block_hashes g" "[]" 0 "[]"]
    by simp_all
  moreover have "decode_seq read_u64 8 0 ?n ?C = Inr (gc_block_ids g)"
    "decode_seq read_u64 8 0 ?n ?D = Inr (gc_block_ts g)"
    using wf word64.decode_seq_concat [of "gc_block_ids g" "[]" 0 "[]"]
      word64.decode_seq_concat [of "gc_block_ts g" "[]" 0 "[]"]
    by (simp_all add: list_all_iff)
  ultimately show ?thesis
    using wf n h by (simp add: ghost_chain_deserialize_def s Let_def)
qed

definition handshake_response_wf :: "HandshakeResponse \<Rightarrow> bool" where
  "handshake_response_wf r \<longleftrightarrow> length (hr_public_key r) = 33 \<and> length (hr_signature r) = 64 \<and>
     length (hr_challenge r) = 32 \<and> utf8_ok (as_bytes (hr_block_fetch_url r)) \<and>
     length (hr_block_fetch_url r) < 2 ^ 32 \<and> list_all service_wf (hr_services r)"

lemma length_as_bytes [simp]: "length (as_bytes s) = length s"
  by (simp add: as_bytes_def)

lemma handshake_response_roundtrip:
  assumes "handshake_response_wf r"
  shows "handshake_response_deserialize (handshake_response_serialize r) = Inr r"
proof -
  let ?cv = "version_serialize (hr_core_version r)" and ?wv = "version_serialize (hr_wallet_version r)"
  let ?u = "as_bytes (hr_block_fetch_url r)" and ?s = "serialize_services (hr_services r)"
  let ?l = "to_be (of_nat (length (hr_block_fetch_url r)) :: u32)"
  let ?buf = "handshake_response_serialize r"
  note wf = assms [unfolded handshake_response_wf_def]
  define pre where "pre = ?cv @ ?wv @ hr_public_key r @ hr_signature r @ hr_challenge r @
    [bool_byte (hr_is_lite r)] @ ?l"
  have pre: "length pre = 142" "?buf = pre @ ?u @ ?s"
    using wf by (simp_all add: pre_def handshake_response_serialize_def)
  have fields: "subslice 0 4 ?buf = ?cv" "subslice 4 8 ?buf = ?wv" "subslice 8 41 ?buf = hr_public_key r"
    "subslice 41 105 ?buf = hr_signature r" "subslice 105 137 ?buf = hr_challenge r"
    "?buf ! 137 = bool_byte (hr_is_lite r)" "subslice 138 142 ?buf = ?l"
    using wf by (simp_all add: handshake_response_serialize_def subslice_def nth_append)
  have n: "unat (of_nat (length (hr_block_fetch_url r)) :: u32) = length (hr_block_fetch_url r)"
    using wf by (intro unat_of_nat_u32) simp
  have v: "version_deserialize ?cv = Inr (hr_core_version r)" "version_deserialize ?wv = Inr (hr_wallet_version r)"
    using version.dec_enc by simp_all
  have u: "subslice 142 (142 + length (hr_block_fetch_url r)) ?buf = ?u"
    "drop (142 + length (hr_block_fetch_url r)) ?buf = ?s"
    "length ?buf = 142 + length (hr_block_fetch_url r) + length ?s"
    using pre by (simp_all add: subslice_def)
  have "from_utf8 ?u = Inr (hr_block_fetch_url r)" using wf by (simp add: from_utf8_def)
  moreover have "deserialize_services ?s = Inr (hr_services r)" using wf by (simp add: services_roundtrip)
  moreover from this have "?s = [] \<Longrightarrow> hr_services r = []" by (simp add: deserialize_services_def)
  moreover have "hr_block_fetch_url r = [] \<Longrightarrow> drop 142 ?buf = ?s" using u(2) by simp
  ultimately show ?thesis
    by (auto simp: handshake_response_deserialize_def HANDSHAKE_MIN_LEN_def fields n v u Let_def bool_byte_def
        intro!: HandshakeResponse.equality)
qed

section \<open>The round trip of messages\<close>

text \<open>What fits the format, and what of a block or transaction travels.\<close>

fun message_wf :: "Message \<Rightarrow> bool" where
  "message_wf (Msg_HandshakeChallenge c) = (length (hc_challenge c) = 32)"
| "message_wf (Msg_HandshakeResponse r) = handshake_response_wf r"
| "message_wf (Msg_Block b) = (block_wf b \<and> list_all tx_fits (b_transactions b) \<and> length (b_transactions b) < 2 ^ 32)"
| "message_wf (Msg_Transaction tx) = (tx_wf tx \<and> tx_fits tx)"
| "message_wf (Msg_BlockchainRequest r) = (length (rq_latest_block_hash r) = 32 \<and> length (rq_fork_id r) = 32)"
| "message_wf (Msg_BlockHeaderHash h i) = (length h = 32)"
| "message_wf (Msg_Services services) = list_all service_wf services"
| "message_wf (Msg_GhostChain g) = ghost_chain_wf g"
| "message_wf (Msg_GhostChainRequest i h f) = (length h = 32 \<and> length f = 32)"
| "message_wf (Msg_KeyListUpdate keys) = list_all (\<lambda>k. length k = 33) keys"
| "message_wf _ = True"

fun message_wire :: "Message \<Rightarrow> Message" where
  "message_wire (Msg_Block b) = Msg_Block (block_wire (b_transactions b) b)"
| "message_wire (Msg_Transaction tx) = Msg_Transaction (tx_wire tx)"
| "message_wire m = m"

lemma block_request_roundtrip:
  "length (rq_latest_block_hash r) = 32 \<Longrightarrow> length (rq_fork_id r) = 32 \<Longrightarrow>
   blockchain_request_deserialize (blockchain_request_serialize r) = Inr r"
  by (simp add: blockchain_request_deserialize_def blockchain_request_serialize_def subslice_def)

lemma api_message_roundtrip: "api_message_of con (api_message_serialize m) = Inr (con m)"
  by (cases m) (simp add: api_message_of_def api_message_deserialize_def api_message_serialize_def slice_r_def
      subslice_def)

lemma key_list_roundtrip:
  assumes "list_all (\<lambda>k. length k = 33) keys"
  shows "length (concat keys) mod 33 = 0 \<and>
    decode_seq read_hash 33 0 (length (concat keys) div 33) (concat keys) = Inr keys"
  using raw.length_concat_enc [of 33 keys] raw.decode_seq_concat [of 33 keys "[]" 0 "[]"] assms by simp

lemma message_decode_encode:
  assumes "message_wf m"
  shows "message_deserialize (message_serialize m) = Inr (message_wire m)"
proof (cases m)
  case (Msg_Block b)
  with assms block_decode_encode [of b "b_transactions b"] show ?thesis
    by (simp add: message_deserialize_def message_serialize_def block_serialize_layout Let_def block_wf_def)
next
  case (Msg_Transaction tx)
  with assms tx_decode_encode [of tx "[]"] show ?thesis
    by (simp add: message_deserialize_def message_serialize_def)
next
  case (Msg_KeyListUpdate keys)
  with assms key_list_roundtrip [of keys] show ?thesis
    by (simp add: message_deserialize_def message_serialize_def)
qed (use assms in \<open>simp_all add: message_deserialize_def message_serialize_def subslice_def
      handshake_challenge_serialize_def handshake_challenge_deserialize_def handshake_response_roundtrip
      block_request_roundtrip services_roundtrip ghost_chain_roundtrip api_message_roundtrip\<close>)

text \<open>
  C22. Every kind of message a node sends is read back by its peer from the buffer: handshakes with
  version, url and services, requests, block announcements, ghost chains, key lists and
  application messages exactly, blocks and transactions in the part that travels.
\<close>

theorem message_roundtrip:
  assumes "message_wf m"
  shows "message_deserialize (message_serialize m) = Inr (message_wire m)"
  using assms by (rule message_decode_encode)

theorem message_roundtrip_witness:
  "message_deserialize (message_serialize (Msg_GhostChain \<lparr>gc_start = replicate 32 1,
      gc_prehashes = [replicate 32 2], gc_previous_block_hashes = [replicate 32 3], gc_block_ids = [10],
      gc_block_ts = [100], gc_txs = [False], gc_gts = [True]\<rparr>)) =
    Inr (Msg_GhostChain \<lparr>gc_start = replicate 32 1,
      gc_prehashes = [replicate 32 2], gc_previous_block_hashes = [replicate 32 3], gc_block_ids = [10],
      gc_block_ts = [100], gc_txs = [False], gc_gts = [True]\<rparr>)"
  by (subst message_roundtrip) (simp_all add: ghost_chain_wf_def)

section \<open>Buffers that panic\<close>

text \<open>The reader of ghost chains has no error value: it returns or panics.\<close>

lemma decode_seq_total:
  assumes "\<And>c. \<exists>x. dec c = Inr x" and "base + w * n \<le> length bs"
  shows "\<exists>xs. decode_seq dec w base n bs = Inr xs"
  using assms(2)
proof (induction n arbitrary: base)
  case (Suc n)
  obtain x where "dec (subslice base (base + w) bs) = Inr x" using assms(1) by blast
  moreover obtain xs where "decode_seq dec w (base + w) n bs = Inr xs"
    using Suc.IH [of "base + w"] Suc.prems by (auto simp: algebra_simps)
  ultimately show ?case using Suc.prems by (simp add: slice_r_def)
qed simp

definition ghost_chain_truncated :: "bytes \<Rightarrow> bool" where
  "ghost_chain_truncated bs \<longleftrightarrow> length bs < 36 \<or>
     length bs < 36 + 82 * unat (from_be (subslice 32 36 bs) :: u32)"

definition only_panics :: "'a res \<Rightarrow> bool" where
  "only_panics m \<longleftrightarrow> (\<forall>e. m = Inl e \<longrightarrow> e = Panic)"

lemma only_panics_intros:
  "only_panics (Inr x)" "only_panics (slice_r a b xs)"
  by (auto simp: only_panics_def slice_r_def)

lemma only_panics_rbind: "only_panics m \<Longrightarrow> (\<And>x. only_panics (f x)) \<Longrightarrow> only_panics (rbind m f)"
  by (cases m) (auto simp: only_panics_def)

lemma only_panics_decode_seq: "(\<And>c. only_panics (dec c)) \<Longrightarrow> only_panics (decode_seq dec w base n bs)"
  by (induction n arbitrary: base) (simp_all add: only_panics_intros only_panics_rbind)

lemma ghost_chain_only_panics: "only_panics (ghost_chain_deserialize bs)"
  unfolding ghost_chain_deserialize_def Let_def
  by (intro only_panics_rbind only_panics_intros only_panics_decode_seq) (simp_all add: read_hash_def read_u64_def only_panics_intros)

lemma ghost_chain_returns_iff: "(\<exists>g. ghost_chain_deserialize bs = Inr g) \<longleftrightarrow> \<not> ghost_chain_truncated bs"
proof
  assume "\<exists>g. ghost_chain_deserialize bs = Inr g"
  then show "\<not> ghost_chain_truncated bs"
    by (auto simp: ghost_chain_deserialize_def ghost_chain_truncated_def slice_r_def Let_def split: if_splits)
next
  let ?n = "unat (from_be (subslice 32 36 bs) :: u32)" and ?b = "drop 36 bs"
  have seqs: "\<exists>xs. decode_seq read_hash 32 0 ?n (subslice i j ?b) = Inr xs"
    if "i \<le> j" "j \<le> length ?b" "j - i = 32 * ?n" for i j
    using that by (intro decode_seq_total) (simp_all add: read_hash_def)
  have words: "\<exists>xs. decode_seq read_u64 8 0 ?n (subslice i j ?b) = Inr xs"
    if "i \<le> j" "j \<le> length ?b" "j - i = 8 * ?n" for i j
    using that by (intro decode_seq_total) (simp_all add: read_u64_def)
  assume "\<not> ghost_chain_truncated bs"
  then have "36 \<le> length bs" "?n * 82 \<le> length ?b" by (auto simp: ghost_chain_truncated_def)
  with seqs [of 0 "?n * 32"] seqs [of "?n * 32" "?n * 64"] words [of "?n * 64" "?n * 72"]
    words [of "?n * 72" "?n * 80"]
  show "\<exists>g. ghost_chain_deserialize bs = Inr g"
    by (auto simp: ghost_chain_deserialize_def slice_r_def Let_def)
qed

lemma ghost_chain_panics: "ghost_chain_deserialize bs = Inl Panic \<longleftrightarrow> ghost_chain_truncated bs"
  using ghost_chain_only_panics [of bs] ghost_chain_returns_iff [of bs]
  by (cases "ghost_chain_deserialize bs") (auto simp: only_panics_def)

lemma rbind_eq_Inl: "rbind m f = Inl e \<longleftrightarrow> m = Inl e \<or> (\<exists>x. m = Inr x \<and> f x = Inl e)"
  by (cases m) auto

lemma services_no_panic: "deserialize_services bs \<noteq> Inl Panic"
proof -
  have "read_services ss \<noteq> Inl Panic" for ss
    by (induction ss) (auto simp: rbind_eq_Inl service_try_from_def split: list.splits)
  then show ?thesis
    by (auto simp: deserialize_services_def from_utf8_def rbind_eq_Inl split: if_splits)
qed

lemma handshake_no_panic:
  "handshake_challenge_deserialize bs \<noteq> Inl Panic" "handshake_response_deserialize bs \<noteq> Inl Panic"
  by (auto simp: handshake_challenge_deserialize_def handshake_response_deserialize_def Let_def
      version_deserialize_def from_utf8_def HANDSHAKE_MIN_LEN_def rbind_eq_Inl services_no_panic
      split: if_splits)

text \<open>
  Decoding a message panics on exactly two kinds of buffers, whatever a peer sends: a
  transaction whose reader panics, and a ghost chain shorter than the 36 bytes of its head or
  than the 82 bytes for each block it announces. Every other buffer gives a message or an error.
\<close>

theorem message_decoding_panics:
  "message_deserialize (t # buffer) = Inl Panic \<longleftrightarrow>
     t = 4 \<and> tx_deserialize_from_net buffer = Inl Panic \<or>
     t = 10 \<and> ghost_chain_truncated buffer"
proof -
  have r: "rbind m (\<lambda>x. Inr (f x)) = Inl Panic \<longleftrightarrow> m = Inl Panic" for m :: "'a res" and f :: "'a \<Rightarrow> Message"
    by (cases m) auto
  have k: "decode_seq read_hash 33 0 (length buffer div 33) buffer \<noteq> Inl Panic"
    using decode_seq_total [of read_hash 0 33 "length buffer div 33" buffer] by (force simp: read_hash_def)
  have a: "api_message_of con buffer \<noteq> Inl Panic" for con
    by (simp add: api_message_of_def api_message_deserialize_def slice_r_def)
  have q: "blockchain_request_deserialize buffer \<noteq> Inl Panic"
    by (simp add: blockchain_request_deserialize_def)
  show ?thesis
    by (auto simp: message_deserialize_def r k a q handshake_no_panic block_decode_no_panic
        services_no_panic ghost_chain_panics)
qed

end
