(* ===== verification/Peers.thy ===== *)
theory Peers
  imports Messages Wallet "HOL-Library.AList"
begin

text \<open>
  Peers (\<^verbatim>\<open>consensus/peers/peer.rs\<close>) with the two sides of the handshake, and the
  collection of peers of a node (\<^verbatim>\<open>consensus/peers/peer_collection.rs\<close>). Calls of the
  input/output interface (\<^verbatim>\<open>io/interface_io.rs\<close>) are values, in the order in which
  they are made: their implementation (\<^verbatim>\<open>rust_io_handler.rs\<close>) puts an event into a
  channel and returns \<^verbatim>\<open>Ok\<close>. Time, random bytes and what the implementation and the
  configuration of a node provide are arguments.
\<close>

section \<open>The interface of a node to the outside\<close>

datatype InterfaceEvent =
    PeerHandshakeComplete u64
  | PeerConnectionDropped u64 bytes
  | PeerConnected u64
  | IE_BlockAddSuccess bytes u64
  | IE_WalletUpdate
  | NewVersionDetected u64 Version
  | StunPeerConnected u64
  | StunPeerDisconnected u64 bytes
  | BlockFetchStatus u64

datatype InterfaceIO =
    SendMessage u64 bytes
  | SendMessageToAll bytes "u64 list"
  | ConnectToPeer string u64
  | DisconnectFromPeer u64
  | FetchBlockFromPeer bytes u64 string u64
  | SendInterfaceEvent InterfaceEvent
  | ProcessApiCall bytes u32 u64
  | ProcessApiSuccess bytes u32 u64
  | ProcessApiError bytes u32 u64

record PeerConfig =
  pc_host :: string
  pc_port :: u16
  pc_protocol :: string
  pc_synctype :: string

text \<open>The configuration, the offered services and the versions that the wallet holds.\<close>

record node_env =
  ne_config :: node_config
  ne_block_fetch_url :: string
  ne_peer_configs :: "PeerConfig list"
  ne_my_services :: "PeerService list"
  ne_wallet_version :: Version
  ne_core_version :: Version

section \<open>Peers\<close>

datatype PeerType = PT_Default | PT_Stun

text \<open>A disconnected peer has the time of the next connection and the period of reconnection.\<close>

datatype PeerStatus = Disconnected u64 u64 | Connecting | Connected

record Peer =
  pe_index :: u64
  pe_peer_status :: PeerStatus
  pe_block_fetch_url :: string
  pe_static_peer_config :: "PeerConfig option"
  pe_challenge_for_peer :: "bytes option"
  pe_key_list :: "bytes list"
  pe_services :: "PeerService list"
  pe_last_msg_at :: u64
  pe_disconnected_at :: u64
  pe_wallet_version :: Version
  pe_core_version :: Version
  pe_key_list_limiter :: RateLimiter
  pe_handshake_limiter :: RateLimiter
  pe_message_limiter :: RateLimiter
  pe_invalid_block_limiter :: RateLimiter
  pe_public_key :: "bytes option"
  pe_peer_type :: PeerType
  pe_ip_address :: "string option"

definition peer_new :: "u64 \<Rightarrow> Peer" where
  "peer_new peer_index = \<lparr>pe_index = peer_index, pe_peer_status = Disconnected 0 1000,
     pe_block_fetch_url = [], pe_static_peer_config = None, pe_challenge_for_peer = None,
     pe_key_list = [], pe_services = [], pe_last_msg_at = 0, pe_disconnected_at = -1,
     pe_wallet_version = version_default, pe_core_version = version_default,
     pe_key_list_limiter = rl_builder 100 60000, pe_handshake_limiter = rl_builder 100 60000,
     pe_message_limiter = rl_builder 100000 1000, pe_invalid_block_limiter = rl_builder 10 3600000,
     pe_public_key = None, pe_peer_type = PT_Default, pe_ip_address = None\<rparr>"

definition peer_new_stun :: "u64 \<Rightarrow> bytes \<Rightarrow> PeerService list \<Rightarrow> Peer" where
  "peer_new_stun peer_index public_key my_services =
     (peer_new peer_index)\<lparr>pe_peer_type := PT_Stun, pe_public_key := Some public_key,
       pe_peer_status := Connected, pe_services := my_services\<rparr>"

definition peer_is_stun_peer :: "Peer \<Rightarrow> bool" where
  "peer_is_stun_peer p \<longleftrightarrow> pe_peer_type p = PT_Stun"

definition peer_has_key_list_limit_exceeded :: "u64 \<Rightarrow> Peer \<Rightarrow> bool \<times> Peer" where
  "peer_has_key_list_limit_exceeded t p =
     (let (x, rl) = rl_has_limit_exceeded t (pe_key_list_limiter p) in (x, p\<lparr>pe_key_list_limiter := rl\<rparr>))"

definition peer_has_handshake_limit_exceeded :: "u64 \<Rightarrow> Peer \<Rightarrow> bool \<times> Peer" where
  "peer_has_handshake_limit_exceeded t p =
     (let (x, rl) = rl_has_limit_exceeded t (pe_handshake_limiter p) in (x, p\<lparr>pe_handshake_limiter := rl\<rparr>))"

definition peer_has_message_limit_exceeded :: "u64 \<Rightarrow> Peer \<Rightarrow> bool \<times> Peer" where
  "peer_has_message_limit_exceeded t p =
     (let (x, rl) = rl_has_limit_exceeded t (pe_message_limiter p) in (x, p\<lparr>pe_message_limiter := rl\<rparr>))"

definition peer_has_invalid_block_limit_exceeded :: "u64 \<Rightarrow> Peer \<Rightarrow> bool \<times> Peer" where
  "peer_has_invalid_block_limit_exceeded t p =
     (let (x, rl) = rl_has_limit_exceeded t (pe_invalid_block_limiter p)
      in (x, p\<lparr>pe_invalid_block_limiter := rl\<rparr>))"

text \<open>Nothing is ever limited, but the checks move the windows.\<close>

definition peer_get_limited_till :: "u64 \<Rightarrow> Peer \<Rightarrow> u64 option \<times> Peer" where
  "peer_get_limited_till t p =
     (let (x, p1) = peer_has_key_list_limit_exceeded t p
      in (None, if x then snd (peer_has_key_list_limit_exceeded t p1) else p1))"

definition peer_get_url :: "Peer \<Rightarrow> string" where
  "peer_get_url p =
     (case pe_static_peer_config p of
        Some config \<Rightarrow>
          (if pc_protocol config = ''https'' then ''wss'' else ''ws'') @ ''://'' @ pc_host config @
          '':'' @ nat_to_string (unat (pc_port config)) @ ''/wsopen''
      | None \<Rightarrow> [])"

definition peer_get_block_fetch_url :: "ext \<Rightarrow> bytes \<Rightarrow> bool \<Rightarrow> bytes \<Rightarrow> Peer \<Rightarrow> string" where
  "peer_get_block_fetch_url X block_hash lite my_public_key p =
     (if lite then pe_block_fetch_url p @ ''/lite-block/'' @ hex_encode X block_hash @ ''/'' @
        base58_encode X my_public_key
      else pe_block_fetch_url p @ ''/block/'' @ hex_encode X block_hash)"

definition WS_KEEP_ALIVE_PERIOD :: u64 where
  "WS_KEEP_ALIVE_PERIOD = 10000"

definition peer_send_ping :: "u64 \<Rightarrow> Peer \<Rightarrow> Peer \<times> InterfaceIO list" where
  "peer_send_ping current_time p =
     (if pe_last_msg_at p + WS_KEEP_ALIVE_PERIOD < current_time
      then (p\<lparr>pe_last_msg_at := current_time\<rparr>, [SendMessage (pe_index p) (message_serialize Msg_Ping)])
      else (p, []))"

definition peer_has_service :: "string \<Rightarrow> Peer \<Rightarrow> bool" where
  "peer_has_service service p \<longleftrightarrow> list_ex (\<lambda>s. sv_service s = service) (pe_services p)"

definition peer_compare_version :: "Version \<Rightarrow> Peer \<Rightarrow> Ordering option" where
  "peer_compare_version version p =
     (if \<not> version_is_set version \<or> \<not> version_is_set (pe_wallet_version p) then Some Equal
      else version_partial_cmp (pe_wallet_version p) version)"

definition peer_is_static_peer :: "Peer \<Rightarrow> bool" where
  "peer_is_static_peer p \<longleftrightarrow> pe_static_peer_config p \<noteq> None"

definition peer_mark_as_disconnected :: "u64 \<Rightarrow> Peer \<Rightarrow> Peer" where
  "peer_mark_as_disconnected disconnected_at p =
     p\<lparr>pe_challenge_for_peer := None, pe_services := [], pe_disconnected_at := disconnected_at,
       pe_peer_status := (case pe_peer_status p of Disconnected t period \<Rightarrow> Disconnected t period
                          | _ \<Rightarrow> Disconnected 0 1000)\<rparr>"

definition peer_join_as_reconnection :: "Peer \<Rightarrow> Peer \<Rightarrow> Peer res" where
  "peer_join_as_reconnection old p =
     (if pe_peer_status old = Connected then Inl Panic
      else Inr (p\<lparr>pe_message_limiter := pe_message_limiter old,
        pe_handshake_limiter := pe_handshake_limiter old,
        pe_key_list_limiter := pe_key_list_limiter old, pe_disconnected_at := -1,
        pe_static_peer_config := pe_static_peer_config old\<rparr>))"

section \<open>The handshake\<close>

definition peer_initiate_handshake :: "bytes \<Rightarrow> Peer \<Rightarrow> Peer \<times> InterfaceIO list" where
  "peer_initiate_handshake random p =
     (p\<lparr>pe_challenge_for_peer := Some random\<rparr>,
      [SendMessage (pe_index p) (message_serialize (Msg_HandshakeChallenge \<lparr>hc_challenge = random\<rparr>))])"

definition my_block_fetch_url :: "node_env \<Rightarrow> string" where
  "my_block_fetch_url env = (if cfg_is_spv_mode (ne_config env) then [] else ne_block_fetch_url env)"

text \<open>The response of this node, signed over the challenge of the other.\<close>

definition my_handshake_response ::
  "ext \<Rightarrow> node_env \<Rightarrow> Wallet \<Rightarrow> bytes \<Rightarrow> bytes \<Rightarrow> HandshakeResponse res" where
  "my_handshake_response X env w received challenge =
     rbind (sign X received (w_private_key w)) (\<lambda>signature.
       Inr \<lparr>hr_public_key = w_public_key w, hr_signature = signature,
         hr_is_lite = cfg_is_spv_mode (ne_config env), hr_block_fetch_url = my_block_fetch_url env,
         hr_challenge = challenge, hr_services = ne_my_services env,
         hr_wallet_version = ne_wallet_version env, hr_core_version = ne_core_version env\<rparr>)"

definition peer_handle_handshake_challenge ::
  "ext \<Rightarrow> node_env \<Rightarrow> Wallet \<Rightarrow> bytes \<Rightarrow> HandshakeChallenge \<Rightarrow> Peer \<Rightarrow> (Peer \<times> InterfaceIO list) res" where
  "peer_handle_handshake_challenge X env w random challenge p =
     rbind (my_handshake_response X env w (hc_challenge challenge) random) (\<lambda>response.
       Inr (p\<lparr>pe_challenge_for_peer := Some random\<rparr>,
            [SendMessage (pe_index p) (message_serialize (Msg_HandshakeResponse response))]))"

text \<open>A refused response: the peer is disconnected and the call returns an error.\<close>

definition refuse_handshake :: "u64 \<Rightarrow> InterfaceIO list \<Rightarrow> Peer \<Rightarrow> error option \<times> Peer \<times> InterfaceIO list" where
  "refuse_handshake current_time ios p =
     (Some InvalidInput, peer_mark_as_disconnected current_time p, ios @ [DisconnectFromPeer (pe_index p)])"

definition peer_handle_handshake_response ::
  "ext \<Rightarrow> node_env \<Rightarrow> Wallet \<Rightarrow> u64 \<Rightarrow> HandshakeResponse \<Rightarrow> Peer \<Rightarrow>
   (error option \<times> Peer \<times> InterfaceIO list) res" where
  "peer_handle_handshake_response X env w current_time response p =
     (if \<not> version_is_set (hr_core_version response) then Inr (refuse_handshake current_time [] p)
      else case pe_challenge_for_peer p of
        None \<Rightarrow> Inr (refuse_handshake current_time [] p)
      | Some sent_challenge \<Rightarrow>
          if \<not> verify X sent_challenge (hr_signature response) (hr_public_key response)
          then Inr (refuse_handshake current_time [] p)
          else if \<not> is_same_minor_version (ne_core_version env) (hr_core_version response)
          then Inr (refuse_handshake current_time
                 [SendInterfaceEvent (NewVersionDetected (pe_index p) (hr_wallet_version response))] p)
          else if pe_public_key p \<noteq> None \<and> pe_public_key p \<noteq> Some (hr_public_key response)
          then Inl Panic
          else
            let p1 = p\<lparr>pe_block_fetch_url := hr_block_fetch_url response,
                  pe_services := hr_services response, pe_wallet_version := hr_wallet_version response,
                  pe_core_version := hr_core_version response, pe_peer_status := Connected,
                  pe_public_key := Some (hr_public_key response)\<rparr>;
                news = (if ne_wallet_version env < hr_wallet_version response
                        then [SendInterfaceEvent (NewVersionDetected (pe_index p) (hr_wallet_version response))]
                        else [])
            in
            rbind (if pe_static_peer_config p1 = None
                   then rbind (my_handshake_response X env w (hr_challenge response) (replicate 32 0))
                          (\<lambda>r. Inr [SendMessage (pe_index p1) (message_serialize (Msg_HandshakeResponse r))])
                   else Inr []) (\<lambda>answer.
              Inr (None, p1\<lparr>pe_challenge_for_peer := None\<rparr>,
                   news @ answer @ [SendInterfaceEvent (PeerHandshakeComplete (pe_index p1))])))"

section \<open>The collection of peers\<close>

record PeerCollection =
  pcl_index_to_peers :: "(u64 \<times> Peer) list"
  pcl_address_to_peers :: "(bytes \<times> u64) list"
  pcl_peer_counter :: u64

definition peers_default :: PeerCollection where
  "peers_default = \<lparr>pcl_index_to_peers = [], pcl_address_to_peers = [], pcl_peer_counter = 0\<rparr>"

definition get_next_index :: "PeerCollection \<Rightarrow> u64 \<times> PeerCollection" where
  "get_next_index ps = (pcl_peer_counter ps + 1, ps\<lparr>pcl_peer_counter := pcl_peer_counter ps + 1\<rparr>)"

definition find_peer_by_index :: "u64 \<Rightarrow> PeerCollection \<Rightarrow> Peer option" where
  "find_peer_by_index i ps = map_of (pcl_index_to_peers ps) i"

definition find_peer_by_address :: "bytes \<Rightarrow> PeerCollection \<Rightarrow> Peer option" where
  "find_peer_by_address address ps =
     Option.bind (map_of (pcl_address_to_peers ps) address) (\<lambda>i. find_peer_by_index i ps)"

definition put_peer :: "u64 \<Rightarrow> Peer \<Rightarrow> PeerCollection \<Rightarrow> PeerCollection" where
  "put_peer i p ps = ps\<lparr>pcl_index_to_peers := AList.update i p (pcl_index_to_peers ps)\<rparr>"

text \<open>The search runs over the hash map in its order.\<close>

definition remove_reconnected_peer :: "bytes \<Rightarrow> PeerCollection \<Rightarrow> Peer option \<times> PeerCollection" where
  "remove_reconnected_peer public_key ps =
     (case find (\<lambda>(i, p). pe_public_key p = Some public_key \<and> pe_peer_status p \<noteq> Connected)
             (pcl_index_to_peers ps) of
        None \<Rightarrow> (None, ps)
      | Some (i, p) \<Rightarrow>
          (Some p, ps\<lparr>pcl_index_to_peers := AList.delete i (pcl_index_to_peers ps),
                      pcl_address_to_peers := AList.delete public_key (pcl_address_to_peers ps)\<rparr>))"

definition PEER_REMOVAL_WINDOW :: u64 where
  "PEER_REMOVAL_WINDOW = 600000"

definition peer_is_removable :: "u64 \<Rightarrow> Peer \<Rightarrow> bool" where
  "peer_is_removable current_time p \<longleftrightarrow> pe_static_peer_config p = None \<and> \<not> peer_is_stun_peer p \<and>
     \<not> (pe_disconnected_at p = -1 \<or> pe_disconnected_at p + PEER_REMOVAL_WINDOW > current_time)"

definition remove_peer :: "u64 \<Rightarrow> PeerCollection \<Rightarrow> PeerCollection res" where
  "remove_peer i ps =
     rbind (ok_or Panic (map_of (pcl_index_to_peers ps) i)) (\<lambda>p.
       Inr (ps\<lparr>pcl_index_to_peers := AList.delete i (pcl_index_to_peers ps),
               pcl_address_to_peers := (case pe_public_key p of
                   Some public_key \<Rightarrow> AList.delete public_key (pcl_address_to_peers ps)
                 | None \<Rightarrow> pcl_address_to_peers ps)\<rparr>))"

fun remove_peers :: "u64 list \<Rightarrow> PeerCollection \<Rightarrow> PeerCollection res" where
  "remove_peers [] ps = Inr ps"
| "remove_peers (i # is) ps = rbind (remove_peer i ps) (remove_peers is)"

definition remove_disconnected_peers :: "u64 \<Rightarrow> PeerCollection \<Rightarrow> PeerCollection res" where
  "remove_disconnected_peers current_time ps =
     remove_peers (map fst (filter (\<lambda>(i, p). peer_is_removable current_time p) (pcl_index_to_peers ps))) ps"

end
