(* ===== verification/Peer_Network.thy ===== *)
theory Peer_Network
  imports Peers Mempool
begin

text \<open>
  The network of a node (\<^verbatim>\<open>io/network.rs\<close>): peers that come and go, the two ends of the
  handshake, key lists, the requests for blocks, and the propagation of blocks and transactions.
  An operation takes the collection of peers and gives the new one with the calls of the
  interface it makes.
\<close>

section \<open>Connections\<close>

datatype PeerDisconnectType = ExternalDisconnect | InternalDisconnect

definition net_update_peer_timer :: "u64 \<Rightarrow> u64 \<Rightarrow> PeerCollection \<Rightarrow> PeerCollection" where
  "net_update_peer_timer current_time i ps =
     (case find_peer_by_index i ps of
        None \<Rightarrow> ps
      | Some p \<Rightarrow> put_peer i (p\<lparr>pe_last_msg_at := current_time\<rparr>) ps)"

definition net_handle_peer_disconnect ::
  "u64 \<Rightarrow> u64 \<Rightarrow> PeerDisconnectType \<Rightarrow> PeerCollection \<Rightarrow> PeerCollection \<times> InterfaceIO list" where
  "net_handle_peer_disconnect current_time i disconnect_type ps =
     (let ios = (if disconnect_type = ExternalDisconnect then [DisconnectFromPeer i] else []) in
      case find_peer_by_index i ps of
        None \<Rightarrow> (ps, ios)
      | Some p \<Rightarrow>
          (put_peer i (peer_mark_as_disconnected current_time p) ps,
           ios @ (case pe_public_key p of
               Some public_key \<Rightarrow> [SendInterfaceEvent (PeerConnectionDropped i public_key)]
             | None \<Rightarrow> [])))"

definition net_handle_new_peer ::
  "bytes \<Rightarrow> u64 \<Rightarrow> string option \<Rightarrow> PeerCollection \<Rightarrow> PeerCollection \<times> InterfaceIO list" where
  "net_handle_new_peer random i ip_addr ps =
     (let p = (case find_peer_by_index i ps of Some p \<Rightarrow> p | None \<Rightarrow> peer_new i)
                \<lparr>pe_peer_status := Connecting, pe_ip_address := ip_addr\<rparr>;
          (p', ios) = (if pe_static_peer_config p = None then peer_initiate_handshake random p else (p, []))
      in (put_peer i p' ps, ios))"

definition net_handle_new_stun_peer ::
  "node_env \<Rightarrow> u64 \<Rightarrow> bytes \<Rightarrow> PeerCollection \<Rightarrow> PeerCollection \<times> InterfaceIO list" where
  "net_handle_new_stun_peer env i public_key ps =
     (if find_peer_by_index i ps \<noteq> None then (ps, [])
      else (put_peer i (peer_new_stun i public_key (ne_my_services env)) ps
              \<lparr>pcl_address_to_peers := AList.update public_key i (pcl_address_to_peers ps)\<rparr>,
            [SendInterfaceEvent (StunPeerConnected i)]))"

definition net_remove_stun_peer :: "u64 \<Rightarrow> PeerCollection \<Rightarrow> PeerCollection \<times> InterfaceIO list" where
  "net_remove_stun_peer i ps =
     (case find_peer_by_index i ps of
        None \<Rightarrow> (ps, [])
      | Some p \<Rightarrow>
          let ps1 = ps\<lparr>pcl_index_to_peers := AList.delete i (pcl_index_to_peers ps)\<rparr> in
          case pe_public_key p of
            Some public_key \<Rightarrow>
              (ps1\<lparr>pcl_address_to_peers := AList.delete public_key (pcl_address_to_peers ps1)\<rparr>,
               [SendInterfaceEvent (StunPeerDisconnected i public_key)])
          | None \<Rightarrow> (ps1, []))"

fun net_initialize_static_peers :: "PeerConfig list \<Rightarrow> PeerCollection \<Rightarrow> PeerCollection" where
  "net_initialize_static_peers [] ps = ps"
| "net_initialize_static_peers (config # configs) ps =
     (let (i, ps1) = get_next_index ps;
          p = (peer_new i)\<lparr>pe_static_peer_config := Some config\<rparr>
      in net_initialize_static_peers configs (put_peer (pe_index p) p ps1))"

text \<open>One peer: the period of reconnection doubles with every attempt.\<close>

definition connect_to_static_peer :: "u64 \<Rightarrow> Peer \<Rightarrow> Peer \<times> InterfaceIO list" where
  "connect_to_static_peer current_time p =
     (case pe_peer_status p of
        Disconnected connect_time period \<Rightarrow>
          if current_time < connect_time then (p, [])
          else if pe_static_peer_config p = None then (p, [])
          else (p\<lparr>pe_peer_status := Disconnected (current_time + period * 2) (period * 2)\<rparr>,
                [ConnectToPeer (peer_get_url p) (pe_index p)])
      | _ \<Rightarrow> (p, []))"

definition for_each_peer ::
  "(Peer \<Rightarrow> Peer \<times> InterfaceIO list) \<Rightarrow> PeerCollection \<Rightarrow> PeerCollection \<times> InterfaceIO list" where
  "for_each_peer f ps =
     (ps\<lparr>pcl_index_to_peers := map (\<lambda>(i, p). (i, fst (f p))) (pcl_index_to_peers ps)\<rparr>,
      concat (map (\<lambda>(i, p). snd (f p)) (pcl_index_to_peers ps)))"

definition net_connect_to_static_peers :: "u64 \<Rightarrow> PeerCollection \<Rightarrow> PeerCollection \<times> InterfaceIO list" where
  "net_connect_to_static_peers current_time = for_each_peer (connect_to_static_peer current_time)"

definition net_send_pings :: "u64 \<Rightarrow> PeerCollection \<Rightarrow> PeerCollection \<times> InterfaceIO list" where
  "net_send_pings current_time =
     for_each_peer (\<lambda>p. if pe_public_key p \<noteq> None then peer_send_ping current_time p else (p, []))"

section \<open>The handshake\<close>

text \<open>A request is counted, then checked; the peer with the moved window is kept either way.\<close>

definition count_handshake :: "u64 \<Rightarrow> Peer \<Rightarrow> bool \<times> Peer" where
  "count_handshake current_time p =
     peer_has_handshake_limit_exceeded current_time (p\<lparr>pe_handshake_limiter := rl_increase (pe_handshake_limiter p)\<rparr>)"

definition net_handle_handshake_challenge ::
  "ext \<Rightarrow> node_env \<Rightarrow> Wallet \<Rightarrow> u64 \<Rightarrow> bytes \<Rightarrow> u64 \<Rightarrow> HandshakeChallenge \<Rightarrow> PeerCollection \<Rightarrow>
   (PeerCollection \<times> InterfaceIO list) res" where
  "net_handle_handshake_challenge X env w current_time random i challenge ps =
     (case find_peer_by_index i ps of
        None \<Rightarrow> Inr (ps, [])
      | Some p \<Rightarrow>
          let (exceeded, p1) = count_handshake current_time p in
          if exceeded then Inr (put_peer i p1 ps, [])
          else rbind (peer_handle_handshake_challenge X env w random challenge p1) (\<lambda>(p2, ios).
                 Inr (put_peer i p2 ps, ios)))"

definition blockchain_request :: "Blockchain \<Rightarrow> BlockchainRequest res" where
  "blockchain_request bc =
     rbind (bc_get_latest_block_id bc) (\<lambda>latest_id.
     rbind (bc_generate_fork_id bc latest_id) (\<lambda>fork.
     rbind (bc_get_latest_block_hash bc) (\<lambda>latest_hash.
       Inr \<lparr>rq_latest_block_id = latest_id, rq_latest_block_hash = latest_hash,
            rq_fork_id = (case fork of Some fork_id \<Rightarrow> fork_id | None \<Rightarrow> replicate 32 0)\<rparr>)))"

definition net_request_blockchain_from_peer ::
  "node_env \<Rightarrow> Blockchain \<Rightarrow> u64 \<Rightarrow> InterfaceIO list res" where
  "net_request_blockchain_from_peer env bc i =
     (if cfg_is_spv_mode (ne_config env) then
        rbind (bc_get_latest_block_id bc) (\<lambda>latest_id.
        rbind (if bc_last_block_id bc \<ge> latest_id
               then Inr \<lparr>rq_latest_block_id = bc_last_block_id bc, rq_latest_block_hash = bc_last_block_hash bc,
                         rq_fork_id = (case bc_fork_id bc of Some f \<Rightarrow> f | None \<Rightarrow> replicate 32 0)\<rparr>
               else blockchain_request bc) (\<lambda>request.
          Inr [SendMessage i (message_serialize (Msg_GhostChainRequest (rq_latest_block_id request)
                 (rq_latest_block_hash request) (rq_fork_id request)))]))
      else
        rbind (blockchain_request bc) (\<lambda>request.
          Inr [SendMessage i (message_serialize (Msg_BlockchainRequest request))]))"

text \<open>After a good handshake: an old entry of the same key is joined, or the key is recorded.\<close>

definition register_peer :: "bytes \<Rightarrow> u64 \<Rightarrow> PeerCollection \<Rightarrow> PeerCollection res" where
  "register_peer public_key i ps =
     (case remove_reconnected_peer public_key ps of
        (Some old_peer, ps1) \<Rightarrow>
          rbind (ok_or Panic (find_peer_by_index i ps1)) (\<lambda>p.
          rbind (peer_join_as_reconnection old_peer p) (\<lambda>p1. Inr (put_peer i p1 ps1)))
      | (None, ps1) \<Rightarrow>
          Inr (ps1\<lparr>pcl_address_to_peers := AList.update public_key i (pcl_address_to_peers ps1)\<rparr>))"

definition net_handle_handshake_response ::
  "ext \<Rightarrow> node_env \<Rightarrow> Wallet \<Rightarrow> Blockchain \<Rightarrow> u64 \<Rightarrow> u64 \<Rightarrow> HandshakeResponse \<Rightarrow> PeerCollection \<Rightarrow>
   (PeerCollection \<times> InterfaceIO list) res" where
  "net_handle_handshake_response X env w bc current_time i response ps =
     (case find_peer_by_index i ps of
        None \<Rightarrow> Inr (ps, [])
      | Some p \<Rightarrow>
          let (exceeded, p1) = count_handshake current_time p in
          if exceeded then Inr (put_peer i p1 ps, [])
          else
            rbind (peer_handle_handshake_response X env w current_time response p1) (\<lambda>(result, p2, ios).
              let ps1 = put_peer i p2 ps in
              case (result, pe_public_key p2) of
                (None, Some public_key) \<Rightarrow>
                  rbind (register_peer public_key i ps1) (\<lambda>ps2.
                  rbind (net_request_blockchain_from_peer env bc i) (\<lambda>requests.
                    Inr (ps2, ios @ [SendInterfaceEvent (PeerConnected i)] @ requests)))
              | _ \<Rightarrow> Inr (ps1, ios @ [DisconnectFromPeer i])))"

section \<open>Key lists\<close>

text \<open>The message of the log, which is written when debug messages are on, unwraps the key of the peer.\<close>

definition net_handle_received_key_list ::
  "u64 \<Rightarrow> u64 \<Rightarrow> bytes list \<Rightarrow> PeerCollection \<Rightarrow> unit res \<times> PeerCollection" where
  "net_handle_received_key_list current_time i key_list ps =
     (case find_peer_by_index i ps of
        None \<Rightarrow> (Inl NotFound, ps)
      | Some p \<Rightarrow>
          let (exceeded, p1) = peer_has_key_list_limit_exceeded current_time
                (p\<lparr>pe_key_list_limiter := rl_increase (pe_key_list_limiter p)\<rparr>) in
          if exceeded then (Inl Other, put_peer i p1 ps)
          else (Inr (), put_peer i (p1\<lparr>pe_key_list := key_list\<rparr>) ps))"

definition net_send_key_list :: "bytes list \<Rightarrow> InterfaceIO list" where
  "net_send_key_list key_list = [SendMessageToAll (message_serialize (Msg_KeyListUpdate key_list)) []]"

section \<open>Blocks and transactions\<close>

definition net_propagate_block :: "block \<Rightarrow> PeerCollection \<Rightarrow> InterfaceIO list" where
  "net_propagate_block b ps =
     [SendMessageToAll (message_serialize (Msg_BlockHeaderHash (b_hash b) (b_id b)))
        ((case b_routed_from_peer b of Some i \<Rightarrow> [i] | None \<Rightarrow> []) @
         map fst (filter (\<lambda>(i, p). pe_public_key p = None) (pcl_index_to_peers ps)))]"

fun send_to_peers ::
  "ext \<Rightarrow> Wallet \<Rightarrow> transaction \<Rightarrow> (u64 \<times> Peer) list \<Rightarrow> InterfaceIO list res" where
  "send_to_peers X w tx [] = Inr []"
| "send_to_peers X w tx ((i, p) # ps) =
     (case pe_public_key p of
        None \<Rightarrow> send_to_peers X w tx ps
      | Some public_key \<Rightarrow>
          if tx_is_in_path public_key tx then send_to_peers X w tx ps
          else
            rbind (tx_add_hop X (w_private_key w) (w_public_key w) public_key tx) (\<lambda>tx'.
            rbind (send_to_peers X w tx ps) (\<lambda>ios.
              Inr (SendMessage i (message_serialize (Msg_Transaction tx')) # ios))))"

definition net_propagate_transaction ::
  "ext \<Rightarrow> Wallet \<Rightarrow> transaction \<Rightarrow> PeerCollection \<Rightarrow> (Wallet \<times> InterfaceIO list) res" where
  "net_propagate_transaction X w tx ps =
     (case tx_from tx of
        [] \<Rightarrow> Inl Panic
      | s # _ \<Rightarrow>
          rbind (if slip_public_key s = w_public_key w \<and> tx_transaction_type tx \<noteq> TT_GoldenTicket
                 then wallet_add_to_pending tx w else Inr w) (\<lambda>w1.
          rbind (send_to_peers X w1 tx (pcl_index_to_peers ps)) (\<lambda>ios. Inr (w1, ios))))"

text \<open>A block announced by a peer is fetched unless it is known or the peer can not be asked.\<close>

definition net_process_incoming_block_hash ::
  "ext \<Rightarrow> node_env \<Rightarrow> Wallet \<Rightarrow> Blockchain \<Rightarrow> Mempool \<Rightarrow> bytes \<Rightarrow> u64 \<Rightarrow> u64 \<Rightarrow> PeerCollection \<Rightarrow>
   InterfaceIO list option" where
  "net_process_incoming_block_hash X env w bc mp block_hash block_id i ps =
     (if bc_is_block_indexed bc block_hash \<or> list_ex (\<lambda>b. b_hash b = block_hash) (mp_blocks_queue mp)
      then None
      else case find_peer_by_index i ps of
        None \<Rightarrow> None
      | Some p \<Rightarrow>
          if ne_wallet_version env > pe_wallet_version p \<and> pe_wallet_version p \<noteq> Version 0 0 0 then None
          else if pe_block_fetch_url p = [] then None
          else Some [FetchBlockFromPeer block_hash i
                 (peer_get_block_fetch_url X block_hash (cfg_is_spv_mode (ne_config env)) (w_public_key w) p) block_id])"

end
