(* ===== verification/Peer_Rules.thy ===== *)
theory Peer_Rules
  imports Peer_Network
begin

text \<open>
  What the handshake and the collection of peers guarantee: two honest nodes end up connected
  under each other's keys, a peer is connected only after it signed this node's challenge, the
  index of keys never dangles; and what they do not: the signed challenge names neither end.
\<close>

section \<open>Responses of a well-formed node\<close>

definition node_ok :: "ext \<Rightarrow> node_env \<Rightarrow> Wallet \<Rightarrow> bool" where
  "node_ok X env w \<longleftrightarrow> sk_ok X (w_private_key w) \<and> w_public_key w = pk_of_sk X (w_private_key w) \<and>
     utf8_ok (as_bytes (ne_block_fetch_url env)) \<and> length (ne_block_fetch_url env) < 2 ^ 32 \<and>
     list_all service_wf (ne_my_services env) \<and> version_is_set (ne_core_version env)"

lemma my_response:
  assumes "crypto_laws X" and "node_ok X env w" and "length c = 32"
  obtains r where "my_handshake_response X env w received c = Inr r" "handshake_response_wf r"
    "hr_public_key r = w_public_key w" "verify X received (hr_signature r) (w_public_key w)"
    "hr_challenge r = c" "hr_core_version r = ne_core_version env"
    "message_deserialize (message_serialize (Msg_HandshakeResponse r)) = Inr (Msg_HandshakeResponse r)"
proof -
  let ?sk = "w_private_key w"
  have sk: "sk_ok X ?sk" "w_public_key w = pk_of_sk X ?sk" using assms(2) by (simp_all add: node_ok_def)
  then obtain sig where sig: "sign X received ?sk = Inr sig" "length sig = 64" "verify X received sig (w_public_key w)"
    using sign_Inr [OF assms(1), of ?sk received] by auto
  define r where "r = \<lparr>hr_public_key = w_public_key w, hr_signature = sig, hr_is_lite = cfg_is_spv_mode (ne_config env),
    hr_block_fetch_url = my_block_fetch_url env, hr_challenge = c, hr_services = ne_my_services env,
    hr_wallet_version = ne_wallet_version env, hr_core_version = ne_core_version env\<rparr>"
  have "length (w_public_key w) = 33" using assms(1) sk by (simp add: crypto_laws_def)
  moreover have "utf8_ok []" by (simp add: utf8_ok.simps)
  ultimately have wf: "handshake_response_wf r"
    using assms(2,3) sig
    by (auto simp: r_def handshake_response_wf_def node_ok_def my_block_fetch_url_def as_bytes_def)
  moreover from this have "message_deserialize (message_serialize (Msg_HandshakeResponse r)) = Inr (Msg_HandshakeResponse r)"
    using message_decode_encode [of "Msg_HandshakeResponse r"] by simp
  ultimately show ?thesis
    by (intro that) (simp_all add: my_handshake_response_def sig r_def)
qed

section \<open>Two honest nodes\<close>

fun sent_to_peer :: "InterfaceIO list \<Rightarrow> bytes" where
  "sent_to_peer (SendMessage i buffer # ios) = buffer"
| "sent_to_peer (_ # ios) = sent_to_peer ios"
| "sent_to_peer [] = []"

text \<open>A message is decoded and handed to the handler of handshakes at the receiving end.\<close>

definition receive_challenge ::
  "ext \<Rightarrow> node_env \<Rightarrow> Wallet \<Rightarrow> bytes \<Rightarrow> bytes \<Rightarrow> Peer \<Rightarrow> (Peer \<times> InterfaceIO list) res" where
  "receive_challenge X env w random buffer p =
     rbind (message_deserialize buffer) (\<lambda>m. case m of
         Msg_HandshakeChallenge c \<Rightarrow> peer_handle_handshake_challenge X env w random c p
       | _ \<Rightarrow> Inl InvalidData)"

definition receive_response ::
  "ext \<Rightarrow> node_env \<Rightarrow> Wallet \<Rightarrow> u64 \<Rightarrow> bytes \<Rightarrow> Peer \<Rightarrow> (error option \<times> Peer \<times> InterfaceIO list) res" where
  "receive_response X env w t buffer p =
     rbind (message_deserialize buffer) (\<lambda>m. case m of
         Msg_HandshakeResponse r \<Rightarrow> peer_handle_handshake_response X env w t r p
       | _ \<Rightarrow> Inl InvalidData)"

text \<open>The four messages: node 1 was connected to by node 2. The ends at the end.\<close>

definition handshake_exchange ::
  "ext \<Rightarrow> u64 \<Rightarrow> node_env \<Rightarrow> Wallet \<Rightarrow> bytes \<Rightarrow> Peer \<Rightarrow> node_env \<Rightarrow> Wallet \<Rightarrow> bytes \<Rightarrow> Peer \<Rightarrow>
   (error option \<times> Peer \<times> error option \<times> Peer) res" where
  "handshake_exchange X t env1 w1 random1 p1 env2 w2 random2 p2 =
     (let (p1a, ios1) = peer_initiate_handshake random1 p1 in
      rbind (receive_challenge X env2 w2 random2 (sent_to_peer ios1) p2) (\<lambda>(p2a, ios2).
      rbind (receive_response X env1 w1 t (sent_to_peer ios2) p1a) (\<lambda>(result1, p1b, ios3).
      rbind (receive_response X env2 w2 t (sent_to_peer ios3) p2a) (\<lambda>(result2, p2b, ios4).
        Inr (result1, p1b, result2, p2b)))))"

lemma response_accepted:
  assumes "version_is_set (hr_core_version r)" and "pe_challenge_for_peer p = Some c"
    and "verify X c (hr_signature r) (hr_public_key r)"
    and "is_same_minor_version (ne_core_version env) (hr_core_version r)" and "pe_public_key p = None"
    and "pe_static_peer_config p = None \<Longrightarrow>
      my_handshake_response X env w (hr_challenge r) (replicate 32 0) = Inr answer"
  obtains p' ios where "peer_handle_handshake_response X env w t r p = Inr (None, p', ios)"
    "pe_peer_status p' = Connected" "pe_public_key p' = Some (hr_public_key r)"
    "pe_challenge_for_peer p' = None" "pe_services p' = hr_services r"
    "pe_block_fetch_url p' = hr_block_fetch_url r" "pe_index p' = pe_index p"
    "pe_static_peer_config p = None \<Longrightarrow> sent_to_peer ios = message_serialize (Msg_HandshakeResponse answer)"
  using assms by (cases "pe_static_peer_config p = None")
    (auto simp: peer_handle_handshake_response_def Let_def)

text \<open>
  C20. Two honest nodes whose minor versions agree complete the handshake over the wire: after the
  challenge, the two responses and their decoding, each end holds the other as connected, under
  the public key of the other's wallet, with its services and url, and no challenge is pending.
\<close>

theorem handshake_connects:
  assumes "crypto_laws X" and "node_ok X env1 w1" and "node_ok X env2 w2"
    and "ver_major (ne_core_version env1) = ver_major (ne_core_version env2)"
    and "ver_minor (ne_core_version env1) = ver_minor (ne_core_version env2)"
    and "length random1 = 32" and "length random2 = 32"
    and "pe_public_key p1 = None" and "pe_static_peer_config p1 = None"
    and "pe_public_key p2 = None" and "pe_static_peer_config p2 \<noteq> None"
  shows "\<exists>p1' p2'. handshake_exchange X t env1 w1 random1 p1 env2 w2 random2 p2 = Inr (None, p1', None, p2') \<and>
    pe_peer_status p1' = Connected \<and> pe_public_key p1' = Some (w_public_key w2) \<and>
    pe_peer_status p2' = Connected \<and> pe_public_key p2' = Some (w_public_key w1) \<and>
    pe_challenge_for_peer p1' = None \<and> pe_challenge_for_peer p2' = None"
proof -
  obtain r1 where r1: "my_handshake_response X env2 w2 random1 random2 = Inr r1"
    "hr_public_key r1 = w_public_key w2" "verify X random1 (hr_signature r1) (w_public_key w2)"
    "hr_challenge r1 = random2" "hr_core_version r1 = ne_core_version env2"
    "message_deserialize (message_serialize (Msg_HandshakeResponse r1)) = Inr (Msg_HandshakeResponse r1)"
    by (rule my_response [OF assms(1,3,7), of random1]) blast
  obtain r2 where r2: "my_handshake_response X env1 w1 random2 (replicate 32 0) = Inr r2"
    "hr_public_key r2 = w_public_key w1" "verify X random2 (hr_signature r2) (w_public_key w1)"
    "hr_core_version r2 = ne_core_version env1"
    "message_deserialize (message_serialize (Msg_HandshakeResponse r2)) = Inr (Msg_HandshakeResponse r2)"
    by (rule my_response [OF assms(1,2), of "replicate 32 0" random2]) (simp, blast)
  have v: "version_is_set (ne_core_version env1)" "version_is_set (ne_core_version env2)"
    using assms(2,3) by (simp_all add: node_ok_def)
  let ?p1 = "p1\<lparr>pe_challenge_for_peer := Some random1\<rparr>" and ?p2 = "p2\<lparr>pe_challenge_for_peer := Some random2\<rparr>"
  obtain p1' ios1 where e1: "peer_handle_handshake_response X env1 w1 t r1 ?p1 = Inr (None, p1', ios1)"
    "pe_peer_status p1' = Connected" "pe_public_key p1' = Some (hr_public_key r1)" "pe_challenge_for_peer p1' = None"
    "sent_to_peer ios1 = message_serialize (Msg_HandshakeResponse r2)"
    by (rule response_accepted [of r1 ?p1 random1 X env1 w1 r2 t])
      (use r1 r2 v assms in \<open>simp_all add: is_same_minor_version_def\<close>)
  obtain p2' ios2 where e2: "peer_handle_handshake_response X env2 w2 t r2 ?p2 = Inr (None, p2', ios2)"
    "pe_peer_status p2' = Connected" "pe_public_key p2' = Some (hr_public_key r2)" "pe_challenge_for_peer p2' = None"
    by (rule response_accepted [of r2 ?p2 random2 X env2 w2 _ t])
      (use r2 v assms in \<open>simp_all add: is_same_minor_version_def\<close>)
  have c: "message_deserialize (message_serialize (Msg_HandshakeChallenge \<lparr>hc_challenge = random1\<rparr>)) =
      Inr (Msg_HandshakeChallenge \<lparr>hc_challenge = random1\<rparr>)"
    using message_decode_encode [of "Msg_HandshakeChallenge \<lparr>hc_challenge = random1\<rparr>"] assms(6) by simp
  have "handshake_exchange X t env1 w1 random1 p1 env2 w2 random2 p2 = Inr (None, p1', None, p2')"
    by (simp add: handshake_exchange_def receive_challenge_def receive_response_def peer_initiate_handshake_def
        peer_handle_handshake_challenge_def c r1 e1 r2 e2)
  then show ?thesis using e1 e2 r1 r2 by simp
qed

definition demo_peer_node_config :: node_config where
  "demo_peer_node_config = \<lparr>cfg_is_spv_mode = False, cfg_is_browser = False, cfg_heartbeat_interval = 2,
     cfg_genesis_period = 2, cfg_prune_after_blocks = 8, cfg_max_staker_recursions = 1,
     cfg_issuance_writing_block_interval = 0, cfg_initial_loading_completed = True\<rparr>"

definition demo_env :: node_env where
  "demo_env = \<lparr>ne_config = demo_peer_node_config, ne_block_fetch_url = ''http'', ne_peer_configs = [],
     ne_my_services = [], ne_wallet_version = Version 1 0 0, ne_core_version = Version 1 0 0\<rparr>"

definition demo_wallet :: "u8 \<Rightarrow> Wallet" where
  "demo_wallet b = wallet_new (replicate 32 b) (2 # replicate 32 b)"

lemma demo_node_ok: "node_ok demo_ext demo_env (demo_wallet b)"
  using utf8_ascii [of "''http''"]
  by (simp add: node_ok_def demo_ext_def demo_wallet_def wallet_new_def demo_env_def version_is_set_def)

definition demo_static_peer :: Peer where
  "demo_static_peer = (peer_new 1)\<lparr>pe_static_peer_config :=
     Some \<lparr>pc_host = ''h'', pc_port = 1, pc_protocol = ''http'', pc_synctype = ''full''\<rparr>\<rparr>"

theorem handshake_connects_witness:
  "\<exists>p1' p2'. handshake_exchange demo_ext 0 demo_env (demo_wallet 1) (replicate 32 7) (peer_new 1)
      demo_env (demo_wallet 2) (replicate 32 8) demo_static_peer = Inr (None, p1', None, p2') \<and>
    pe_public_key p1' = Some (2 # replicate 32 2) \<and> pe_public_key p2' = Some (2 # replicate 32 1)"
  using handshake_connects [OF crypto_laws_demo demo_node_ok [of 1] demo_node_ok [of 2], of "replicate 32 7" "replicate 32 8"
      "peer_new 1" demo_static_peer 0]
  by (auto simp: peer_new_def demo_static_peer_def demo_wallet_def wallet_new_def)

section \<open>The steps of the network\<close>

text \<open>Everything that changes the collection of peers, with the messages and events as they come.\<close>

inductive net_step :: "ext \<Rightarrow> node_env \<Rightarrow> Wallet \<Rightarrow> Blockchain \<Rightarrow> PeerCollection \<Rightarrow> PeerCollection \<Rightarrow> bool"
  for X env w bc where
  timer: "net_step X env w bc ps (net_update_peer_timer t i ps)"
| disconnect: "net_handle_peer_disconnect t i ty ps = (ps', ios) \<Longrightarrow> net_step X env w bc ps ps'"
| new_peer: "net_handle_new_peer random i ip ps = (ps', ios) \<Longrightarrow> net_step X env w bc ps ps'"
| stun: "net_handle_new_stun_peer env i k ps = (ps', ios) \<Longrightarrow> net_step X env w bc ps ps'"
| no_stun: "net_remove_stun_peer i ps = (ps', ios) \<Longrightarrow> net_step X env w bc ps ps'"
| connect: "net_connect_to_static_peers t ps = (ps', ios) \<Longrightarrow> net_step X env w bc ps ps'"
| ping: "net_send_pings t ps = (ps', ios) \<Longrightarrow> net_step X env w bc ps ps'"
| challenge: "net_handle_handshake_challenge X env w t random i c ps = Inr (ps', ios) \<Longrightarrow> net_step X env w bc ps ps'"
| response: "net_handle_handshake_response X env w bc t i r ps = Inr (ps', ios) \<Longrightarrow> net_step X env w bc ps ps'"
| keys: "net_handle_received_key_list t i ks ps = (r, ps') \<Longrightarrow> net_step X env w bc ps ps'"
| removal: "remove_disconnected_peers t ps = Inr ps' \<Longrightarrow> net_step X env w bc ps ps'"

inductive net_reachable :: "ext \<Rightarrow> node_env \<Rightarrow> Wallet \<Rightarrow> Blockchain \<Rightarrow> PeerCollection \<Rightarrow> bool" for X env w bc where
  init: "length configs < 2 ^ 64 \<Longrightarrow>
    net_reachable X env w bc (net_initialize_static_peers configs peers_default)"
| step: "net_reachable X env w bc ps \<Longrightarrow> net_step X env w bc ps ps' \<Longrightarrow> net_reachable X env w bc ps'"

text \<open>Peers are found under their index, keys under the index of a peer that has them.\<close>

definition peers_ok :: "PeerCollection \<Rightarrow> bool" where
  "peers_ok ps \<longleftrightarrow> distinct (map fst (pcl_index_to_peers ps)) \<and> distinct (map fst (pcl_address_to_peers ps)) \<and>
     (\<forall>i p. map_of (pcl_index_to_peers ps) i = Some p \<longrightarrow> pe_index p = i) \<and>
     (\<forall>k i. map_of (pcl_address_to_peers ps) k = Some i \<longrightarrow>
        (\<exists>p. map_of (pcl_index_to_peers ps) i = Some p \<and> pe_public_key p = Some k))"

lemma peers_ok_points:
  assumes "peers_ok ps" and "map_of (pcl_address_to_peers ps) k = Some i"
  shows "\<exists>p. find_peer_by_index i ps = Some p \<and> pe_public_key p = Some k"
  using assms by (auto simp: peers_ok_def find_peer_by_index_def simp del: map_of_eq_Some_iff)

lemma peers_okI:
  assumes "distinct (map fst (pcl_index_to_peers ps))" "distinct (map fst (pcl_address_to_peers ps))"
    and "\<And>i p. find_peer_by_index i ps = Some p \<Longrightarrow> pe_index p = i"
    and "\<And>k i. map_of (pcl_address_to_peers ps) k = Some i \<Longrightarrow>
      \<exists>p. find_peer_by_index i ps = Some p \<and> pe_public_key p = Some k"
  shows "peers_ok ps"
  using assms by (simp add: peers_ok_def find_peer_by_index_def del: map_of_eq_Some_iff)

lemma find_put [simp]:
  "find_peer_by_index j (put_peer i p ps) = (if j = i then Some p else find_peer_by_index j ps)"
  "pcl_address_to_peers (put_peer i p ps) = pcl_address_to_peers ps"
  "pcl_peer_counter (put_peer i p ps) = pcl_peer_counter ps"
  by (simp_all add: find_peer_by_index_def put_peer_def update_conv)

lemma peers_ok_distinct: "peers_ok ps \<Longrightarrow> distinct (map fst (pcl_index_to_peers ps))"
  "peers_ok ps \<Longrightarrow> distinct (map fst (pcl_address_to_peers ps))"
  "peers_ok ps \<Longrightarrow> find_peer_by_index i ps = Some p \<Longrightarrow> pe_index p = i"
  by (simp_all add: peers_ok_def find_peer_by_index_def del: map_of_eq_Some_iff)

text \<open>A peer keeps its index and, once known, its key; a new one has an unused index.\<close>

lemma peers_ok_put:
  assumes "peers_ok ps" and "pe_index p' = i"
    and "\<And>p. find_peer_by_index i ps = Some p \<Longrightarrow> pe_public_key p = None \<or> pe_public_key p' = pe_public_key p"
  shows "peers_ok (put_peer i p' ps)"
proof (rule peers_okI)
  fix k j
  assume "map_of (pcl_address_to_peers (put_peer i p' ps)) k = Some j"
  then have "map_of (pcl_address_to_peers ps) k = Some j" by (simp del: map_of_eq_Some_iff)
  from peers_ok_points [OF assms(1) this] assms(3)
  show "\<exists>p. find_peer_by_index j (put_peer i p' ps) = Some p \<and> pe_public_key p = Some k"
    by force
qed (use assms peers_ok_distinct [OF assms(1)] in
    \<open>auto simp: put_peer_def distinct_update find_peer_by_index_def update_conv simp del: map_of_eq_Some_iff split: if_splits\<close>)

lemma peers_ok_address:
  assumes "peers_ok ps" and "find_peer_by_index i ps = Some p" and "pe_public_key p = Some k"
  shows "peers_ok (ps\<lparr>pcl_address_to_peers := AList.update k i (pcl_address_to_peers ps)\<rparr>)"
proof (rule peers_okI)
  fix k' j
  assume "map_of (pcl_address_to_peers (ps\<lparr>pcl_address_to_peers := AList.update k i (pcl_address_to_peers ps)\<rparr>)) k' = Some j"
  then have "k' = k \<and> j = i \<or> map_of (pcl_address_to_peers ps) k' = Some j"
    by (simp add: update_conv del: map_of_eq_Some_iff split: if_splits)
  with peers_ok_points [OF assms(1)] assms(2,3)
  show "\<exists>p. find_peer_by_index j (ps\<lparr>pcl_address_to_peers := AList.update k i (pcl_address_to_peers ps)\<rparr>) = Some p \<and>
      pe_public_key p = Some k'"
    by (auto simp: find_peer_by_index_def simp del: map_of_eq_Some_iff)
qed (use peers_ok_distinct [OF assms(1)] in \<open>auto simp: distinct_update find_peer_by_index_def simp del: map_of_eq_Some_iff\<close>)

text \<open>A peer goes with the entry of its key, if any.\<close>

definition without_peer :: "u64 \<Rightarrow> Peer \<Rightarrow> PeerCollection \<Rightarrow> PeerCollection" where
  "without_peer i p ps = ps\<lparr>pcl_index_to_peers := AList.delete i (pcl_index_to_peers ps),
      pcl_address_to_peers := (case pe_public_key p of Some k \<Rightarrow> AList.delete k (pcl_address_to_peers ps)
        | None \<Rightarrow> pcl_address_to_peers ps)\<rparr>"

lemma find_without: "find_peer_by_index j (without_peer i p ps) = (if j = i then None else find_peer_by_index j ps)"
  by (simp add: find_peer_by_index_def without_peer_def delete_conv)

lemma peers_ok_remove:
  assumes "peers_ok ps" and "find_peer_by_index i ps = Some p"
  shows "peers_ok (without_peer i p ps)"
proof (rule peers_okI)
  fix k j
  assume "map_of (pcl_address_to_peers (without_peer i p ps)) k = Some j"
  then have "map_of (pcl_address_to_peers ps) k = Some j" "pe_public_key p \<noteq> Some k"
    by (auto simp: without_peer_def delete_conv simp del: map_of_eq_Some_iff split: option.splits if_splits)
  with peers_ok_points [OF assms(1) this(1)] assms(2)
  show "\<exists>p'. find_peer_by_index j (without_peer i p ps) = Some p' \<and> pe_public_key p' = Some k"
    by (auto simp: find_without)
qed (use peers_ok_distinct [OF assms(1)] in
    \<open>auto simp: without_peer_def distinct_delete find_peer_by_index_def delete_conv simp del: map_of_eq_Some_iff
      split: option.splits if_splits\<close>)

section \<open>The collection stays consistent\<close>

lemma limiter_keeps:
  "peer_has_key_list_limit_exceeded t p = (x, p') \<Longrightarrow> pe_index p' = pe_index p \<and> pe_public_key p' = pe_public_key p \<and>
     pe_peer_status p' = pe_peer_status p \<and> pe_challenge_for_peer p' = pe_challenge_for_peer p \<and>
     pe_static_peer_config p' = pe_static_peer_config p \<and> pe_peer_type p' = pe_peer_type p"
  "count_handshake t p = (x, p') \<Longrightarrow> pe_index p' = pe_index p \<and> pe_public_key p' = pe_public_key p \<and>
     pe_peer_status p' = pe_peer_status p \<and> pe_challenge_for_peer p' = pe_challenge_for_peer p \<and>
     pe_static_peer_config p' = pe_static_peer_config p \<and> pe_peer_type p' = pe_peer_type p"
  by (auto simp: peer_has_key_list_limit_exceeded_def count_handshake_def peer_has_handshake_limit_exceeded_def
      split: prod.splits)

lemma mark_as_disconnected_keeps [simp]:
  "pe_index (peer_mark_as_disconnected t p) = pe_index p"
  "pe_public_key (peer_mark_as_disconnected t p) = pe_public_key p"
  "pe_peer_status (peer_mark_as_disconnected t p) \<noteq> Connected"
  by (simp_all add: peer_mark_as_disconnected_def split: PeerStatus.split)

text \<open>An accepted response: the challenge was signed, the version fits; a refused one disconnects.\<close>

lemma handshake_response_cases:
  assumes "peer_handle_handshake_response X env w t r p = Inr (result, p', ios)"
  obtains (refused) "result \<noteq> None" "p' = peer_mark_as_disconnected t p"
    | (accepted) c where "result = None" "pe_challenge_for_peer p = Some c"
      "verify X c (hr_signature r) (hr_public_key r)"
      "is_same_minor_version (ne_core_version env) (hr_core_version r)"
      "pe_public_key p = None \<or> pe_public_key p = Some (hr_public_key r)"
      "pe_index p' = pe_index p" "pe_public_key p' = Some (hr_public_key r)" "pe_peer_status p' = Connected"
      "pe_challenge_for_peer p' = None" "pe_peer_type p' = pe_peer_type p"
  using assms
  by (auto simp: peer_handle_handshake_response_def refuse_handshake_def Let_def split: if_splits option.splits)

lemma remove_reconnected_conv:
  assumes "peers_ok ps" and "remove_reconnected_peer k ps = (old, ps')"
  shows "old = None \<and> ps' = ps \<or>
    (\<exists>i p. old = Some p \<and> find_peer_by_index i ps = Some p \<and> pe_public_key p = Some k \<and>
       pe_peer_status p \<noteq> Connected \<and> ps' = without_peer i p ps)"
proof (cases old)
  case (Some p)
  with assms(2) obtain i where i: "find (\<lambda>(i, p). pe_public_key p = Some k \<and> pe_peer_status p \<noteq> Connected)
      (pcl_index_to_peers ps) = Some (i, p)" "ps' = ps\<lparr>pcl_index_to_peers := AList.delete i (pcl_index_to_peers ps),
        pcl_address_to_peers := AList.delete k (pcl_address_to_peers ps)\<rparr>"
    by (auto simp: remove_reconnected_peer_def split: option.splits)
  then have "(i, p) \<in> set (pcl_index_to_peers ps)" "pe_public_key p = Some k" "pe_peer_status p \<noteq> Connected"
    by (auto simp: find_Some_iff in_set_conv_nth)
  with i peers_ok_distinct [OF assms(1)] Some show ?thesis
    by (auto simp: find_peer_by_index_def without_peer_def)
qed (use assms(2) in \<open>auto simp: remove_reconnected_peer_def split: option.splits\<close>)

lemma register_peer_ok:
  assumes "peers_ok ps" and "find_peer_by_index i ps = Some p" and "pe_public_key p = Some k"
    and "pe_peer_status p = Connected" and "register_peer k i ps = Inr ps'"
  shows "peers_ok ps' \<and> (\<forall>j. find_peer_by_index j ps' \<in> {find_peer_by_index j ps, None} \<or>
    j = i \<and> (\<exists>p'. find_peer_by_index j ps' = Some p' \<and> pe_public_key p' = Some k \<and>
      pe_peer_status p' = Connected \<and> pe_challenge_for_peer p' = pe_challenge_for_peer p \<and> pe_peer_type p' = pe_peer_type p))"
proof -
  obtain old ps1 where rr: "remove_reconnected_peer k ps = (old, ps1)" by force
  from remove_reconnected_conv [OF assms(1) rr] show ?thesis
  proof
    assume "old = None \<and> ps1 = ps"
    then have ps': "ps' = ps\<lparr>pcl_address_to_peers := AList.update k i (pcl_address_to_peers ps)\<rparr>"
      using rr assms(5) by (simp add: register_peer_def)
    then show ?thesis
      using peers_ok_address [OF assms(1-3)] by (simp add: find_peer_by_index_def)
  next
    assume "\<exists>j q. old = Some q \<and> find_peer_by_index j ps = Some q \<and> pe_public_key q = Some k \<and>
       pe_peer_status q \<noteq> Connected \<and> ps1 = without_peer j q ps"
    then obtain j q where q: "old = Some q" "find_peer_by_index j ps = Some q" "pe_public_key q = Some k"
      "pe_peer_status q \<noteq> Connected" "ps1 = without_peer j q ps" by blast
    have ji: "j \<noteq> i" using q assms(2,4) by auto
    then have "find_peer_by_index i ps1 = Some p" using q assms(2) by (simp add: find_without)
    with rr q assms(5) obtain p1 where p1: "peer_join_as_reconnection q p = Inr p1" "ps' = put_peer i p1 ps1"
      by (auto simp: register_peer_def)
    then have "pe_index p1 = pe_index p" "pe_public_key p1 = pe_public_key p" "pe_peer_status p1 = Connected"
      "pe_challenge_for_peer p1 = pe_challenge_for_peer p" "pe_peer_type p1 = pe_peer_type p"
      using assms(4) by (auto simp: peer_join_as_reconnection_def split: if_splits)
    moreover have "peers_ok ps1" using peers_ok_remove [OF assms(1) q(2)] q(5) by simp
    ultimately show ?thesis
      using p1 q ji assms(2,3) peers_ok_distinct(3) [OF assms(1,2)]
      by (auto simp: find_without intro!: peers_ok_put)
  qed
qed

lemma for_each_peer_find:
  "find_peer_by_index i (fst (for_each_peer f ps)) = map_option (\<lambda>p. fst (f p)) (find_peer_by_index i ps)"
proof -
  have "map_of (map (\<lambda>(i, p). (i, fst (f p))) m) i = map_option (\<lambda>p. fst (f p)) (map_of m i)" for m
    by (induction m) auto
  then show ?thesis by (simp add: for_each_peer_def find_peer_by_index_def)
qed

lemma peers_ok_each:
  assumes "peers_ok ps" and "\<And>p. pe_index (fst (f p)) = pe_index p \<and> pe_public_key (fst (f p)) = pe_public_key p"
  shows "peers_ok (fst (for_each_peer f ps))"
proof (rule peers_okI)
  show "distinct (map fst (pcl_index_to_peers (fst (for_each_peer f ps))))"
    using peers_ok_distinct(1) [OF assms(1)] by (simp add: for_each_peer_def case_prod_beta comp_def)
  show "distinct (map fst (pcl_address_to_peers (fst (for_each_peer f ps))))"
    using peers_ok_distinct(2) [OF assms(1)] by (simp add: for_each_peer_def)
  show "pe_index p = i" if "find_peer_by_index i (fst (for_each_peer f ps)) = Some p" for i p
    using that peers_ok_distinct(3) [OF assms(1)] assms(2) by (auto simp: for_each_peer_find)
  show "\<exists>p. find_peer_by_index i (fst (for_each_peer f ps)) = Some p \<and> pe_public_key p = Some k"
    if "map_of (pcl_address_to_peers (fst (for_each_peer f ps))) k = Some i" for k i
  proof -
    from that have "map_of (pcl_address_to_peers ps) k = Some i"
      by (simp add: for_each_peer_def del: map_of_eq_Some_iff)
    then obtain p where "find_peer_by_index i ps = Some p" "pe_public_key p = Some k"
      using peers_ok_points [OF assms(1)] by blast
    with assms(2) [of p] show ?thesis by (simp add: for_each_peer_find)
  qed
qed

lemma remove_peers_ok:
  "peers_ok ps \<Longrightarrow> remove_peers is ps = Inr ps' \<Longrightarrow> peers_ok ps' \<and>
     (\<forall>j. find_peer_by_index j ps' \<in> {find_peer_by_index j ps, None})"
proof (induction "is" arbitrary: ps)
  case (Cons i "is")
  then obtain p where p: "find_peer_by_index i ps = Some p" and r: "remove_peers is (without_peer i p ps) = Inr ps'"
    by (auto simp: remove_peer_def find_peer_by_index_def without_peer_def simp del: map_of_eq_Some_iff)
  from Cons.IH [OF peers_ok_remove [OF Cons.prems(1) p] r] show ?case
    by (auto simp: find_without) (metis option.distinct(1))
qed simp

text \<open>
  What a step does to one peer: it stays as it was up to data that has no part in the handshake,
  is disconnected, is on the way to a connection, goes, or comes to be connected by a
  response that this node's challenge accepts, or as a STUN peer.
\<close>

definition accepted_by ::
  "ext \<Rightarrow> node_env \<Rightarrow> Peer \<Rightarrow> Peer \<Rightarrow> bool" where
  "accepted_by X env p p' \<longleftrightarrow> (\<exists>c (r :: HandshakeResponse). pe_challenge_for_peer p = Some c \<and>
     verify X c (hr_signature r) (hr_public_key r) \<and>
     is_same_minor_version (ne_core_version env) (hr_core_version r) \<and>
     pe_public_key p' = Some (hr_public_key r) \<and> pe_challenge_for_peer p' = None)"

definition peer_change :: "ext \<Rightarrow> node_env \<Rightarrow> Peer option \<Rightarrow> Peer option \<Rightarrow> bool" where
  "peer_change X env old new \<longleftrightarrow> new = None \<or> new = old \<or>
     (\<exists>p'. new = Some p' \<and>
       (pe_peer_status p' \<noteq> Connected \<or> peer_is_stun_peer p' \<or>
        (\<exists>p. old = Some p \<and> (pe_peer_status p = Connected \<and> pe_public_key p' = pe_public_key p \<or> accepted_by X env p p'))))"

lemma peer_change_each:
  assumes "\<And>p. pe_public_key (fst (f p)) = pe_public_key p \<and>
    (pe_peer_status (fst (f p)) = Connected \<longrightarrow> pe_peer_status p = Connected)"
  shows "peer_change X env (find_peer_by_index j ps) (find_peer_by_index j (fst (for_each_peer f ps)))"
proof (cases "find_peer_by_index j ps")
  case (Some p)
  with assms [of p] show ?thesis by (auto simp: for_each_peer_find peer_change_def)
qed (simp add: for_each_peer_find peer_change_def)

lemma net_step_ok:
  assumes "net_step X env w bc ps ps'" and "peers_ok ps"
  shows "peers_ok ps' \<and> (\<forall>j. peer_change X env (find_peer_by_index j ps) (find_peer_by_index j ps'))"
  using assms
proof cases
  case (timer t i)
  then show ?thesis using assms(2) peers_ok_distinct(3) [OF assms(2)]
    by (auto simp: net_update_peer_timer_def peer_change_def intro!: peers_ok_put split: option.split)
next
  case (disconnect t i ty ios)
  then show ?thesis using assms(2) peers_ok_distinct(3) [OF assms(2)]
    by (auto simp: net_handle_peer_disconnect_def peer_change_def Let_def intro!: peers_ok_put split: option.splits if_splits)
next
  case (new_peer random i ip ios)
  then show ?thesis using assms(2) peers_ok_distinct(3) [OF assms(2)]
    by (auto simp: net_handle_new_peer_def peer_initiate_handshake_def peer_new_def peer_change_def Let_def
        intro!: peers_ok_put split: option.splits if_splits)
next
  case (stun i k ios)
  have "peers_ok (put_peer i (peer_new_stun i k (ne_my_services env)) ps)" if "find_peer_by_index i ps = None"
    using assms(2) that by (intro peers_ok_put) (auto simp: peer_new_stun_def peer_new_def)
  from peers_ok_address [OF this, of i _ k] stun assms(2) show ?thesis
    by (auto simp: net_handle_new_stun_peer_def peer_new_stun_def peer_change_def peer_is_stun_peer_def
        find_peer_by_index_def update_conv put_peer_def simp del: map_of_eq_Some_iff split: if_splits)
next
  case (no_stun i ios)
  show ?thesis
  proof (cases "find_peer_by_index i ps")
    case (Some p)
    with no_stun have "ps' = without_peer i p ps"
      by (auto simp: net_remove_stun_peer_def without_peer_def Let_def split: option.splits)
    with peers_ok_remove [OF assms(2) Some] show ?thesis by (auto simp: find_without peer_change_def)
  qed (use no_stun assms(2) in \<open>auto simp: net_remove_stun_peer_def peer_change_def\<close>)
next
  case (connect t ios)
  have keep: "pe_index (fst (connect_to_static_peer t p)) = pe_index p \<and>
      pe_public_key (fst (connect_to_static_peer t p)) = pe_public_key p \<and>
      (pe_peer_status (fst (connect_to_static_peer t p)) = Connected \<longrightarrow> pe_peer_status p = Connected)" for p
    by (auto simp: connect_to_static_peer_def split: PeerStatus.splits)
  from connect have ps': "ps' = fst (for_each_peer (connect_to_static_peer t) ps)"
    by (simp add: net_connect_to_static_peers_def prod_eq_iff)
  show ?thesis unfolding ps' by (intro conjI allI peers_ok_each [OF assms(2)] peer_change_each) (use keep in blast)+
next
  case (ping t ios)
  let ?f = "\<lambda>p. if pe_public_key p \<noteq> None then peer_send_ping t p else (p, [])"
  have keep: "pe_index (fst (?f p)) = pe_index p \<and> pe_public_key (fst (?f p)) = pe_public_key p \<and>
      (pe_peer_status (fst (?f p)) = pe_peer_status p)" for p
    by (auto simp: peer_send_ping_def)
  from ping have ps': "ps' = fst (for_each_peer ?f ps)" by (simp add: net_send_pings_def prod_eq_iff)
  show ?thesis unfolding ps' by (intro conjI allI peers_ok_each [OF assms(2)] peer_change_each) (use keep in simp_all)
next
  case (challenge t random i c ios)
  then show ?thesis using assms(2) peers_ok_distinct(3) [OF assms(2)]
    by (auto simp: net_handle_handshake_challenge_def peer_handle_handshake_challenge_def peer_change_def
        dest!: limiter_keeps intro!: peers_ok_put split: option.splits prod.splits if_splits)
next
  case (keys t i ks r)
  then show ?thesis using assms(2) peers_ok_distinct(3) [OF assms(2)]
    by (auto simp: net_handle_received_key_list_def peer_change_def
        dest!: limiter_keeps intro!: peers_ok_put split: option.splits prod.splits if_splits)
next
  case (removal t)
  then show ?thesis using remove_peers_ok [OF assms(2)]
    by (force simp: remove_disconnected_peers_def peer_change_def)
next
  case (response t i r ios)
  show ?thesis
  proof (cases "find_peer_by_index i ps")
    case None
    with response assms(2) show ?thesis by (simp add: net_handle_handshake_response_def peer_change_def)
  next
    case (Some p)
    obtain x p1 where x: "count_handshake t p = (x, p1)" by force
    note keep = limiter_keeps(2) [OF x] and ix = peers_ok_distinct(3) [OF assms(2) Some]
    have put: "peers_ok (put_peer i q ps)"
      if "pe_index q = i" "pe_public_key p = None \<or> pe_public_key q = pe_public_key p" for q
      using that assms(2) Some by (intro peers_ok_put) auto
    show ?thesis
    proof (cases x)
      case True
      with response Some x have "ps' = put_peer i p1 ps" by (simp add: net_handle_handshake_response_def)
      with put [of p1] keep ix Some show ?thesis by (auto simp: peer_change_def)
    next
      case False
      with response Some x obtain res p2 ios2 where
        h: "peer_handle_handshake_response X env w t r p1 = Inr (res, p2, ios2)"
        and ps': "res \<noteq> None \<Longrightarrow> ps' = put_peer i p2 ps"
        and reg: "\<And>k. res = None \<Longrightarrow> pe_public_key p2 = Some k \<Longrightarrow> register_peer k i (put_peer i p2 ps) = Inr ps'"
        by (fastforce simp: net_handle_handshake_response_def split: option.splits)
      from h show ?thesis
      proof (cases rule: handshake_response_cases)
        case refused
        with ps' put [of p2] keep ix show ?thesis by (auto simp: peer_change_def)
      next
        case (accepted c)
        let ?k = "hr_public_key r"
        have ok: "peers_ok (put_peer i p2 ps)" using put [of p2] accepted keep ix by auto
        have acc: "accepted_by X env p q" if "pe_public_key q = Some ?k" "pe_challenge_for_peer q = None" for q
          using that accepted keep by (auto simp: accepted_by_def)
        have reg': "register_peer ?k i (put_peer i p2 ps) = Inr ps'" using reg accepted by blast
        note rp = register_peer_ok [OF ok _ accepted(7,8) reg', simplified]
        have "peer_change X env (find_peer_by_index j ps) (find_peer_by_index j ps')" for j
        proof (cases "j = i")
          case True
          from rp [THEN conjunct2, THEN spec, of i] consider "find_peer_by_index i ps' = Some p2" | "find_peer_by_index i ps' = None"
            | q where "find_peer_by_index i ps' = Some q" "pe_public_key q = Some ?k" "pe_challenge_for_peer q = None"
            using accepted(9) by auto
          then show ?thesis
            using True Some acc accepted(7,9) by cases (auto simp: peer_change_def)
        next
          case False
          with rp [THEN conjunct2, THEN spec, of j] show ?thesis by (auto simp: peer_change_def)
        qed
        with rp show ?thesis by blast
      qed
    qed
  qed
qed

lemma static_peers_ok:
  "peers_ok ps \<Longrightarrow> (\<And>i p. find_peer_by_index i ps = Some p \<Longrightarrow> i \<le> pcl_peer_counter ps) \<Longrightarrow>
   unat (pcl_peer_counter ps) + length configs < 2 ^ 64 \<Longrightarrow> peers_ok (net_initialize_static_peers configs ps)"
proof (induction configs arbitrary: ps)
  case (Cons config configs)
  let ?i = "pcl_peer_counter ps + 1" and ?ps = "ps\<lparr>pcl_peer_counter := pcl_peer_counter ps + 1\<rparr>"
  let ?p = "(peer_new ?i)\<lparr>pe_static_peer_config := Some config\<rparr>"
  have n: "unat ?i = unat (pcl_peer_counter ps) + 1" using Cons.prems(3) by (intro unat_count_Suc) simp
  have ok: "peers_ok ?ps" and find: "find_peer_by_index j ?ps = find_peer_by_index j ps" for j
    using Cons.prems(1) by (simp_all add: peers_ok_def find_peer_by_index_def del: map_of_eq_Some_iff)
  have "peers_ok (put_peer ?i ?p ?ps)"
    using ok Cons.prems(2) [of ?i] n find by (intro peers_ok_put) (auto simp: peer_new_def word_le_nat_alt)
  moreover have "j \<le> ?i" if "find_peer_by_index j ps = Some q" for j q
    using Cons.prems(2) [OF that] n by (simp add: word_le_nat_alt)
  ultimately have "peers_ok (net_initialize_static_peers configs (put_peer ?i ?p ?ps))"
    using Cons.prems(3) n find by (intro Cons.IH) (auto split: if_splits)
  then show ?case by (simp add: get_next_index_def peer_new_def)
qed simp

lemma peers_default_ok: "peers_ok peers_default" "find_peer_by_index i peers_default = None" "pcl_peer_counter peers_default = 0"
  by (simp_all add: peers_ok_def peers_default_def find_peer_by_index_def)

lemma net_reachable_ok: "net_reachable X env w bc ps \<Longrightarrow> peers_ok ps"
proof (induction rule: net_reachable.induct)
  case (init configs)
  then show ?case by (intro static_peers_ok) (simp_all add: peers_default_ok)
next
  case (step ps ps')
  then show ?case using net_step_ok by blast
qed

text \<open>
  C21. However peers connect, shake hands, reconnect, disconnect and are dropped, the collection
  stays consistent: a peer is stored under its own index, and the index of public keys never
  dangles: it leads to a stored peer, and that peer has the key.
\<close>

theorem peer_collection_consistent:
  assumes "net_reachable X env w bc ps"
  shows "(\<forall>i p. find_peer_by_index i ps = Some p \<longrightarrow> pe_index p = i) \<and>
    (\<forall>k i. map_of (pcl_address_to_peers ps) k = Some i \<longrightarrow>
       (\<exists>p. find_peer_by_address k ps = Some p \<and> pe_index p = i \<and> pe_public_key p = Some k))"
proof -
  note ok = net_reachable_ok [OF assms]
  have "\<exists>p. find_peer_by_address k ps = Some p \<and> pe_index p = i \<and> pe_public_key p = Some k"
    if "map_of (pcl_address_to_peers ps) k = Some i" for k i
    using peers_ok_points [OF ok that] that peers_ok_distinct(3) [OF ok] by (auto simp: find_peer_by_address_def)
  with peers_ok_distinct(3) [OF ok] show ?thesis by blast
qed

text \<open>
  C19. The only way for a peer to become connected is the handshake (STUN peers, announced by the
  host program, aside): in the step that connects it, a challenge that this node had sent it and
  had not used before was signed by the secret key of the public key under which it is then
  known, and its minor version is this node's; the challenge is spent.
\<close>

theorem connected_peer_signed:
  assumes "net_reachable X env w bc ps" and "net_step X env w bc ps ps'"
    and "find_peer_by_index i ps' = Some p'" and "pe_peer_status p' = Connected" and "\<not> peer_is_stun_peer p'"
    and "\<And>p. find_peer_by_index i ps = Some p \<Longrightarrow> pe_peer_status p \<noteq> Connected"
  shows "\<exists>p c (r :: HandshakeResponse). find_peer_by_index i ps = Some p \<and> pe_challenge_for_peer p = Some c \<and>
    verify X c (hr_signature r) (hr_public_key r) \<and> pe_public_key p' = Some (hr_public_key r) \<and>
    is_same_minor_version (ne_core_version env) (hr_core_version r) \<and> pe_challenge_for_peer p' = None"
proof -
  have "peer_change X env (find_peer_by_index i ps) (find_peer_by_index i ps')"
    using net_step_ok [OF assms(2) net_reachable_ok [OF assms(1)]] by blast
  with assms(3-6) show ?thesis
    by (auto simp: peer_change_def accepted_by_def)
qed

section \<open>What the handshake does not bind\<close>

lemma send_to_peers_only_panics: "only_panics (send_to_peers X w tx ps)"
proof (induction ps)
  case (Cons x ps)
  have "only_panics (tx_add_hop X sk pk k tx)" for sk pk k
    by (auto simp: only_panics_def tx_add_hop_def hop_generate_def sign_def Let_def rbind_eq_Inl split: if_splits)
  with Cons show ?case
    by (cases x) (auto intro!: only_panics_rbind simp: only_panics_intros split: option.split)
qed (simp add: only_panics_intros)

lemma send_to_own_key:
  assumes "(i, p) \<in> set ps" and "pe_public_key p = Some (w_public_key w)" and "\<not> tx_is_in_path (w_public_key w) tx"
  shows "send_to_peers X w tx ps = Inl Panic"
proof -
  have "send_to_peers X w tx ps \<noteq> Inr ios" for ios
    using assms
  proof (induction ps arbitrary: ios)
    case (Cons x ps)
    then show ?case
      by (cases x) (auto simp: tx_add_hop_def split: option.split)
  qed simp
  with send_to_peers_only_panics [of X w tx ps] show ?thesis
    by (cases "send_to_peers X w tx ps") (auto simp: only_panics_def)
qed

lemma propagate_to_own_key:
  assumes "find_peer_by_index i ps = Some p" and "pe_public_key p = Some (w_public_key w)"
    and "\<not> tx_is_in_path (w_public_key w) tx"
  shows "net_propagate_transaction X w tx ps = Inl Panic"
proof (cases "tx_from tx")
  case (Cons s ss)
  let ?m = "if slip_public_key s = w_public_key w \<and> tx_transaction_type tx \<noteq> TT_GoldenTicket
    then wallet_add_to_pending tx w else Inr w"
  have "?m = Inl Panic \<or> (\<exists>w1. ?m = Inr w1 \<and> w_public_key w1 = w_public_key w)"
    using Cons by (cases "tx_hash_for_signature tx") (auto simp: wallet_add_to_pending_def)
  moreover have "(i, p) \<in> set (pcl_index_to_peers ps)"
    using assms(1) by (auto simp: find_peer_by_index_def dest: map_of_SomeD)
  ultimately show ?thesis
    using assms(2,3) Cons send_to_own_key [of i p "pcl_index_to_peers ps" _ tx X]
    by (auto simp: net_propagate_transaction_def)
qed (simp add: net_propagate_transaction_def)

text \<open>
  C40. The signature of a handshake covers the challenge and nothing else, so a node can be made
  to answer its own challenge: whoever opens two connections and returns, over the second,
  the challenge received on the first gets a response that the first accepts. That connection
  then counts as connected under the public key of the node itself, and the next transaction
  the node passes on stops it: adding a hop to oneself is a failed assertion.
\<close>

theorem reflected_handshake:
  assumes "crypto_laws X" and "node_ok X env w" and "length c = 32" and "length random = 32"
    and "peers_ok ps" and "find_peer_by_index i ps = Some p" and "find_peer_by_index j ps = Some q" and "j \<noteq> i"
    and "pe_challenge_for_peer p = Some c" and "pe_public_key p = None" and "pe_static_peer_config p = None"
    and "\<And>k p'. find_peer_by_index k ps = Some p' \<Longrightarrow> pe_public_key p' \<noteq> Some (w_public_key w)"
    and "\<not> fst (count_handshake t p)" and "\<not> fst (count_handshake t q)"
    and "net_request_blockchain_from_peer env bc i = Inr requests"
  shows "\<exists>ps1 m r ps2 ios p2.
    net_handle_handshake_challenge X env w t random j \<lparr>hc_challenge = c\<rparr> ps = Inr (ps1, [SendMessage j m]) \<and>
    message_deserialize m = Inr (Msg_HandshakeResponse r) \<and>
    net_handle_handshake_response X env w bc t i r ps1 = Inr (ps2, ios) \<and>
    find_peer_by_index i ps2 = Some p2 \<and> pe_peer_status p2 = Connected \<and>
    pe_public_key p2 = Some (w_public_key w) \<and>
    (\<forall>tx. \<not> tx_is_in_path (w_public_key w) tx \<longrightarrow> net_propagate_transaction X w tx ps2 = Inl Panic)"
proof -
  obtain r where r: "my_handshake_response X env w c random = Inr r" "hr_public_key r = w_public_key w"
    "verify X c (hr_signature r) (w_public_key w)" "hr_challenge r = random" "hr_core_version r = ne_core_version env"
    "message_deserialize (message_serialize (Msg_HandshakeResponse r)) = Inr (Msg_HandshakeResponse r)"
    by (rule my_response [OF assms(1,2,4), of c]) blast
  obtain r2 where r2: "my_handshake_response X env w random (replicate 32 0) = Inr r2"
    by (rule my_response [OF assms(1,2), of "replicate 32 0" random]) (simp, blast)
  obtain q1 where q1: "count_handshake t q = (False, q1)" using assms(14) by (cases "count_handshake t q") auto
  obtain p1 where p1: "count_handshake t p = (False, p1)" using assms(13) by (cases "count_handshake t p") auto
  let ?ps1 = "put_peer j (q1\<lparr>pe_challenge_for_peer := Some random\<rparr>) ps"
  have "pe_index q1 = j" using limiter_keeps(2) [OF q1] peers_ok_distinct(3) [OF assms(5,7)] by simp
  then have c1: "net_handle_handshake_challenge X env w t random j \<lparr>hc_challenge = c\<rparr> ps =
      Inr (?ps1, [SendMessage j (message_serialize (Msg_HandshakeResponse r))])"
    by (simp add: net_handle_handshake_challenge_def assms(7) q1 peer_handle_handshake_challenge_def r(1))
  obtain p2 ios where p2: "peer_handle_handshake_response X env w t r p1 = Inr (None, p2, ios)"
    "pe_peer_status p2 = Connected" "pe_public_key p2 = Some (hr_public_key r)"
    by (rule response_accepted [of r p1 c X env w r2 t])
      (use limiter_keeps(2) [OF p1] r r2 assms in \<open>simp_all add: is_same_minor_version_def node_ok_def\<close>)
  let ?ps2 = "put_peer i p2 ?ps1"
  have "pe_public_key p' \<noteq> Some (w_public_key w) \<or> pe_peer_status p' = Connected"
    if "find_peer_by_index k ?ps2 = Some p'" for k p'
    using that assms(7,12) p2 limiter_keeps(2) [OF q1] by (auto split: if_splits)
  moreover have "distinct (map fst (pcl_index_to_peers ?ps2))"
    using peers_ok_distinct(1) [OF assms(5)] by (simp add: put_peer_def distinct_update)
  ultimately have "remove_reconnected_peer (w_public_key w) ?ps2 = (None, ?ps2)"
    by (fastforce simp: remove_reconnected_peer_def find_peer_by_index_def find_Some_iff in_set_conv_nth
        split: option.split)
  then have "net_handle_handshake_response X env w bc t i r ?ps1 =
      Inr (?ps2\<lparr>pcl_address_to_peers := AList.update (w_public_key w) i (pcl_address_to_peers ?ps2)\<rparr>,
        ios @ [SendInterfaceEvent (PeerConnected i)] @ requests)"
    using assms(6,8,15) p1 p2 r(2) by (simp add: net_handle_handshake_response_def register_peer_def)
  moreover have "find_peer_by_index i (?ps2\<lparr>pcl_address_to_peers := a\<rparr>) = Some p2" for a
    by (simp add: find_peer_by_index_def put_peer_def update_conv)
  ultimately show ?thesis
    using c1 r(6) p2 r(2) propagate_to_own_key [of i _ p2 w _ X] by (intro exI conjI) auto
qed

text \<open>
  A peer that is already known under one key can stop the node with a second key of its own:
  it sends a challenge, signs the challenge that comes with the answer by the other key, and
  the accepted signature meets a failed assertion on the public key.
\<close>

theorem second_key_panics:
  assumes "crypto_laws X" and "node_ok X env w" and "node_ok X env2 w2"
    and "ver_major (ne_core_version env) = ver_major (ne_core_version env2)"
    and "ver_minor (ne_core_version env) = ver_minor (ne_core_version env2)"
    and "length c = 32" and "length random = 32"
    and "find_peer_by_index i ps = Some p" and "pe_public_key p = Some k" and "k \<noteq> w_public_key w2"
    and "\<not> fst (count_handshake t p)" and "\<not> fst (count_handshake t (snd (count_handshake t p)))"
  shows "\<exists>ps1 m r r2.
    net_handle_handshake_challenge X env w t random i \<lparr>hc_challenge = c\<rparr> ps = Inr (ps1, [SendMessage (pe_index p) m]) \<and>
    message_deserialize m = Inr (Msg_HandshakeResponse r) \<and>
    my_handshake_response X env2 w2 (hr_challenge r) c = Inr r2 \<and>
    net_handle_handshake_response X env w bc t i r2 ps1 = Inl Panic"
proof -
  obtain r where r: "my_handshake_response X env w c random = Inr r" "hr_challenge r = random"
    "message_deserialize (message_serialize (Msg_HandshakeResponse r)) = Inr (Msg_HandshakeResponse r)"
    by (rule my_response [OF assms(1,2,7), of c]) blast
  obtain r2 where r2: "my_handshake_response X env2 w2 random c = Inr r2" "hr_public_key r2 = w_public_key w2"
    "verify X random (hr_signature r2) (w_public_key w2)" "hr_core_version r2 = ne_core_version env2"
    by (rule my_response [OF assms(1,3,6), of random]) blast
  obtain p1 where p1: "count_handshake t p = (False, p1)" using assms(11) by (cases "count_handshake t p") auto
  let ?p1 = "p1\<lparr>pe_challenge_for_peer := Some random\<rparr>"
  obtain p2 where "count_handshake t p1 = (False, p2)"
    using assms(12) p1 by (cases "count_handshake t p1") auto
  then have p2: "count_handshake t ?p1 = (False, p2\<lparr>pe_challenge_for_peer := Some random\<rparr>)"
    by (auto simp: count_handshake_def peer_has_handshake_limit_exceeded_def split: prod.splits)
  have v: "version_is_set (ne_core_version env)" "version_is_set (ne_core_version env2)"
    using assms(2,3) by (simp_all add: node_ok_def)
  have "pe_public_key p2 = Some k"
    using limiter_keeps(2) [OF p1] limiter_keeps(2) [OF \<open>count_handshake t p1 = (False, p2)\<close>] assms(9) by simp
  then have "peer_handle_handshake_response X env w t r2 (p2\<lparr>pe_challenge_for_peer := Some random\<rparr>) = Inl Panic"
    using r2 v assms(4,5,10) by (auto simp: peer_handle_handshake_response_def is_same_minor_version_def)
  then have "net_handle_handshake_response X env w bc t i r2 (put_peer i ?p1 ps) = Inl Panic"
    by (simp add: net_handle_handshake_response_def p2)
  moreover have "net_handle_handshake_challenge X env w t random i \<lparr>hc_challenge = c\<rparr> ps =
      Inr (put_peer i ?p1 ps, [SendMessage (pe_index p) (message_serialize (Msg_HandshakeResponse r))])"
    using limiter_keeps(2) [OF p1]
    by (simp add: net_handle_handshake_challenge_def assms(8) p1 peer_handle_handshake_challenge_def r(1))
  ultimately show ?thesis using r r2 by blast
qed

text \<open>
  A peer that comes back on a new connection is lost to the index of keys: its old entry is
  joined into the new one and the entry of its key is dropped with it, but never made again, so
  the connected peer is not found under its key.
\<close>

theorem reconnection_forgets_address:
  assumes "peers_ok ps" and "net_handle_handshake_response X env w bc t i r ps = Inr (ps', ios)"
    and "find_peer_by_index i ps = Some p" and "pe_peer_status p \<noteq> Connected"
    and "find_peer_by_index j ps = Some old" and "j \<noteq> i" and "pe_peer_status old \<noteq> Connected"
    and "pe_public_key old = Some (hr_public_key r)"
    and "find_peer_by_index i ps' = Some p'" and "pe_peer_status p' = Connected"
  shows "pe_public_key p' = Some (hr_public_key r) \<and> find_peer_by_address (hr_public_key r) ps' = None"
proof -
  let ?k = "hr_public_key r"
  obtain x p1 where x: "count_handshake t p = (x, p1)" by force
  note keep = limiter_keeps(2) [OF x]
  have "\<not> x" using assms(2-4,9,10) x keep by (auto simp: net_handle_handshake_response_def)
  with assms(2,3) x obtain res p2 ios2 where
    h: "peer_handle_handshake_response X env w t r p1 = Inr (res, p2, ios2)"
    and refused: "res \<noteq> None \<Longrightarrow> ps' = put_peer i p2 ps"
    and reg: "\<And>k. res = None \<Longrightarrow> pe_public_key p2 = Some k \<Longrightarrow> register_peer k i (put_peer i p2 ps) = Inr ps'"
    by (fastforce simp: net_handle_handshake_response_def split: option.splits)
  have "res = None"
    using h refused assms(9,10) by (cases rule: handshake_response_cases [OF h]) auto
  with h have acc: "pe_public_key p2 = Some ?k" "pe_peer_status p2 = Connected"
    "pe_public_key p1 = None \<or> pe_public_key p1 = Some ?k" "pe_index p2 = pe_index p1"
    by (auto elim: handshake_response_cases)
  let ?ps1 = "put_peer i p2 ps"
  have ok: "peers_ok ?ps1"
    using assms(1,3) acc keep peers_ok_distinct(3) [OF assms(1,3)] by (intro peers_ok_put) auto
  obtain o1 ps2 where rr: "remove_reconnected_peer ?k ?ps1 = (o1, ps2)" by force
  have "(j, old) \<in> set (pcl_index_to_peers ?ps1)"
    using assms(5,6) by (auto simp: find_peer_by_index_def put_peer_def update_conv intro!: map_of_SomeD)
  then have "o1 \<noteq> None"
    using rr assms(7,8) by (auto simp: remove_reconnected_peer_def find_None_iff split: option.splits)
  with remove_reconnected_conv [OF ok rr] obtain l q where q: "o1 = Some q" "pe_public_key q = Some ?k"
    "ps2 = without_peer l q ?ps1" by blast
  from reg \<open>res = None\<close> acc(1) rr q obtain p3 where p3: "ps' = put_peer i p3 ps2"
    and join: "\<exists>p. find_peer_by_index i ps2 = Some p \<and> peer_join_as_reconnection q p = Inr p3"
    by (auto simp: register_peer_def)
  have "distinct (map fst (pcl_address_to_peers ?ps1))" using ok by (rule peers_ok_distinct)
  then have "map_of (pcl_address_to_peers ps') ?k = None"
    using p3 q by (simp add: without_peer_def delete_conv)
  moreover have "pe_public_key p' = Some ?k"
  proof -
    from join obtain p4 where p4: "find_peer_by_index i ps2 = Some p4" "pe_public_key p3 = pe_public_key p4"
      by (auto simp: peer_join_as_reconnection_def split: if_splits)
    then have "p4 = p2" using q by (auto simp: find_without split: if_splits)
    with p3 p4 assms(9) acc show ?thesis by simp
  qed
  ultimately show ?thesis by (simp add: find_peer_by_address_def)
qed

section \<open>Concrete runs\<close>

text \<open>Peer 1 and peer 2 have connected and were sent a challenge each.\<close>

definition demo_peer :: "u64 \<Rightarrow> Peer" where
  "demo_peer i = (peer_new i)\<lparr>pe_peer_status := Connecting, pe_challenge_for_peer := Some (replicate 32 7)\<rparr>"

definition demo_peers :: PeerCollection where
  "demo_peers = put_peer 2 (demo_peer 2) (put_peer 1 (demo_peer 1) peers_default)"

lemma demo_peer_fields [simp]:
  "pe_index (demo_peer i) = i" "pe_peer_status (demo_peer i) = Connecting" "pe_public_key (demo_peer i) = None"
  "pe_static_peer_config (demo_peer i) = None" "pe_challenge_for_peer (demo_peer i) = Some (replicate 32 7)"
  "pe_peer_type (demo_peer i) = PT_Default"
  by (simp_all add: demo_peer_def peer_new_def)

lemma demo_peers_find: "find_peer_by_index i demo_peers = (if i = 2 then Some (demo_peer 2) else if i = 1 then Some (demo_peer 1) else None)"
  by (simp add: demo_peers_def peers_default_ok)

lemma demo_peers_reachable: "net_reachable X env w bc demo_peers"
proof -
  have r0: "net_reachable X env w bc peers_default" using net_reachable.init [of "[]"] by simp
  have new: "net_step X env w bc ps (put_peer i (demo_peer i) ps)" if "find_peer_by_index i ps = None" for i ps
    by (rule net_step.new_peer [of "replicate 32 7" i None _ _
          "[SendMessage i (message_serialize (Msg_HandshakeChallenge \<lparr>hc_challenge = replicate 32 7\<rparr>))]"])
      (use that in \<open>simp add: net_handle_new_peer_def peer_initiate_handshake_def demo_peer_def peer_new_def\<close>)
  have r1: "net_reachable X env w bc (put_peer 1 (demo_peer 1) peers_default)"
    by (rule net_reachable.step [OF r0 new]) (simp add: peers_default_ok)
  show ?thesis
    unfolding demo_peers_def by (rule net_reachable.step [OF r1 new]) (simp add: peers_default_ok)
qed

lemma demo_handshake_count: "count_handshake 5 (demo_peer i) = (False, demo_peer i\<lparr>pe_handshake_limiter :=
    \<lparr>rl_limit = 100, rl_window = 60000, rl_request_count = 1, rl_last_request_time = 0\<rparr>\<rparr>)"
  by (simp add: count_handshake_def peer_has_handshake_limit_exceeded_def rl_has_limit_exceeded_def rl_increase_def
      rl_builder_def demo_peer_def peer_new_def sat_sub_def)
    (simp add: word_le_nat_alt)

lemma demo_requests: "\<exists>requests. net_request_blockchain_from_peer demo_env (bc_new 2 0 0) i = Inr requests"
proof -
  have "bc_get_latest_block_id (bc_new 2 0 0) = Inr 0" "\<exists>h. bc_get_latest_block_hash (bc_new 2 0 0) = Inr h"
    by (simp_all add: bc_get_latest_block_id_def bc_get_latest_block_hash_def bc_new_def br_new_def
        br_get_latest_block_id_def br_get_latest_block_hash_def)
  moreover have "\<exists>f. bc_generate_fork_id (bc_new 2 0 0) 0 = Inr f"
    by (simp add: bc_generate_fork_id_def FORK_ID_WEIGHTS_def)
  ultimately show ?thesis
    by (auto simp: net_request_blockchain_from_peer_def demo_env_def demo_peer_node_config_def blockchain_request_def)
qed

theorem peer_collection_consistent_witness:
  "net_reachable demo_ext demo_env (demo_wallet 1) (bc_new 2 0 0) demo_peers \<and>
   (\<exists>p. find_peer_by_index 2 demo_peers = Some p \<and> pe_index p = 2)"
proof (intro conjI exI)
  show r: "net_reachable demo_ext demo_env (demo_wallet 1) (bc_new 2 0 0) demo_peers" by (rule demo_peers_reachable)
  show f: "find_peer_by_index 2 demo_peers = Some (demo_peer 2)" by (simp only: demo_peers_find if_P)
  show "pe_index (demo_peer 2) = 2"
    by (rule peer_collection_consistent [OF r, THEN conjunct1, THEN spec, THEN spec, THEN mp, OF f])
qed

text \<open>The other node answers; its response is accepted.\<close>

lemma demo_response:
  obtains r :: HandshakeResponse where "hr_public_key r = 2 # replicate 32 2"
    "verify demo_ext (replicate 32 7) (hr_signature r) (2 # replicate 32 2)"
    "hr_challenge r = replicate 32 8" "hr_core_version r = ne_core_version demo_env"
    "message_deserialize (message_serialize (Msg_HandshakeResponse r)) = Inr (Msg_HandshakeResponse r)"
proof -
  have k: "w_public_key (demo_wallet 2) = 2 # replicate 32 2" by (simp add: demo_wallet_def wallet_new_def)
  show thesis
    by (rule my_response [OF crypto_laws_demo demo_node_ok [of 2], of "replicate 32 8" "replicate 32 7"])
      (simp, rule that, use k in simp_all)
qed

lemma demo_accepts:
  fixes r :: HandshakeResponse
  assumes r: "hr_public_key r = 2 # replicate 32 2" "verify demo_ext (replicate 32 7) (hr_signature r) (2 # replicate 32 2)"
      "hr_challenge r = replicate 32 8" "hr_core_version r = ne_core_version demo_env"
    and "find_peer_by_index i ps = Some p" and "count_handshake 5 p = (False, p1)"
    and "pe_challenge_for_peer p1 = Some (replicate 32 7)" and "pe_public_key p1 = None" and "pe_static_peer_config p1 = None"
    and "\<And>p2. pe_peer_status p2 = Connected \<Longrightarrow> pe_public_key p2 = Some (2 # replicate 32 2) \<Longrightarrow> pe_index p2 = pe_index p1 \<Longrightarrow>
      \<exists>ps'. register_peer (2 # replicate 32 2) i (put_peer i p2 ps) = Inr ps'"
  shows "\<exists>p2 ios ps'. pe_peer_status p2 = Connected \<and>
    pe_public_key p2 = Some (2 # replicate 32 2) \<and> pe_peer_type p2 = pe_peer_type p1 \<and>
    register_peer (2 # replicate 32 2) i (put_peer i p2 ps) = Inr ps' \<and>
    net_handle_handshake_response demo_ext demo_env (demo_wallet 1) (bc_new 2 0 0) 5 i r ps = Inr (ps', ios)"
proof -
  obtain r2 where r2: "my_handshake_response demo_ext demo_env (demo_wallet 1) (replicate 32 8) (replicate 32 0) = Inr r2"
    by (rule my_response [OF crypto_laws_demo demo_node_ok [of 1], of "replicate 32 0" "replicate 32 8"]) (simp, blast)
  have v: "version_is_set (ne_core_version demo_env)"
    "is_same_minor_version (ne_core_version demo_env) (ne_core_version demo_env)"
    by (simp_all add: demo_env_def version_is_set_def is_same_minor_version_def)
  obtain p2 ios where p2: "peer_handle_handshake_response demo_ext demo_env (demo_wallet 1) 5 r p1 = Inr (None, p2, ios)"
    "pe_peer_status p2 = Connected" "pe_public_key p2 = Some (hr_public_key r)" "pe_index p2 = pe_index p1"
    by (rule response_accepted [of r p1 "replicate 32 7" demo_ext demo_env "demo_wallet 1" r2 5])
      (use r r2 v assms(7-9) in simp_all)
  moreover from p2(1) have "pe_peer_type p2 = pe_peer_type p1"
    by (auto elim: handshake_response_cases)
  moreover obtain ps' where "register_peer (2 # replicate 32 2) i (put_peer i p2 ps) = Inr ps'"
    using assms(10) p2 r by auto
  moreover obtain requests where "net_request_blockchain_from_peer demo_env (bc_new 2 0 0) i = Inr requests"
    using demo_requests by blast
  ultimately show ?thesis
    using assms(5,6) r(1) by (intro exI [of _ p2] exI) (simp add: net_handle_handshake_response_def)
qed

lemma demo_accepted:
  assumes "find_peer_by_index i ps = Some p" and "count_handshake 5 p = (False, p1)"
    and "pe_challenge_for_peer p1 = Some (replicate 32 7)" and "pe_public_key p1 = None" and "pe_static_peer_config p1 = None"
    and "\<And>p2. pe_peer_status p2 = Connected \<Longrightarrow> pe_public_key p2 = Some (2 # replicate 32 2) \<Longrightarrow> pe_index p2 = pe_index p1 \<Longrightarrow>
      \<exists>ps'. register_peer (2 # replicate 32 2) i (put_peer i p2 ps) = Inr ps'"
  shows "\<exists>r p2 ios ps'. hr_public_key r = 2 # replicate 32 2 \<and> pe_peer_status p2 = Connected \<and>
    pe_public_key p2 = Some (2 # replicate 32 2) \<and> pe_peer_type p2 = pe_peer_type p1 \<and>
    register_peer (2 # replicate 32 2) i (put_peer i p2 ps) = Inr ps' \<and>
    net_handle_handshake_response demo_ext demo_env (demo_wallet 1) (bc_new 2 0 0) 5 i r ps = Inr (ps', ios)"
proof -
  obtain r :: HandshakeResponse where r: "hr_public_key r = 2 # replicate 32 2"
    "verify demo_ext (replicate 32 7) (hr_signature r) (2 # replicate 32 2)"
    "hr_challenge r = replicate 32 8" "hr_core_version r = ne_core_version demo_env"
    by (rule demo_response)
  from r(1) demo_accepts [OF r assms] show ?thesis by blast
qed

lemma register_new:
  assumes "\<And>j q. (j, q) \<in> set (pcl_index_to_peers ps) \<Longrightarrow> pe_public_key q \<noteq> Some k \<or> pe_peer_status q = Connected"
  shows "register_peer k i ps = Inr (ps\<lparr>pcl_address_to_peers := AList.update k i (pcl_address_to_peers ps)\<rparr>)"
proof -
  have "find (\<lambda>(i, p). pe_public_key p = Some k \<and> pe_peer_status p \<noteq> Connected) (pcl_index_to_peers ps) = None"
    using assms by (auto simp: find_None_iff)
  then show ?thesis by (simp add: register_peer_def remove_reconnected_peer_def)
qed

theorem connected_peer_signed_witness:
  "\<exists>p c (r :: HandshakeResponse). find_peer_by_index 1 demo_peers = Some p \<and> pe_challenge_for_peer p = Some c \<and>
    verify demo_ext c (hr_signature r) (hr_public_key r)"
proof -
  let ?k = "2 # replicate 32 2 :: bytes"
  have reg: "register_peer ?k 1 (put_peer 1 p2 demo_peers) =
      Inr ((put_peer 1 p2 demo_peers)\<lparr>pcl_address_to_peers := [(?k, 1)]\<rparr>)" if "pe_peer_status p2 = Connected" for p2
    using that by (subst register_new) (auto simp: demo_peers_def put_peer_def peers_default_def)
  obtain r p2 ios where r: "pe_peer_status p2 = Connected" "pe_peer_type p2 = PT_Default"
    "net_handle_handshake_response demo_ext demo_env (demo_wallet 1) (bc_new 2 0 0) 5 1 r demo_peers =
      Inr ((put_peer 1 p2 demo_peers)\<lparr>pcl_address_to_peers := [(?k, 1)]\<rparr>, ios)"
    using demo_accepted [of 1 demo_peers "demo_peer 1", OF _ demo_handshake_count] reg by (auto simp: demo_peers_find)
  let ?ps = "(put_peer 1 p2 demo_peers)\<lparr>pcl_address_to_peers := [(?k, 1)]\<rparr>"
  have "find_peer_by_index 1 ?ps = Some p2" by (simp add: find_peer_by_index_def put_peer_def update_conv)
  from connected_peer_signed [OF demo_peers_reachable net_step.response [OF r(3)] this r(1)] r(2)
  show ?thesis by (auto simp: peer_is_stun_peer_def demo_peers_find)
qed

theorem reflected_handshake_witness:
  "\<exists>m r ps2 p2. message_deserialize m = Inr (Msg_HandshakeResponse r) \<and>
    find_peer_by_index 1 ps2 = Some p2 \<and> pe_public_key p2 = Some (w_public_key (demo_wallet 1)) \<and>
    net_propagate_transaction demo_ext (demo_wallet 1) tx_default ps2 = Inl Panic"
proof -
  obtain requests where q: "net_request_blockchain_from_peer demo_env (bc_new 2 0 0) 1 = Inr requests"
    using demo_requests by blast
  have ok: "peers_ok demo_peers"
    using net_reachable_ok [OF demo_peers_reachable [of demo_ext demo_env "demo_wallet 1" "bc_new 2 0 0"]] .
  have f: "find_peer_by_index 1 demo_peers = Some (demo_peer 1)" "find_peer_by_index 2 demo_peers = Some (demo_peer 2)"
    by (simp_all add: demo_peers_find)
  have "\<not> tx_is_in_path (w_public_key (demo_wallet 1)) tx_default"
    by (simp add: tx_is_in_path_def tx_default_def demo_wallet_def wallet_new_def tx_is_from_def)
  moreover have "\<not> fst (count_handshake 5 (demo_peer i))" for i by (simp add: demo_handshake_count)
  moreover have "find_peer_by_index k demo_peers = Some p' \<Longrightarrow> pe_public_key p' \<noteq> Some (w_public_key (demo_wallet 1))" for k p'
    by (auto simp: demo_peers_find split: if_splits)
  ultimately show ?thesis
    using reflected_handshake [OF crypto_laws_demo demo_node_ok [of 1] _ _ ok f _ demo_peer_fields(5) demo_peer_fields(3)
      demo_peer_fields(4) _ _ _ q, of "replicate 32 9" 5]
    by simp blast
qed

theorem second_key_panics_witness:
  "\<exists>ps1 m r r2.
    net_handle_handshake_challenge demo_ext demo_env (demo_wallet 1) 5 (replicate 32 9) 1 \<lparr>hc_challenge = replicate 32 7\<rparr>
      (put_peer 1 ((demo_peer 1)\<lparr>pe_public_key := Some (2 # replicate 32 3)\<rparr>) peers_default) = Inr (ps1, [SendMessage 1 m]) \<and>
    message_deserialize m = Inr (Msg_HandshakeResponse r) \<and>
    net_handle_handshake_response demo_ext demo_env (demo_wallet 1) (bc_new 2 0 0) 5 1 r2 ps1 = Inl Panic"
proof -
  let ?p = "(demo_peer 1)\<lparr>pe_public_key := Some (2 # replicate 32 3)\<rparr>"
  have c: "\<not> fst (count_handshake 5 ?p)" "\<not> fst (count_handshake 5 (snd (count_handshake 5 ?p)))"
    by (simp_all add: count_handshake_def peer_has_handshake_limit_exceeded_def rl_has_limit_exceeded_def rl_increase_def
        rl_builder_def demo_peer_def peer_new_def sat_sub_def) (simp_all add: word_le_nat_alt)
  have k: "2 # replicate 32 3 \<noteq> w_public_key (demo_wallet 2)"
    by (simp add: demo_wallet_def wallet_new_def numeral_eq_Suc)
  have f: "find_peer_by_index 1 (put_peer 1 ?p peers_default) = Some ?p" by simp
  from second_key_panics [where bc = "bc_new 2 0 0", OF crypto_laws_demo demo_node_ok [of 1] demo_node_ok [of 2] refl refl _ _ f _ k c,
      of "replicate 32 7" "replicate 32 9"]
  show ?thesis by simp blast
qed

text \<open>Peer 1 had been connected under the key before.\<close>

definition demo_old_peers :: PeerCollection where
  "demo_old_peers = put_peer 2 (demo_peer 2)
     (put_peer 1 ((peer_new 1)\<lparr>pe_public_key := Some (2 # replicate 32 2)\<rparr>) peers_default)"

theorem reconnection_forgets_address_witness:
  "\<exists>r ps' ios p'. net_handle_handshake_response demo_ext demo_env (demo_wallet 1) (bc_new 2 0 0) 5 2 r demo_old_peers =
      Inr (ps', ios) \<and> find_peer_by_index 2 ps' = Some p' \<and> pe_peer_status p' = Connected \<and>
    find_peer_by_address (2 # replicate 32 2) ps' = None"
proof -
  let ?k = "2 # replicate 32 2 :: bytes" and ?old = "(peer_new 1)\<lparr>pe_public_key := Some (2 # replicate 32 2)\<rparr>"
  have ok: "peers_ok demo_old_peers"
    unfolding demo_old_peers_def by (intro peers_ok_put) (auto simp: peers_default_ok peer_new_def)
  have f: "find_peer_by_index 2 demo_old_peers = Some (demo_peer 2)" "find_peer_by_index 1 demo_old_peers = Some ?old"
    by (simp_all add: demo_old_peers_def)
  have st: "pe_peer_status ?old \<noteq> Connected" "pe_peer_status (demo_peer 2) \<noteq> Connected" by (simp_all add: peer_new_def)
  have reg: "\<exists>p3. register_peer ?k 2 (put_peer 2 p2 demo_old_peers) =
      Inr \<lparr>pcl_index_to_peers = [(2, p3)], pcl_address_to_peers = [], pcl_peer_counter = 0\<rparr> \<and> pe_peer_status p3 = Connected"
    if "pe_peer_status p2 = Connected" for p2
    using that
    by (simp add: register_peer_def remove_reconnected_peer_def demo_old_peers_def put_peer_def peers_default_def
        peer_new_def find_peer_by_index_def peer_join_as_reconnection_def)
  obtain r ps' ios where r: "hr_public_key r = ?k"
    "net_handle_handshake_response demo_ext demo_env (demo_wallet 1) (bc_new 2 0 0) 5 2 r demo_old_peers = Inr (ps', ios)"
    "\<exists>p3. ps' = \<lparr>pcl_index_to_peers = [(2, p3)], pcl_address_to_peers = [], pcl_peer_counter = 0\<rparr> \<and> pe_peer_status p3 = Connected"
    using demo_accepted [of 2 demo_old_peers "demo_peer 2", OF f(1) demo_handshake_count] reg by simp (metis sum.inject(2))
  then obtain p3 where p3: "find_peer_by_index 2 ps' = Some p3" "pe_peer_status p3 = Connected"
    by (auto simp: find_peer_by_index_def)
  have "pe_public_key ?old = Some (hr_public_key r)" using r(1) by simp
  from reconnection_forgets_address [OF ok r(2) f(1) st(2) f(2) _ st(1) this p3] r p3 show ?thesis by auto
qed

end
