(* ===== verification/Sync_State.thy ===== *)
theory Sync_State
  imports Peer_Network "HOL-Library.Multiset" "HOL-Library.List_Lexorder" "HOL-Library.Product_Lexorder"
begin

text \<open>
  Which blocks to fetch from which peer (\<^verbatim>\<open>consensus/blockchain_sync_state.rs\<close>): the
  blocks peers announced, the queue of each peer with the status of its blocks, and the batches
  that are requested. Its invariant: no peer is asked for more blocks at a time than the batch
  size, so the quota never underflows.
\<close>

section \<open>Data\<close>

datatype BlockStatus = Queued | Fetching | Fetched | Failed

record BlockData =
  bd_block_hash :: bytes
  bd_block_id :: u64
  bd_status :: BlockStatus
  bd_retry_count :: u32

definition MAX_RETRIES_PER_BLOCK :: u32 where
  "MAX_RETRIES_PER_BLOCK = 500"

text \<open>The hash maps are lists in the order of the map. The batch size is a 64-bit \<^verbatim>\<open>usize\<close>.\<close>

record BlockchainSyncState =
  ss_received_block_picture :: "(u64 \<times> (u64 \<times> bytes) list) list"
  ss_blocks_to_fetch :: "(u64 \<times> BlockData list) list"
  ss_batch_size :: u64

definition sync_new :: "u64 \<Rightarrow> BlockchainSyncState" where
  "sync_new batch_size = \<lparr>ss_received_block_picture = [], ss_blocks_to_fetch = [],
     ss_batch_size = batch_size\<rparr>"

text \<open>\<^verbatim>\<open>map.entry(key).or_default()\<close>\<close>

definition or_default :: "'k \<Rightarrow> ('k \<times> 'v list) list \<Rightarrow> 'v list" where
  "or_default k m = (case map_of m k of Some xs \<Rightarrow> xs | None \<Rightarrow> [])"

section \<open>Announced blocks\<close>

text \<open>The loop that empties the sorted picture of a peer into its queue.\<close>

fun queue_blocks :: "Blockchain \<Rightarrow> (u64 \<times> bytes) list \<Rightarrow> BlockData list \<Rightarrow> BlockData list" where
  "queue_blocks bc [] deq = deq"
| "queue_blocks bc ((i, h) # picture) deq =
     (if map_of (bc_blocks bc) h \<noteq> None then queue_blocks bc picture deq
      else if list_ex (\<lambda>b. bd_block_hash b = h \<and> bd_block_id b = i) deq then queue_blocks bc picture deq
      else queue_blocks bc picture (deq @ [\<lparr>bd_block_hash = h, bd_block_id = i, bd_status = Queued,
             bd_retry_count = 0\<rparr>]))"

definition sync_build_peer_block_picture :: "Blockchain \<Rightarrow> BlockchainSyncState \<Rightarrow> BlockchainSyncState" where
  "sync_build_peer_block_picture bc ss =
     (let queues = fold (\<lambda>(peer_index, picture) m.
            AList.update peer_index (queue_blocks bc (sort picture) (or_default peer_index m)) m)
            (ss_received_block_picture ss) (ss_blocks_to_fetch ss)
      in ss\<lparr>ss_received_block_picture := [],
            ss_blocks_to_fetch := filter (\<lambda>(_, deq). deq \<noteq> []) queues\<rparr>)"

definition add_to_picture ::
  "u64 \<Rightarrow> bytes \<Rightarrow> u64 \<Rightarrow> BlockchainSyncState \<Rightarrow> BlockchainSyncState" where
  "add_to_picture block_id block_hash i ss =
     ss\<lparr>ss_received_block_picture := AList.update i
       (or_default i (ss_received_block_picture ss) @ [(block_id, block_hash)])
       (ss_received_block_picture ss)\<rparr>"

text \<open>Peer 0 stands for an unknown source: every peer that serves blocks is asked.\<close>

definition sync_add_entry ::
  "bytes \<Rightarrow> u64 \<Rightarrow> u64 \<Rightarrow> PeerCollection \<Rightarrow> BlockchainSyncState \<Rightarrow> BlockchainSyncState" where
  "sync_add_entry block_hash block_id i ps ss =
     (if i = 0 then
        fold (add_to_picture block_id block_hash)
          (map fst (filter (\<lambda>(_, p). pe_block_fetch_url p \<noteq> []) (pcl_index_to_peers ps))) ss
      else add_to_picture block_id block_hash i ss)"

section \<open>The next batch\<close>

definition sync_get_fetching_block_count :: "BlockchainSyncState \<Rightarrow> u64" where
  "sync_get_fetching_block_count ss =
     sum_list (map (\<lambda>(_, deq). of_nat (length deq)) (ss_blocks_to_fetch ss))"

definition fetching_count :: "BlockData list \<Rightarrow> nat" where
  "fetching_count deq = length (filter (\<lambda>b. bd_status b = Fetching) deq)"

text \<open>The loop over a queue: what is selected, and the queue after it.\<close>

fun select_blocks :: "nat \<Rightarrow> BlockData list \<Rightarrow> (bytes \<times> u64) list \<times> BlockData list" where
  "select_blocks quota [] = ([], [])"
| "select_blocks quota (b # deq) =
     (if quota = 0 then ([], b # deq)
      else case bd_status b of
        Queued \<Rightarrow>
          (let (sel, rest) = select_blocks (quota - 1) deq
           in ((bd_block_hash b, bd_block_id b) # sel, b\<lparr>bd_status := Fetching\<rparr> # rest))
      | Failed \<Rightarrow>
          if bd_retry_count b < MAX_RETRIES_PER_BLOCK then
            (let (sel, rest) = select_blocks (quota - 1) deq
             in (sel, b\<lparr>bd_retry_count := bd_retry_count b + 1, bd_status := Queued\<rparr> # rest))
          else if bd_retry_count b = MAX_RETRIES_PER_BLOCK then
            (let (sel, rest) = select_blocks quota deq
             in (sel, b\<lparr>bd_retry_count := bd_retry_count b + 1\<rparr> # rest))
          else (let (sel, rest) = select_blocks quota deq in (sel, b # rest))
      | _ \<Rightarrow> (let (sel, rest) = select_blocks quota deq in (sel, b # rest)))"

definition by_block :: "BlockData \<Rightarrow> u64 \<times> bytes" where
  "by_block b = (bd_block_id b, bd_block_hash b)"

definition fetch_from_queue :: "u64 \<Rightarrow> BlockData list \<Rightarrow> (bytes \<times> u64) list \<times> BlockData list" where
  "fetch_from_queue batch_size deq =
     select_blocks (unat (batch_size - of_nat (fetching_count deq))) (sort_key by_block deq)"

definition sync_get_blocks_to_fetch_per_peer ::
  "BlockchainSyncState \<Rightarrow> ((u64 \<times> (bytes \<times> u64) list) list \<times> BlockchainSyncState) res" where
  "sync_get_blocks_to_fetch_per_peer ss =
     (if list_ex (\<lambda>(i, _). i = 0) (ss_blocks_to_fetch ss) then Inl Panic
      else
        let fetch = fetch_from_queue (ss_batch_size ss) in
        Inr (filter (\<lambda>(_, sel). sel \<noteq> []) (map (\<lambda>(i, deq). (i, fst (fetch deq))) (ss_blocks_to_fetch ss)),
             ss\<lparr>ss_blocks_to_fetch := map (\<lambda>(i, deq). (i, snd (fetch deq))) (ss_blocks_to_fetch ss)\<rparr>))"

section \<open>Outcomes\<close>

text \<open>The first entry of the hash in a queue is marked.\<close>

fun mark_first_fetched :: "bytes \<Rightarrow> BlockData list \<Rightarrow> BlockData list" where
  "mark_first_fetched h [] = []"
| "mark_first_fetched h (b # deq) =
     (if h = bd_block_hash b then b\<lparr>bd_status := Fetched\<rparr> # deq else b # mark_first_fetched h deq)"

definition sync_remove_fetched_blocks :: "BlockchainSyncState \<Rightarrow> BlockchainSyncState" where
  "sync_remove_fetched_blocks ss =
     ss\<lparr>ss_blocks_to_fetch := filter (\<lambda>(_, deq). deq \<noteq> [])
       (map (\<lambda>(i, deq). (i, filter (\<lambda>b. bd_status b \<noteq> Fetched) deq)) (ss_blocks_to_fetch ss))\<rparr>"

definition sync_mark_as_fetched :: "bytes \<Rightarrow> BlockchainSyncState \<Rightarrow> BlockchainSyncState" where
  "sync_mark_as_fetched h ss =
     sync_remove_fetched_blocks
       (ss\<lparr>ss_blocks_to_fetch := map (\<lambda>(i, deq). (i, mark_first_fetched h deq)) (ss_blocks_to_fetch ss)\<rparr>)"

definition sync_remove_entry :: "bytes \<Rightarrow> BlockchainSyncState \<Rightarrow> BlockchainSyncState" where
  "sync_remove_entry h ss =
     ss\<lparr>ss_blocks_to_fetch := filter (\<lambda>(_, deq). deq \<noteq> [])
       (map (\<lambda>(i, deq). (i, filter (\<lambda>b. bd_block_hash b \<noteq> h) deq)) (ss_blocks_to_fetch ss))\<rparr>"

fun mark_first_failed :: "u64 \<Rightarrow> bytes \<Rightarrow> BlockData list \<Rightarrow> BlockData list" where
  "mark_first_failed i h [] = []"
| "mark_first_failed i h (b # deq) =
     (if bd_block_id b = i \<and> bd_block_hash b = h then b\<lparr>bd_status := Failed\<rparr> # deq
      else b # mark_first_failed i h deq)"

definition sync_mark_as_failed :: "u64 \<Rightarrow> bytes \<Rightarrow> u64 \<Rightarrow> BlockchainSyncState \<Rightarrow> BlockchainSyncState" where
  "sync_mark_as_failed block_id h i ss =
     ss\<lparr>ss_blocks_to_fetch := map (\<lambda>(j, deq).
       (j, if j = i then mark_first_failed block_id h deq else deq)) (ss_blocks_to_fetch ss)\<rparr>"

section \<open>The invariant\<close>

text \<open>
  Each queue belongs to one known peer, is not empty, names a block once, asks for at most a batch
  at a time and keeps its count of retries.
\<close>

definition retries_ok :: "BlockData list \<Rightarrow> bool" where
  "retries_ok deq \<longleftrightarrow> (\<forall>b \<in> set deq. bd_retry_count b \<le> MAX_RETRIES_PER_BLOCK + 1)"

definition queue_ok :: "u64 \<Rightarrow> BlockData list \<Rightarrow> bool" where
  "queue_ok batch_size deq \<longleftrightarrow> distinct (map by_block deq) \<and> fetching_count deq \<le> unat batch_size \<and>
     retries_ok deq"

definition queues_ok :: "u64 \<Rightarrow> (u64 \<times> BlockData list) list \<Rightarrow> bool" where
  "queues_ok batch_size m \<longleftrightarrow> distinct (map fst m) \<and>
     (\<forall>i deq. (i, deq) \<in> set m \<longrightarrow> i \<noteq> 0 \<and> queue_ok batch_size deq)"

definition sync_ok :: "BlockchainSyncState \<Rightarrow> bool" where
  "sync_ok ss \<longleftrightarrow> queues_ok (ss_batch_size ss) (ss_blocks_to_fetch ss) \<and>
     (\<forall>i. (i, []) \<notin> set (ss_blocks_to_fetch ss)) \<and> (\<forall>picture. (0, picture) \<notin> set (ss_received_block_picture ss))"

lemma map_values [simp]:
  "map fst (map (\<lambda>(i, x). (i, f i x)) m) = map fst m"
  "(i, y) \<in> set (map (\<lambda>(i, x). (i, f i x)) m) \<longleftrightarrow> (\<exists>x. (i, x) \<in> set m \<and> y = f i x)"
proof -
  show "map fst (map (\<lambda>(i, x). (i, f i x)) m) = map fst m" by (auto simp: case_prod_beta)
  show "(i, y) \<in> set (map (\<lambda>(i, x). (i, f i x)) m) \<longleftrightarrow> (\<exists>x. (i, x) \<in> set m \<and> y = f i x)" by force
qed

lemma update_elems: "x \<in> set (AList.update k v al) \<Longrightarrow> x = (k, v) \<or> x \<in> set al"
  by (induction al) (auto split: if_splits)

lemma fetching_count_simps [simp]:
  "fetching_count [] = 0"
  "fetching_count (b # deq) = (if bd_status b = Fetching then 1 else 0) + fetching_count deq"
  "fetching_count (xs @ ys) = fetching_count xs + fetching_count ys"
  by (simp_all add: fetching_count_def)

lemma queue_ok_perm:
  assumes "mset xs = mset ys"
  shows "queue_ok n xs = queue_ok n ys"
proof -
  have "mset (map by_block xs) = mset (map by_block ys)" using assms by simp
  then have "distinct (map by_block xs) = distinct (map by_block ys)" by (rule mset_eq_imp_distinct_iff)
  moreover have "fetching_count xs = fetching_count ys"
    unfolding fetching_count_def by (metis assms mset_filter size_mset)
  moreover have "set xs = set ys" using assms by (rule mset_eq_setD)
  ultimately show ?thesis by (simp add: queue_ok_def retries_ok_def)
qed

text \<open>Dropping entries, and changing statuses without starting a fetch, keep a queue in order.\<close>

lemma queue_ok_filter: "queue_ok n deq \<Longrightarrow> queue_ok n (filter P deq)"
proof -
  have "fetching_count (filter P deq) \<le> fetching_count deq" by (induction deq) auto
  then show "queue_ok n deq \<Longrightarrow> queue_ok n (filter P deq)"
    by (auto simp: queue_ok_def retries_ok_def distinct_map_filter)
qed

definition same_blocks :: "BlockData list \<Rightarrow> BlockData list \<Rightarrow> bool" where
  "same_blocks = list_all2 (\<lambda>b b'. by_block b' = by_block b \<and> bd_retry_count b' = bd_retry_count b \<and>
     (bd_status b' = Fetching \<longrightarrow> bd_status b = Fetching))"

lemma same_blocks_refl [simp]: "same_blocks deq deq"
  by (simp add: same_blocks_def list.rel_refl)

lemma same_blocks_Nil: "same_blocks deq [] \<longleftrightarrow> deq = []"
  by (simp add: same_blocks_def)

lemma queue_ok_status:
  assumes "same_blocks deq deq'" and "queue_ok n deq"
  shows "queue_ok n deq'"
proof -
  from assms(1) have "map by_block deq' = map by_block deq \<and> fetching_count deq' \<le> fetching_count deq \<and>
      (retries_ok deq \<longrightarrow> retries_ok deq')"
    unfolding same_blocks_def by (induction rule: list_all2_induct) (auto simp: retries_ok_def)
  then show ?thesis
    using assms(2) by (auto simp: queue_ok_def)
qed

lemma mark_first_changes:
  "same_blocks deq (mark_first_fetched h deq)" "same_blocks deq (mark_first_failed i h deq)"
  by (induction deq) (auto simp: same_blocks_def by_block_def list.rel_refl)

lemma queue_blocks_ok: "queue_ok n deq \<Longrightarrow> queue_ok n (queue_blocks bc picture deq)"
proof (induction bc picture deq rule: queue_blocks.induct)
  case (2 bc i h picture deq)
  then show ?case
    by (auto simp: queue_ok_def retries_ok_def by_block_def list_ex_iff)
qed simp

lemma queue_ok_Nil [simp]: "queue_ok n []"
  by (simp add: queue_ok_def retries_ok_def)

section \<open>What a batch holds\<close>

lemma retries_ok_simps [simp]:
  "retries_ok []"
  "retries_ok (b # deq) \<longleftrightarrow> bd_retry_count b \<le> MAX_RETRIES_PER_BLOCK + 1 \<and> retries_ok deq"
  by (simp_all add: retries_ok_def)

lemma retry_bound: "n < MAX_RETRIES_PER_BLOCK \<Longrightarrow> n + 1 \<le> MAX_RETRIES_PER_BLOCK + 1"
  unfolding MAX_RETRIES_PER_BLOCK_def by unat_arith

lemma select_blocks_sound:
  assumes "select_blocks quota deq = (sel, deq')"
  shows "map by_block deq' = map by_block deq \<and> length sel \<le> quota \<and>
    fetching_count deq' = fetching_count deq + length sel \<and> (retries_ok deq \<longrightarrow> retries_ok deq')"
  using assms
proof (induction deq arbitrary: quota sel deq')
  case (Cons b deq)
  obtain s1 r1 where r1: "select_blocks (quota - 1) deq = (s1, r1)" by force
  obtain s2 r2 where r2: "select_blocks quota deq = (s2, r2)" by force
  note IH = Cons.IH [OF r1] Cons.IH [OF r2]
  show ?case
  proof (cases "quota = 0")
    case False
    note simps = Cons.prems r1 r2 IH retry_bound [of "bd_retry_count b"] False
    show ?thesis
    proof (cases "bd_status b")
      case Failed
      with simps show ?thesis by (simp add: by_block_def split: if_splits) (auto simp: by_block_def)
    qed (use simps in \<open>auto simp: by_block_def\<close>)
  qed (use Cons.prems in auto)
qed simp

lemma fetch_from_queue_sound:
  assumes "fetch_from_queue n deq = (sel, deq')" and "queue_ok n deq"
  shows "queue_ok n deq'" "fetching_count deq' = fetching_count deq + length sel" "deq' = [] \<longleftrightarrow> deq = []"
proof -
  let ?s = "sort_key by_block deq"
  have s: "queue_ok n ?s" "fetching_count ?s = fetching_count deq"
    using assms(2) queue_ok_perm [of ?s deq n] by (simp_all, metis fetching_count_def mset_filter mset_sort size_mset)
  have "unat (n - of_nat (fetching_count deq)) = unat n - fetching_count deq"
  proof -
    have f: "fetching_count deq \<le> unat n" using assms(2) by (simp add: queue_ok_def)
    then have u: "unat (of_nat (fetching_count deq) :: u64) = fetching_count deq"
      by (rule le_unat_uoi)
    with f show ?thesis by (simp add: unat_sub word_le_nat_alt)
  qed
  with assms(1) have "select_blocks (unat n - fetching_count deq) ?s = (sel, deq')"
    by (simp add: fetch_from_queue_def)
  note * = select_blocks_sound [OF this]
  show "fetching_count deq' = fetching_count deq + length sel" using * s by simp
  show "queue_ok n deq'" using * s by (auto simp: queue_ok_def)
  from * have "length deq' = length ?s" by (metis length_map)
  then show "deq' = [] \<longleftrightarrow> deq = []" by (metis length_0_conv length_sort)
qed

text \<open>Every operation of the component keeps the invariant.\<close>

lemma queues_ok_map:
  assumes "queues_ok n m" and "\<And>i deq. queue_ok n deq \<Longrightarrow> queue_ok n (f i deq)"
  shows "queues_ok n (map (\<lambda>(i, deq). (i, f i deq)) m)"
  using assms unfolding queues_ok_def map_values by blast

lemma queues_ok_nonempty: "queues_ok n m \<Longrightarrow> queues_ok n (filter (\<lambda>(_, deq). deq \<noteq> []) m)"
  by (auto simp: queues_ok_def intro: distinct_map_filter)

lemma queues_ok_update: "queues_ok n m \<Longrightarrow> i \<noteq> 0 \<Longrightarrow> queue_ok n deq \<Longrightarrow> queues_ok n (AList.update i deq m)"
  by (auto simp: queues_ok_def distinct_update dest!: update_elems)

lemma sync_ok_queues:
  assumes "sync_ok ss" and "queues_ok (ss_batch_size ss) m"
  shows "sync_ok (ss\<lparr>ss_blocks_to_fetch := filter (\<lambda>(_, deq). deq \<noteq> []) m\<rparr>)"
    and "(\<And>i. (i, []) \<notin> set m) \<Longrightarrow> sync_ok (ss\<lparr>ss_blocks_to_fetch := m\<rparr>)"
  using assms queues_ok_nonempty by (auto simp: sync_ok_def)

lemma sync_ok_received: "sync_ok ss \<Longrightarrow> i \<noteq> 0 \<Longrightarrow> sync_ok (add_to_picture block_id h i ss)"
  by (auto simp: sync_ok_def add_to_picture_def dest!: update_elems)

lemma sync_ok_add:
  assumes "sync_ok ss" and "map_of (pcl_index_to_peers ps) 0 = None"
  shows "sync_ok (sync_add_entry h block_id i ps ss)"
proof -
  have "sync_ok (fold (add_to_picture block_id h) is ss)" if "0 \<notin> set is" for "is"
    using that assms(1)
    by (induction "is" arbitrary: ss) (auto intro: sync_ok_received)
  moreover have "0 \<notin> set (map fst (filter (\<lambda>(_, p). pe_block_fetch_url p \<noteq> []) (pcl_index_to_peers ps)))"
    using assms(2) by (force simp: map_of_eq_None_iff)
  ultimately show ?thesis
    using assms(1) by (auto simp: sync_add_entry_def intro: sync_ok_received)
qed

lemma sync_ok_removals:
  assumes "sync_ok ss"
  shows "sync_ok (sync_remove_fetched_blocks ss)" "sync_ok (sync_remove_entry h ss)"
  unfolding sync_remove_fetched_blocks_def sync_remove_entry_def
  using assms by (auto intro!: sync_ok_queues(1) [OF assms] queues_ok_nonempty queues_ok_map queue_ok_filter simp: sync_ok_def)

lemma sync_ok_status:
  assumes "sync_ok ss" and "\<And>i deq. same_blocks deq (f i deq)"
  shows "sync_ok (ss\<lparr>ss_blocks_to_fetch := map (\<lambda>(i, deq). (i, f i deq)) (ss_blocks_to_fetch ss)\<rparr>)"
proof (rule sync_ok_queues(2) [OF assms(1)])
  show "queues_ok (ss_batch_size ss) (map (\<lambda>(i, deq). (i, f i deq)) (ss_blocks_to_fetch ss))"
    using assms(1) by (intro queues_ok_map queue_ok_status [OF assms(2)]) (simp_all add: sync_ok_def)
  show "(i, []) \<notin> set (map (\<lambda>(i, deq). (i, f i deq)) (ss_blocks_to_fetch ss))" for i
    unfolding map_values using assms same_blocks_Nil by (metis sync_ok_def)
qed

lemma sync_ok_marks:
  assumes "sync_ok ss"
  shows "sync_ok (sync_mark_as_fetched h ss)" "sync_ok (sync_mark_as_failed block_id h i ss)"
proof -
  show "sync_ok (sync_mark_as_fetched h ss)"
    unfolding sync_mark_as_fetched_def
    by (intro sync_ok_removals sync_ok_status [OF assms] mark_first_changes)
  show "sync_ok (sync_mark_as_failed block_id h i ss)"
    unfolding sync_mark_as_failed_def
    by (rule sync_ok_status [OF assms]) (simp add: mark_first_changes)
qed

lemma queues_ok_pictures:
  "queues_ok n m \<Longrightarrow> (\<And>picture. (0, picture) \<notin> set pics) \<Longrightarrow>
   queues_ok n (fold (\<lambda>(i, picture) m. AList.update i (queue_blocks bc (sort picture) (or_default i m)) m) pics m)"
proof (induction pics arbitrary: m)
  case (Cons x pics)
  obtain i picture where x: "x = (i, picture)" by force
  have "queue_ok n (or_default i m)"
    using Cons.prems(1) by (auto simp: or_default_def queues_ok_def split: option.split dest: map_of_SomeD)
  then have "queues_ok n (AList.update i (queue_blocks bc (sort picture) (or_default i m)) m)"
    using Cons.prems x by (intro queues_ok_update queue_blocks_ok) auto
  then show ?case using Cons x by simp
qed simp

lemma sync_ok_picture: "sync_ok ss \<Longrightarrow> sync_ok (sync_build_peer_block_picture bc ss)"
  unfolding sync_build_peer_block_picture_def Let_def
  using queues_ok_nonempty queues_ok_pictures by (auto simp: sync_ok_def)

lemma sync_ok_batch:
  assumes "sync_ok ss"
  shows "\<exists>sel ss'. sync_get_blocks_to_fetch_per_peer ss = Inr (sel, ss') \<and> sync_ok ss' \<and>
    ss_batch_size ss' = ss_batch_size ss \<and>
    (\<forall>i blocks. (i, blocks) \<in> set sel \<longrightarrow> (\<exists>deq'. (i, deq') \<in> set (ss_blocks_to_fetch ss') \<and>
       length blocks \<le> fetching_count deq'))"
proof -
  let ?f = "fetch_from_queue (ss_batch_size ss)"
  let ?m = "map (\<lambda>(i, deq). (i, snd (?f deq))) (ss_blocks_to_fetch ss)"
  have "\<not> list_ex (\<lambda>(i, _). i = 0) (ss_blocks_to_fetch ss)"
    using assms by (auto simp: list_ex_iff sync_ok_def queues_ok_def)
  then have g: "sync_get_blocks_to_fetch_per_peer ss =
      Inr (filter (\<lambda>(_, sel). sel \<noteq> []) (map (\<lambda>(i, deq). (i, fst (?f deq))) (ss_blocks_to_fetch ss)),
        ss\<lparr>ss_blocks_to_fetch := ?m\<rparr>)"
    by (simp add: sync_get_blocks_to_fetch_per_peer_def Let_def)
  have q: "queue_ok (ss_batch_size ss) (snd (?f deq))" "snd (?f deq) = [] \<longleftrightarrow> deq = []"
      "length (fst (?f deq)) \<le> fetching_count (snd (?f deq))"
    if "queue_ok (ss_batch_size ss) deq" for deq
    using that fetch_from_queue_sound [of "ss_batch_size ss" deq "fst (?f deq)" "snd (?f deq)"] by auto
  have ok: "queues_ok (ss_batch_size ss) (ss_blocks_to_fetch ss)" using assms by (simp add: sync_ok_def)
  have "sync_ok (ss\<lparr>ss_blocks_to_fetch := ?m\<rparr>)"
  proof (rule sync_ok_queues(2) [OF assms])
    show "queues_ok (ss_batch_size ss) ?m" using ok q(1) by (rule queues_ok_map)
    show "(i, []) \<notin> set ?m" for i
      unfolding map_values using assms ok q(2) unfolding sync_ok_def queues_ok_def by metis
  qed
  moreover have "\<exists>deq'. (i, deq') \<in> set ?m \<and> length blocks \<le> fetching_count deq'"
    if "(i, blocks) \<in> set (map (\<lambda>(i, deq). (i, fst (?f deq))) (ss_blocks_to_fetch ss))" for i blocks
    using that q(3) ok unfolding map_values queues_ok_def by blast
  ultimately show ?thesis unfolding g by auto
qed

text \<open>The states the node goes through: every operation, in any order, from the empty state.\<close>

inductive sync_reachable :: "u64 \<Rightarrow> BlockchainSyncState \<Rightarrow> bool" for n where
  new: "sync_reachable n (sync_new n)"
| add: "sync_reachable n ss \<Longrightarrow> map_of (pcl_index_to_peers ps) 0 = None \<Longrightarrow>
    sync_reachable n (sync_add_entry h block_id i ps ss)"
| picture: "sync_reachable n ss \<Longrightarrow> sync_reachable n (sync_build_peer_block_picture bc ss)"
| batch: "sync_reachable n ss \<Longrightarrow> sync_get_blocks_to_fetch_per_peer ss = Inr (sel, ss') \<Longrightarrow> sync_reachable n ss'"
| fetched: "sync_reachable n ss \<Longrightarrow> sync_reachable n (sync_mark_as_fetched h ss)"
| failed: "sync_reachable n ss \<Longrightarrow> sync_reachable n (sync_mark_as_failed block_id h i ss)"
| remove: "sync_reachable n ss \<Longrightarrow> sync_reachable n (sync_remove_entry h ss)"

lemma sync_batch_size [simp]:
  "ss_batch_size (add_to_picture block_id h i ss) = ss_batch_size ss"
  "ss_batch_size (sync_build_peer_block_picture bc ss) = ss_batch_size ss"
  "ss_batch_size (sync_mark_as_fetched h ss) = ss_batch_size ss"
  "ss_batch_size (sync_mark_as_failed block_id h i ss) = ss_batch_size ss"
  "ss_batch_size (sync_remove_entry h ss) = ss_batch_size ss"
  by (simp_all add: add_to_picture_def sync_build_peer_block_picture_def sync_mark_as_fetched_def
      sync_remove_fetched_blocks_def sync_mark_as_failed_def sync_remove_entry_def Let_def)

lemma sync_batch_size_add [simp]: "ss_batch_size (sync_add_entry h block_id i ps ss) = ss_batch_size ss"
proof -
  have "ss_batch_size (fold (add_to_picture block_id h) is ss) = ss_batch_size ss" for "is"
    by (induction "is" arbitrary: ss) simp_all
  then show ?thesis by (simp add: sync_add_entry_def)
qed

lemma sync_new_ok: "sync_ok (sync_new n) \<and> ss_batch_size (sync_new n) = n"
  by (simp add: sync_new_def sync_ok_def queues_ok_def)

lemma sync_reachable_ok: "sync_reachable n ss \<Longrightarrow> sync_ok ss \<and> ss_batch_size ss = n"
proof (induction rule: sync_reachable.induct)
  case (batch ss sel ss')
  with sync_ok_batch [of ss] show ?case by auto
qed (simp_all add: sync_new_ok sync_ok_add sync_ok_picture sync_ok_marks sync_ok_removals)

text \<open>
  C23. Whatever peers announce, deliver and fail to deliver, in any order: the next batch is always
  computed (the assertion on the peer holds and the quota does not underflow), and afterwards no
  peer has more than the batch size of blocks in flight, the newly requested ones included; an
  entry is retried at most 500 times before it is given up.
\<close>

theorem fetches_stay_within_batch:
  assumes "sync_reachable n ss"
  shows "\<exists>sel ss'. sync_get_blocks_to_fetch_per_peer ss = Inr (sel, ss') \<and>
    (\<forall>i deq. (i, deq) \<in> set (ss_blocks_to_fetch ss') \<longrightarrow> fetching_count deq \<le> unat n \<and>
       (\<forall>b \<in> set deq. bd_retry_count b \<le> 501)) \<and>
    (\<forall>i blocks. (i, blocks) \<in> set sel \<longrightarrow> (\<exists>deq. (i, deq) \<in> set (ss_blocks_to_fetch ss') \<and>
       length blocks \<le> fetching_count deq))"
proof -
  from sync_reachable_ok [OF assms] sync_ok_batch [of ss] obtain sel ss' where
    g: "sync_get_blocks_to_fetch_per_peer ss = Inr (sel, ss')" "sync_ok ss'" "ss_batch_size ss' = n"
    and "\<forall>i blocks. (i, blocks) \<in> set sel \<longrightarrow> (\<exists>deq. (i, deq) \<in> set (ss_blocks_to_fetch ss') \<and>
       length blocks \<le> fetching_count deq)"
    by auto
  moreover have "fetching_count deq \<le> unat n \<and> (\<forall>b \<in> set deq. bd_retry_count b \<le> 501)"
    if "(i, deq) \<in> set (ss_blocks_to_fetch ss')" for i deq
    using g that by (auto simp: sync_ok_def queues_ok_def queue_ok_def retries_ok_def MAX_RETRIES_PER_BLOCK_def)
  ultimately show ?thesis by blast
qed

definition demo_sync :: BlockchainSyncState where
  "demo_sync = sync_build_peer_block_picture (bc_new 2 0 0)
     (sync_add_entry [3] 12 7 peers_default (sync_add_entry [1] 10 7 peers_default
       (sync_add_entry [2] 11 7 peers_default (sync_new 2))))"

theorem fetches_stay_within_batch_witness:
  "sync_reachable 2 demo_sync \<and> (\<exists>sel ss'. sync_get_blocks_to_fetch_per_peer demo_sync = Inr (sel, ss') \<and>
     list_all (\<lambda>(i, deq). fetching_count deq \<le> 2) (ss_blocks_to_fetch ss'))"
proof -
  have r: "sync_reachable 2 demo_sync"
    unfolding demo_sync_def by (intro sync_reachable.intros) (simp_all add: peers_default_def)
  from fetches_stay_within_batch [OF r] r show ?thesis by (fastforce simp: list_all_iff)
qed

section \<open>The order of a batch\<close>

definition takes_quota :: "BlockData \<Rightarrow> bool" where
  "takes_quota b \<longleftrightarrow> bd_status b = Queued \<or> bd_status b = Failed \<and> bd_retry_count b < MAX_RETRIES_PER_BLOCK"

lemma select_blocks_prefix:
  "\<exists>pre post. deq = pre @ post \<and>
     fst (select_blocks quota deq) = map (\<lambda>b. (bd_block_hash b, bd_block_id b)) (filter (\<lambda>b. bd_status b = Queued) pre) \<and>
     (post = [] \<or> quota = length (filter takes_quota pre))"
proof (induction deq arbitrary: quota)
  case (Cons b deq)
  show ?case
  proof (cases "quota = 0")
    case False
    let ?q = "if takes_quota b then quota - 1 else quota"
    from Cons.IH [of ?q] obtain pre post where IH: "deq = pre @ post"
      "fst (select_blocks ?q deq) = map (\<lambda>b. (bd_block_hash b, bd_block_id b)) (filter (\<lambda>b. bd_status b = Queued) pre)"
      "post = [] \<or> ?q = length (filter takes_quota pre)"
      by blast
    have "fst (select_blocks quota (b # deq)) =
        (if bd_status b = Queued then [(bd_block_hash b, bd_block_id b)] else []) @ fst (select_blocks ?q deq)"
      using False by (cases "bd_status b") (auto simp: takes_quota_def split: prod.split)
    with IH False show ?thesis
      by (intro exI [of _ "b # pre"] exI [of _ post]) auto
  qed (auto intro: exI [of _ "[]"])
qed auto

text \<open>
  A batch takes the blocks of a peer in the order of their ids (and hashes): the queue, sorted,
  splits into a part whose queued blocks are exactly the batch, and a rest that is left only when
  the quota is used up by them and by failed blocks put back into the queue.
\<close>

theorem batch_takes_lowest_blocks:
  "\<exists>pre post. sort_key by_block deq = pre @ post \<and>
     fst (fetch_from_queue n deq) =
       map (\<lambda>b. (bd_block_hash b, bd_block_id b)) (filter (\<lambda>b. bd_status b = Queued) pre) \<and>
     (post = [] \<or> unat (n - of_nat (fetching_count deq)) = length (filter takes_quota pre))"
  unfolding fetch_from_queue_def by (rule select_blocks_prefix)

end
