(* ===== verification/Spec2Isabelle.thy ===== *)
theory Spec2Isabelle
  imports Block_Ring Wallet_Rules Winding_Rules Mempool_Rules Blockchain_Add_Rules Peer_Rules Sync_State
begin

text \<open>
  Verification of the Saito consensus core (placeholder).
\<close>

end
